(* ===== verification/Prelude.thy ===== *)
theory Prelude
  imports Complex_Main "HOL-Library.Multiset" "HOL-Library.Finite_Map"
    "HOL-Library.Word" "HOL-Library.Char_ord" "HOL-Library.List_Lexorder"
begin

text \<open>
  Generic vocabulary of the development: the collections of simp rules the component theories
  extend, Go's in-place insertion sort (what \<open>sort.Slice\<close> and \<open>sort.SliceStable\<close> run on short
  slices), Go maps as finite maps with an iteration order, and 64-bit signed arithmetic.

  A Go \<open>string\<close> is a list of bytes (\<^typ>\<open>string\<close>), a Go map is a finite map (\<^typ>\<open>('k, 'v) fmap\<close>), an
  error return is the left summand of a sum.
\<close>

named_theorems go_simps \<open>evaluation rules of the models of Go's standard library\<close>
named_theorems state_simps \<open>what each operation does to each field of its component's state\<close>
named_theorems inv_intros \<open>preservation lemmas of component invariants\<close>

subsection \<open>Errors as sums\<close>

abbreviation is_ok :: "'e + 'a \<Rightarrow> bool" where
  "is_ok r \<equiv> \<not> isl r"

lemma sum_eq_Inr_projr [simp]: "\<not> isl r \<Longrightarrow> Inr (projr r) = r"
  by (cases r) simp_all

text \<open>A Go loop that returns at the first error, collecting what each turn appends.\<close>

fun map_result :: "('a \<Rightarrow> 'e + 'b) \<Rightarrow> 'a list \<Rightarrow> 'e + 'b list" where
  "map_result f [] = Inr []"
| "map_result f (x # xs) =
     (case f x of
        Inl e \<Rightarrow> Inl e
      | Inr y \<Rightarrow> (case map_result f xs of Inl e \<Rightarrow> Inl e | Inr ys \<Rightarrow> Inr (y # ys)))"

lemma map_result_Inr_iff:
  "map_result f xs = Inr ys \<longleftrightarrow> list_all2 (\<lambda>x y. f x = Inr y) xs ys"
proof (induction xs arbitrary: ys)
  case (Cons x xs)
  then show ?case
    by (cases "f x"; cases "map_result f xs") (auto simp: list_all2_Cons1)
qed auto

lemma map_result_ok_iff: "is_ok (map_result f xs) \<longleftrightarrow> (\<forall>x \<in> set xs. is_ok (f x))"
  by (induction xs) (auto split: sum.splits)

lemma map_result_length: "map_result f xs = Inr ys \<Longrightarrow> length ys = length xs"
  by (simp add: map_result_Inr_iff list_all2_lengthD)

lemma map_result_map:
  assumes "map_result f xs = Inr ys" and "\<And>x y. f x = Inr y \<Longrightarrow> g y = h x"
  shows "map g ys = map h xs"
proof -
  have "list_all2 (\<lambda>x y. f x = Inr y) xs ys"
    using assms(1) by (simp add: map_result_Inr_iff)
  then show ?thesis
    by (induction rule: list_all2_induct) (simp_all add: assms(2))
qed

subsection \<open>Insertion sort on slices\<close>

text \<open>
  \<open>sort.insertionSort\<close> (and its \<open>_func\<close> and \<open>Stable\<close> variants) takes each element in turn and
  swaps it towards the front while it is \<open>less\<close> than its left neighbour. \<open>sort.Slice\<close> runs it
  unchanged on slices of at most 12 elements and \<open>sort.SliceStable\<close> on blocks of 20. The sorted
  prefix is kept reversed, so that the right neighbour is the head.
\<close>

fun sift :: "('a \<Rightarrow> 'a \<Rightarrow> bool) \<Rightarrow> 'a \<Rightarrow> 'a list \<Rightarrow> 'a list" where
  "sift lt x [] = [x]"
| "sift lt x (y # ys) = (if lt x y then y # sift lt x ys else x # y # ys)"

definition slice_sort :: "('a \<Rightarrow> 'a \<Rightarrow> bool) \<Rightarrow> 'a list \<Rightarrow> 'a list" where
  "slice_sort lt xs = rev (fold (sift lt) xs [])"

lemma mset_sift [simp]: "mset (sift lt x ys) = add_mset x (mset ys)"
  by (induction ys) auto

lemma mset_fold_sift: "mset (fold (sift lt) xs acc) = mset xs + mset acc"
  by (induction xs arbitrary: acc) auto

lemma mset_slice_sort [simp]: "mset (slice_sort lt xs) = mset xs"
  by (simp add: slice_sort_def mset_fold_sift)

lemma set_slice_sort [simp]: "set (slice_sort lt xs) = set xs"
  by (metis mset_slice_sort set_mset_mset)

lemma length_slice_sort [simp]: "length (slice_sort lt xs) = length xs"
  by (metis mset_slice_sort size_mset)

lemma slice_sort_eq_Nil_iff [simp]: "slice_sort lt xs = [] \<longleftrightarrow> xs = []"
  by (metis length_0_conv length_slice_sort)

lemma slice_sort_Nil [simp]: "slice_sort lt [] = []"
  by simp

lemma distinct_slice_sort [simp]: "distinct (map f (slice_sort lt xs)) \<longleftrightarrow> distinct (map f xs)"
  by (metis distinct_count_atmost_1 mset_map mset_slice_sort set_map set_slice_sort)

text \<open>
  For a comparator that compares a key of a linear order, the result is the stable sort by that
  key: this is the contract of \<open>sort.SliceStable\<close>, for slices of any length.
\<close>

lemma sift_key_sorted:
  assumes "sorted_wrt (\<lambda>x y. k y \<le> k x) ys"
  shows "sorted_wrt (\<lambda>x y. k y \<le> k x) (sift (\<lambda>a b. k a < (k b :: 'b::linorder)) x ys)"
  using assms
proof (induction ys)
  case (Cons y ys)
  have "set (sift (\<lambda>a b. k a < k b) x ys) = insert x (set ys)"
    by (metis mset_sift set_mset_add_mset_insert set_mset_mset)
  with Cons show ?case by (auto simp: not_less)
qed simp

lemma sift_key_filter:
  assumes "sorted_wrt (\<lambda>x y. k y \<le> k x) ys"
  shows "filter (\<lambda>z. c = k z) (sift (\<lambda>a b. k a < (k b :: 'b::linorder)) x ys) =
         (if c = k x then x # filter (\<lambda>z. c = k z) ys else filter (\<lambda>z. c = k z) ys)"
  using assms
proof (induction ys)
  case (Cons y ys)
  then show ?case by (auto simp: not_less)
qed simp

lemma fold_sift_key:
  assumes "sorted_wrt (\<lambda>x y. k y \<le> k x) acc"
  shows "sorted_wrt (\<lambda>x y. k y \<le> k x) (fold (sift (\<lambda>a b. k a < (k b :: 'b::linorder))) xs acc)"
    and "filter (\<lambda>z. c = k z) (fold (sift (\<lambda>a b. k a < k b)) xs acc) =
         rev (filter (\<lambda>z. c = k z) xs) @ filter (\<lambda>z. c = k z) acc"
  using assms
  by (induction xs arbitrary: acc) (auto simp: sift_key_sorted sift_key_filter)

theorem slice_sort_key:
  "slice_sort (\<lambda>a b. k a < (k b :: 'b::linorder)) xs = sort_key k xs"
proof (rule properties_for_sort_key [symmetric])
  show "mset (slice_sort (\<lambda>a b. k a < k b) xs) = mset xs" by simp
  show "filter (\<lambda>x. c = k x) (slice_sort (\<lambda>a b. k a < k b) xs) = filter (\<lambda>x. c = k x) xs" for c
    by (simp add: slice_sort_def fold_sift_key(2) rev_filter [symmetric])
  have "sorted_wrt (\<lambda>x y. k y \<le> k x) (fold (sift (\<lambda>a b. k a < k b)) xs [])"
    by (rule fold_sift_key(1)) simp
  then show "sorted (map k (slice_sort (\<lambda>a b. k a < k b) xs))"
    by (simp add: slice_sort_def sorted_map sorted_wrt_rev)
qed

lemma slice_sort_hd_least:
  assumes "xs \<noteq> []" and "y \<in> set xs"
  shows "k (hd (slice_sort (\<lambda>a b. k a < (k b :: 'b::linorder)) xs)) \<le> k y"
proof -
  let ?s = "sort_key k xs"
  have "sorted (map k ?s)" by simp
  moreover have "?s \<noteq> []" using assms(1) by (metis set_empty set_sort)
  moreover have "y \<in> set ?s" using assms(2) by simp
  ultimately show ?thesis
    unfolding slice_sort_key by (cases ?s) auto
qed

text \<open>Only comparisons between elements of the slice matter.\<close>

lemma set_sift [simp]: "set (sift lt x ys) = insert x (set ys)"
  by (metis mset_sift set_mset_add_mset_insert set_mset_mset)

lemma sift_cong:
  "(\<And>y. y \<in> set ys \<Longrightarrow> lt x y = lt' x y) \<Longrightarrow> sift lt x ys = sift lt' x ys"
  by (induction ys) auto

lemma slice_sort_cong:
  assumes "\<And>a b. a \<in> set xs \<Longrightarrow> b \<in> set xs \<Longrightarrow> lt a b = lt' a b"
  shows "slice_sort lt xs = slice_sort lt' xs"
proof -
  have "fold (sift lt) ys acc = fold (sift lt') ys acc" if "set ys \<union> set acc \<subseteq> set xs" for ys acc
    using that
  proof (induction ys arbitrary: acc)
    case (Cons y ys)
    have "sift lt y acc = sift lt' y acc" using Cons.prems by (intro sift_cong assms) auto
    with Cons show ?case by simp
  qed simp
  then show ?thesis by (simp add: slice_sort_def)
qed

lemma sift_map: "sift lt (f x) (map f ys) = map f (sift (\<lambda>a b. lt (f a) (f b)) x ys)"
  by (induction ys) auto

lemma slice_sort_map: "slice_sort lt (map f xs) = map f (slice_sort (\<lambda>a b. lt (f a) (f b)) xs)"
proof -
  have "fold (sift lt) (map f xs) (map f acc) = map f (fold (sift (\<lambda>a b. lt (f a) (f b))) xs acc)" for acc
    by (induction xs arbitrary: acc) (simp_all add: sift_map)
  from this [of "[]"] show ?thesis by (simp add: slice_sort_def rev_map)
qed

subsection \<open>Finite maps\<close>

lemma fmlookup_None_iff: "fmlookup m k = None \<longleftrightarrow> k \<notin> fset (fmdom m)"
  by (auto simp: fmdom_notD)

end
