(* ===== verification/GoStd.thy ===== *)
theory GoStd
  imports Prelude
begin

text \<open>
  What the code uses of Go's standard library beyond slices, maps and floats: \<open>time\<close> (instants as
  nanoseconds, durations as 64-bit signed integers), \<open>errors\<close> (wrapped and joined error chains,
  \<open>errors.Is\<close>, \<open>errors.As\<close> for \<open>net.Error\<close>), \<open>strings\<close>, \<open>strconv\<close> and the host:port functions of
  \<open>net\<close>. Strings are byte strings; case mapping and space trimming act on their ASCII bytes.
\<close>

subsection \<open>time\<close>

text \<open>
  A \<open>time.Time\<close> counts nanoseconds from the zero time (1 January of year 1), which is 0.
  A \<open>time.Duration\<close> is an int64 of nanoseconds: products wrap, \<open>Time.Sub\<close> saturates.
\<close>

type_synonym time = int
type_synonym duration = int

definition zero_time :: time where "zero_time = 0"

definition max_int64 :: int where "max_int64 = 2 ^ 63 - 1"
definition min_int64 :: int where "min_int64 = - (2 ^ 63)"

definition wrap64 :: "int \<Rightarrow> int" where
  "wrap64 x = (x + 2 ^ 63) mod 2 ^ 64 - 2 ^ 63"

definition time_add :: "time \<Rightarrow> duration \<Rightarrow> time" where
  "time_add t d = t + d"

definition time_sub :: "time \<Rightarrow> time \<Rightarrow> duration" where
  "time_sub t u = max min_int64 (min max_int64 (t - u))"

definition after :: "time \<Rightarrow> time \<Rightarrow> bool" where
  "after t u \<longleftrightarrow> u < t"

definition is_zero_time :: "time \<Rightarrow> bool" where
  "is_zero_time t \<longleftrightarrow> t = zero_time"

definition ms :: duration where "ms = 1000000"
definition second :: duration where "second = 1000000000"
definition minute :: duration where "minute = 60000000000"
definition hour :: duration where "hour = 3600000000000"

definition in_int64 :: "int \<Rightarrow> bool" where
  "in_int64 x \<longleftrightarrow> min_int64 \<le> x \<and> x \<le> max_int64"

lemmas time_defs = zero_time_def time_add_def time_sub_def after_def is_zero_time_def
  ms_def second_def minute_def hour_def max_int64_def min_int64_def

lemma wrap64_in_range: "min_int64 \<le> wrap64 x \<and> wrap64 x \<le> max_int64"
  using pos_mod_bound [of "2 ^ 64" "x + 2 ^ 63"] pos_mod_sign [of "2 ^ 64" "x + 2 ^ 63"]
  by (simp add: wrap64_def min_int64_def max_int64_def)

lemma wrap64_id: "min_int64 \<le> x \<Longrightarrow> x \<le> max_int64 \<Longrightarrow> wrap64 x = x"
  by (simp add: wrap64_def min_int64_def max_int64_def)

lemma time_sub_range: "in_int64 (time_sub t u)"
  by (simp add: in_int64_def time_sub_def min_int64_def max_int64_def)

lemma time_sub_less_iff:
  "min_int64 < d \<Longrightarrow> d \<le> max_int64 \<Longrightarrow> time_sub t u < d \<longleftrightarrow> t - u < d"
  by (auto simp: time_sub_def)

lemma time_sub_greater_iff:
  "min_int64 \<le> d \<Longrightarrow> d < max_int64 \<Longrightarrow> d < time_sub t u \<longleftrightarrow> d < t - u"
  by (auto simp: time_sub_def)

subsection \<open>errors\<close>

text \<open>
  The error values the code tells apart. An error that implements \<open>net.Error\<close> carries the value
  of its \<open>Timeout\<close> method.
\<close>

datatype sentinel =
    ErrProxyAuth
  | DeadlineExceeded    \<comment> \<open>context.DeadlineExceeded\<close>
  | OsDeadlineExceeded  \<comment> \<open>os.ErrDeadlineExceeded\<close>
  | Canceled            \<comment> \<open>context.Canceled\<close>
  | ECONNREFUSED
  | ErrCascadeCooling
  | ErrPoolExhausted
  | ErrAPIRateLimited   \<comment> \<open>provider.ErrAPIRateLimited\<close>
  | ErrAPINotSupported  \<comment> \<open>provider.ErrAPINotSupported\<close>
  | ErrNotExist         \<comment> \<open>os.ErrNotExist\<close>
  | ErrUnauthorized     \<comment> \<open>the sentinels of package webshare\<close>
  | ErrForbidden
  | ErrRateLimited
  | HTTPStatusError int \<comment> \<open>webshare.HTTPStatusError, by its status code\<close>
  | OtherError string

datatype goerr =
    ErrLeaf sentinel "bool option"
  | ErrWrap string "bool option" goerr
  | ErrJoin "goerr list"

fun errors_is :: "goerr \<Rightarrow> sentinel \<Rightarrow> bool" where
  "errors_is (ErrLeaf s _) t = (s = t)"
| "errors_is (ErrWrap _ _ e) t = errors_is e t"
| "errors_is (ErrJoin es) t = list_ex (\<lambda>e. errors_is e t) es"

text \<open>\<open>errors.As(err, &ne)\<close> for \<open>net.Error\<close>: the first such error in pre-order, by its \<open>Timeout()\<close>.\<close>

fun as_net_error :: "goerr \<Rightarrow> bool option" and as_net_error_list :: "goerr list \<Rightarrow> bool option" where
  "as_net_error (ErrLeaf _ ne) = ne"
| "as_net_error (ErrWrap _ ne e) = (case ne of Some b \<Rightarrow> Some b | None \<Rightarrow> as_net_error e)"
| "as_net_error (ErrJoin es) = as_net_error_list es"
| "as_net_error_list [] = None"
| "as_net_error_list (e # es) =
     (case as_net_error e of Some b \<Rightarrow> Some b | None \<Rightarrow> as_net_error_list es)"

text \<open>\<open>fmt.Errorf("...: %w", err)\<close>, and \<open>errors.Join\<close>, which is nil for no errors.\<close>

definition errorf_w :: "string \<Rightarrow> goerr \<Rightarrow> goerr" where
  "errorf_w msg e = ErrWrap msg None e"

definition errorf :: "string \<Rightarrow> goerr" where
  "errorf msg = ErrLeaf (OtherError msg) None"

definition errors_join :: "goerr list \<Rightarrow> goerr option" where
  "errors_join es = (if es = [] then None else Some (ErrJoin es))"

definition errorf_w_opt :: "string \<Rightarrow> goerr option \<Rightarrow> goerr" where
  "errorf_w_opt msg e = (case e of None \<Rightarrow> errorf msg | Some e' \<Rightarrow> errorf_w msg e')"

lemma errors_is_wrap [simp]: "errors_is (errorf_w msg e) t = errors_is e t"
  by (simp add: errorf_w_def)

lemma errors_is_errorf [simp]: "errors_is (errorf msg) t \<longleftrightarrow> t = OtherError msg"
  by (auto simp: errorf_def)

lemma errors_is_wrap_join:
  "errors_is (errorf_w_opt msg (errors_join es)) t \<longleftrightarrow>
     (if es = [] then t = OtherError msg else \<exists>e \<in> set es. errors_is e t)"
  by (auto simp: errorf_w_opt_def errors_join_def list_ex_iff)

subsection \<open>strings and strconv\<close>

definition is_upper :: "char \<Rightarrow> bool" where
  "is_upper c \<longleftrightarrow> 65 \<le> (of_char c :: nat) \<and> (of_char c :: nat) \<le> 90"

definition lower_char :: "char \<Rightarrow> char" where
  "lower_char c = (if is_upper c then char_of ((of_char c :: nat) + 32) else c)"

definition to_lower :: "string \<Rightarrow> string" where
  "to_lower s = map lower_char s"

definition is_space :: "char \<Rightarrow> bool" where
  "is_space c \<longleftrightarrow> (of_char c :: nat) = 32 \<or> (9 \<le> (of_char c :: nat) \<and> (of_char c :: nat) \<le> 13)"

definition trim_left :: "(char \<Rightarrow> bool) \<Rightarrow> string \<Rightarrow> string" where
  "trim_left p s = dropWhile p s"

definition trim_right :: "(char \<Rightarrow> bool) \<Rightarrow> string \<Rightarrow> string" where
  "trim_right p s = rev (dropWhile p (rev s))"

definition trim_space :: "string \<Rightarrow> string" where
  "trim_space s = trim_right is_space (trim_left is_space s)"

fun has_prefix :: "string \<Rightarrow> string \<Rightarrow> bool" where
  "has_prefix s [] = True"
| "has_prefix [] (p # ps) = False"
| "has_prefix (c # s) (p # ps) = (c = p \<and> has_prefix s ps)"

lemma has_prefix_iff: "has_prefix s p \<longleftrightarrow> (\<exists>r. s = p @ r)"
  by (induction s p rule: has_prefix.induct) auto

lemma has_prefix_append [simp]: "has_prefix (p @ s) p"
  by (auto simp: has_prefix_iff)

lemma has_prefix_trans: "has_prefix a b \<Longrightarrow> has_prefix b c \<Longrightarrow> has_prefix a c"
  by (auto simp: has_prefix_iff)

text \<open>Two prefixes of one string are prefixes of each other, one way or the other.\<close>

lemma has_prefix_linear: "has_prefix s a \<Longrightarrow> has_prefix s b \<Longrightarrow> has_prefix a b \<or> has_prefix b a"
  by (auto simp: has_prefix_iff append_eq_append_conv2)

lemma lower_char_idem [simp]: "lower_char (lower_char c) = lower_char c"
proof (cases "is_upper c")
  case True
  then have "(of_char (lower_char c) :: nat) = of_char c + 32"
    by (simp add: lower_char_def is_upper_def)
  with True have "\<not> is_upper (lower_char c)" by (simp add: is_upper_def)
  then show ?thesis by (simp add: lower_char_def)
qed (simp add: lower_char_def)

lemma to_lower_idem [simp]: "to_lower (to_lower s) = to_lower s"
  by (simp add: to_lower_def)

lemma to_lower_length [simp]: "length (to_lower s) = length s"
  by (simp add: to_lower_def)

definition digit_val :: "char \<Rightarrow> int" where
  "digit_val c = int (of_char c) - 48"

definition is_digit :: "char \<Rightarrow> bool" where
  "is_digit c \<longleftrightarrow> 0 \<le> digit_val c \<and> digit_val c \<le> 9"

definition parse_digits :: "string \<Rightarrow> int option" where
  "parse_digits s =
     (if s = [] \<or> \<not> list_all is_digit s then None
      else Some (foldl (\<lambda>n c. 10 * n + digit_val c) 0 s))"

text \<open>\<open>strconv.ParseInt(s, 10, 64)\<close>: an optional sign, then digits, within int64.\<close>

definition parse_int :: "string \<Rightarrow> int option" where
  "parse_int s =
     (case
        (case s of
           [] \<Rightarrow> None
         | c # cs \<Rightarrow>
             if c = CHR ''-'' then map_option uminus (parse_digits cs)
             else if c = CHR ''+'' then parse_digits cs
             else parse_digits s)
      of None \<Rightarrow> None
       | Some n \<Rightarrow> if min_int64 \<le> n \<and> n \<le> max_int64 then Some n else None)"

lemma parse_int_range: "parse_int s = Some n \<Longrightarrow> min_int64 \<le> n \<and> n \<le> max_int64"
  by (auto simp: parse_int_def split: option.splits if_splits)

text \<open>\<open>strconv.Itoa\<close> of a non-negative number.\<close>

definition digit_char :: "nat \<Rightarrow> char" where
  "digit_char d = char_of (48 + d)"

fun show_nat :: "nat \<Rightarrow> string" where
  "show_nat n = (if n < 10 then [digit_char n] else show_nat (n div 10) @ [digit_char (n mod 10)])"

declare show_nat.simps [simp del]

definition itoa :: "int \<Rightarrow> string" where
  "itoa n = (if n < 0 then CHR ''-'' # show_nat (nat (- n)) else show_nat (nat n))"

lemma digit_val_char: "d < 10 \<Longrightarrow> digit_val (digit_char d) = int d"
  by (simp add: digit_val_def digit_char_def)

lemma is_digit_char: "d < 10 \<Longrightarrow> is_digit (digit_char d)"
  by (simp add: is_digit_def digit_val_char)

lemma show_nat_digits: "list_all is_digit (show_nat n) \<and> show_nat n \<noteq> []"
proof (induction n rule: show_nat.induct)
  case (1 n)
  then show ?case
    by (subst (1 2) show_nat.simps) (auto simp: is_digit_char)
qed

lemma foldl_show_nat: "foldl (\<lambda>n c. 10 * n + digit_val c) 0 (show_nat n) = int n"
proof (induction n rule: show_nat.induct)
  case (1 n)
  then show ?case
    by (subst show_nat.simps) (auto simp: digit_val_char zdiv_int zmod_int)
qed

lemma parse_digits_show_nat: "parse_digits (show_nat n) = Some (int n)"
  by (simp add: parse_digits_def show_nat_digits foldl_show_nat)

lemma is_digit_not_special:
  "is_digit c \<Longrightarrow> c \<noteq> CHR ''-'' \<and> c \<noteq> CHR ''+'' \<and> c \<noteq> CHR '':'' \<and> c \<noteq> CHR ''['' \<and> c \<noteq> CHR '']''"
  by (auto simp: is_digit_def digit_val_def)

lemma parse_int_itoa: "0 \<le> n \<Longrightarrow> n \<le> max_int64 \<Longrightarrow> parse_int (itoa n) = Some n"
proof -
  assume n: "0 \<le> n" "n \<le> max_int64"
  obtain c cs where s: "show_nat (nat n) = c # cs"
    using show_nat_digits [of "nat n"] by (cases "show_nat (nat n)") auto
  then have "is_digit c" using show_nat_digits [of "nat n"] by simp
  then show ?thesis
    using n s parse_digits_show_nat [of "nat n"] is_digit_not_special [of c]
    by (simp add: parse_int_def itoa_def min_int64_def)
qed

subsection \<open>net.SplitHostPort and net.JoinHostPort\<close>

datatype addr_error = MissingPort | TooManyColons | MissingBracket | UnexpectedBracket

definition split_host_port :: "string \<Rightarrow> addr_error + string \<times> string" where
  "split_host_port s =
     (if CHR '':'' \<notin> set s then Inl MissingPort
      else
        (let port = rev (takeWhile (\<lambda>c. c \<noteq> CHR '':'') (rev s));
             before = rev (tl (dropWhile (\<lambda>c. c \<noteq> CHR '':'') (rev s)))
         in if hd s = CHR ''['' then
              (let host = takeWhile (\<lambda>c. c \<noteq> CHR '']'') (tl s);
                   rest = dropWhile (\<lambda>c. c \<noteq> CHR '']'') (tl s)
               in case rest of
                    [] \<Rightarrow> Inl MissingBracket
                  | _ # [] \<Rightarrow> Inl MissingPort
                  | _ # c # cs \<Rightarrow>
                      if c \<noteq> CHR '':'' then Inl MissingPort
                      else if CHR '':'' \<in> set cs then Inl TooManyColons
                      else if CHR ''['' \<in> set (tl s) then Inl UnexpectedBracket
                      else if CHR '']'' \<in> set (c # cs) then Inl UnexpectedBracket
                      else Inr (host, port))
            else if CHR '':'' \<in> set before then Inl TooManyColons
            else if CHR ''['' \<in> set s \<or> CHR '']'' \<in> set s then Inl UnexpectedBracket
            else Inr (before, port)))"

definition join_host_port :: "string \<Rightarrow> string \<Rightarrow> string" where
  "join_host_port host port =
     (if CHR '':'' \<in> set host then ''['' @ host @ '']:'' @ port else host @ '':'' @ port)"

lemma takeWhile_append_stop: "(\<forall>x \<in> set xs. P x) \<Longrightarrow> \<not> P y \<Longrightarrow> takeWhile P (xs @ y # ys) = xs"
  by (induction xs) auto

lemma dropWhile_append_stop: "(\<forall>x \<in> set xs. P x) \<Longrightarrow> \<not> P y \<Longrightarrow> dropWhile P (xs @ y # ys) = y # ys"
  by (induction xs) auto

definition plain_port :: "string \<Rightarrow> bool" where
  "plain_port p \<longleftrightarrow> CHR '':'' \<notin> set p \<and> CHR ''['' \<notin> set p \<and> CHR '']'' \<notin> set p"

definition plain_host :: "string \<Rightarrow> bool" where
  "plain_host h \<longleftrightarrow> CHR ''['' \<notin> set h \<and> CHR '']'' \<notin> set h"

theorem split_join_host_port:
  assumes h: "plain_host host" and p: "plain_port port"
  shows "split_host_port (join_host_port host port) = Inr (host, port)"
proof (cases "CHR '':'' \<in> set host")
  case True
  let ?s = "''['' @ host @ '']:'' @ port"
  have r: "rev ?s = rev port @ CHR '':'' # CHR '']'' # rev host @ ''[''" by simp
  have tl: "tl ?s = host @ CHR '']'' # CHR '':'' # port" by simp
  have "takeWhile (\<lambda>c. c \<noteq> CHR '':'') (rev ?s) = rev port"
    unfolding r using p by (intro takeWhile_append_stop) (auto simp: plain_port_def)
  moreover have "takeWhile (\<lambda>c. c \<noteq> CHR '']'') (tl ?s) = host"
    unfolding tl using h by (intro takeWhile_append_stop) (auto simp: plain_host_def)
  moreover have "dropWhile (\<lambda>c. c \<noteq> CHR '']'') (tl ?s) = '']:'' @ port"
    unfolding tl using h by (simp, intro dropWhile_append_stop) (auto simp: plain_host_def)
  ultimately show ?thesis
    using True h p
    by (simp add: join_host_port_def split_host_port_def Let_def plain_host_def plain_port_def)
next
  case False
  let ?s = "host @ '':'' @ port"
  have r: "rev ?s = rev port @ CHR '':'' # rev host" by simp
  have t: "takeWhile (\<lambda>c. c \<noteq> CHR '':'') (rev ?s) = rev port"
    unfolding r using p by (intro takeWhile_append_stop) (auto simp: plain_port_def)
  have d: "dropWhile (\<lambda>c. c \<noteq> CHR '':'') (rev ?s) = CHR '':'' # rev host"
    unfolding r using p by (intro dropWhile_append_stop) (auto simp: plain_port_def)
  have "hd ?s \<noteq> CHR ''[''" using h by (cases host) (auto simp: plain_host_def)
  with t d show ?thesis
    using False h p
    by (simp add: join_host_port_def split_host_port_def Let_def plain_host_def plain_port_def
        del: rev_append)
qed

lemma split_host_port_no_colon: "CHR '':'' \<notin> set s \<Longrightarrow> split_host_port s = Inl MissingPort"
  by (simp add: split_host_port_def)

lemma plain_port_show_nat: "plain_port (show_nat n)"
  using show_nat_digits [of n] is_digit_not_special
  unfolding plain_port_def list_all_iff by blast

subsection \<open>net/http headers\<close>

text \<open>
  A header is a map from canonical field names to their values; a nil header has no fields.
  \<open>CanonicalHeaderKey\<close> capitalises the first letter and those after a hyphen, and leaves a name
  that is not a token alone.
\<close>

type_synonym header = "(string, string list) fmap"

definition upper_char :: "char \<Rightarrow> char" where
  "upper_char c =
     (if 97 \<le> (of_char c :: nat) \<and> (of_char c :: nat) \<le> 122 then char_of ((of_char c :: nat) - 32) else c)"

definition token_char :: "char \<Rightarrow> bool" where
  "token_char c \<longleftrightarrow>
     is_digit c \<or> is_upper (upper_char c) \<or> c \<in> set ''!#$%&*+-.^_|~'' \<or> c = CHR 0x27 \<or> c = CHR 0x60"

fun canonical_chars :: "bool \<Rightarrow> string \<Rightarrow> string" where
  "canonical_chars upper [] = []"
| "canonical_chars upper (c # cs) =
     (let c' = (if upper then upper_char c else lower_char c)
      in c' # canonical_chars (c' = CHR ''-'') cs)"

definition canonical_key :: "string \<Rightarrow> string" where
  "canonical_key k = (if list_all token_char k then canonical_chars True k else k)"

definition header_values :: "header \<Rightarrow> string \<Rightarrow> string list" where
  "header_values h k = (case fmlookup h (canonical_key k) of Some vs \<Rightarrow> vs | None \<Rightarrow> [])"

definition header_get :: "header \<Rightarrow> string \<Rightarrow> string" where
  "header_get h k = (case header_values h k of v # _ \<Rightarrow> v | [] \<Rightarrow> [])"

definition header_del :: "header \<Rightarrow> string \<Rightarrow> header" where
  "header_del h k = fmdrop (canonical_key k) h"

definition header_set :: "header \<Rightarrow> string \<Rightarrow> string \<Rightarrow> header" where
  "header_set h k v = fmupd (canonical_key k) [v] h"

lemma header_values_del [simp]:
  "header_values (header_del h k) j = (if canonical_key j = canonical_key k then [] else header_values h j)"
  by (simp add: header_values_def header_del_def)

lemma header_values_set [simp]:
  "header_values (header_set h k v) j = (if canonical_key j = canonical_key k then [v] else header_values h j)"
  by (simp add: header_values_def header_set_def)

end
