(* ===== verification/Glob.thy ===== *)
theory Glob
  imports GoStd
begin

text \<open>
  \<open>path.Match\<close>, the matcher behind \<open>host_glob\<close>: the pattern grammar with its syntax errors, and
  Go's chunk-by-chunk greedy search (each \<open>*\<close> takes the shortest run after which the next chunk
  fits). Bytes stand for runes, so the model is exact on ASCII patterns and hosts.
\<close>

datatype glob_item = Lit char | AnyChar | Class bool "(char \<times> char) list"

text \<open>\<open>getEsc\<close>: one, possibly escaped, character of a class; something must follow it.\<close>

fun get_esc :: "string \<Rightarrow> (char \<times> string) option" where
  "get_esc [] = None"
| "get_esc (c # cs) =
     (if c = CHR ''-'' \<or> c = CHR '']'' then None
      else if c = CHR 0x5C then
        (case cs of d # r # rs \<Rightarrow> Some (d, r # rs) | _ \<Rightarrow> None)
      else (case cs of [] \<Rightarrow> None | _ \<Rightarrow> Some (c, cs)))"

lemma get_esc_length: "get_esc s = Some (c, r) \<Longrightarrow> length r < length s"
  by (cases s) (auto split: if_splits list.splits)

function parse_ranges :: "bool \<Rightarrow> string \<Rightarrow> ((char \<times> char) list \<times> string) option" where
  "parse_ranges seen s =
     (if seen \<and> s \<noteq> [] \<and> hd s = CHR '']'' then Some ([], tl s)
      else
        (case get_esc s of
           None \<Rightarrow> None
         | Some (lo, r) \<Rightarrow>
             if hd r = CHR ''-'' then
               (case get_esc (tl r) of
                  None \<Rightarrow> None
                | Some (hi, r') \<Rightarrow>
                    map_option (\<lambda>(rs, u). ((lo, hi) # rs, u)) (parse_ranges True r'))
             else map_option (\<lambda>(rs, u). ((lo, lo) # rs, u)) (parse_ranges True r)))"
  by pat_completeness auto
termination
proof (relation "measure (\<lambda>(b, s). length s)", goal_cases)
  case (2 seen s a lo r b hi r')
  then show ?case using get_esc_length [of s lo r] get_esc_length [of "tl r" hi r'] by auto
next
  case (3 seen s a lo r)
  then show ?case using get_esc_length [of s lo r] by auto
qed simp

declare parse_ranges.simps [simp del]

lemma parse_ranges_length: "parse_ranges seen s = Some (rs, u) \<Longrightarrow> length u < length s"
proof (induction seen s arbitrary: rs u rule: parse_ranges.induct)
  case (1 seen s)
  show ?case
  proof (cases "seen \<and> s \<noteq> [] \<and> hd s = CHR '']''")
    case True
    with "1.prems" have "u = tl s" by (subst (asm) parse_ranges.simps) simp
    with True show ?thesis by (cases s) auto
  next
    case False
    with "1.prems" obtain lo r where g: "get_esc s = Some (lo, r)"
      by (auto simp: parse_ranges.simps [of seen s] split: option.splits)
    note l = get_esc_length [OF g]
    show ?thesis
    proof (cases "hd r = CHR ''-''")
      case True
      with False "1.prems" g obtain hi r' rs' where
        h: "get_esc (tl r) = Some (hi, r')" and p: "parse_ranges True r' = Some (rs', u)"
        by (auto simp: parse_ranges.simps [of seen s] split: option.splits)
      have "length u < length r'" using "1.IH"(1) [OF False g _ True h] p by auto
      then show ?thesis using l get_esc_length [OF h] by simp
    next
      case no: False
      with False "1.prems" g obtain rs' where p: "parse_ranges True r = Some (rs', u)"
        by (auto simp: parse_ranges.simps [of seen s] split: option.splits)
      have "length u < length r" using "1.IH"(2) [OF False g _ no] p by auto
      then show ?thesis using l by simp
    qed
  qed
qed

text \<open>A pattern is a list of chunks, each with a flag telling whether stars precede it.\<close>

definition add_item :: "glob_item \<Rightarrow> (bool \<times> glob_item list) list \<Rightarrow> (bool \<times> glob_item list) list" where
  "add_item x cs =
     (case cs of
        (False, xs) # rest \<Rightarrow> (False, x # xs) # rest
      | _ \<Rightarrow> (False, [x]) # cs)"

definition add_star :: "(bool \<times> glob_item list) list \<Rightarrow> (bool \<times> glob_item list) list" where
  "add_star cs =
     (case cs of
        [] \<Rightarrow> [(True, [])]
      | (_, xs) # rest \<Rightarrow> (True, xs) # rest)"

function parse_glob :: "string \<Rightarrow> (bool \<times> glob_item list) list option" where
  "parse_glob [] = Some []"
| "parse_glob (c # cs) =
     (if c = CHR ''*'' then map_option add_star (parse_glob cs)
      else if c = CHR ''?'' then map_option (add_item AnyChar) (parse_glob cs)
      else if c = CHR ''['' then
        (let neg = (cs \<noteq> [] \<and> hd cs = CHR ''^'')
         in case parse_ranges False (if neg then tl cs else cs) of
              None \<Rightarrow> None
            | Some (rs, u) \<Rightarrow> map_option (add_item (Class neg rs)) (parse_glob u))
      else if c = CHR 0x5C then
        (case cs of [] \<Rightarrow> None | d # ds \<Rightarrow> map_option (add_item (Lit d)) (parse_glob ds))
      else map_option (add_item (Lit c)) (parse_glob cs))"
  by pat_completeness auto
termination
  by (relation "measure length") (auto dest!: parse_ranges_length split: if_splits)

fun match_item :: "glob_item \<Rightarrow> char \<Rightarrow> bool" where
  "match_item (Lit d) c = (c = d)"
| "match_item AnyChar c = (c \<noteq> CHR ''/'')"
| "match_item (Class neg rs) c =
     (list_ex (\<lambda>(lo, hi). lo \<le> c \<and> c \<le> hi) rs \<noteq> neg)"

text \<open>\<open>matchChunk\<close>: what is left of the name after the chunk.\<close>

fun match_chunk :: "glob_item list \<Rightarrow> string \<Rightarrow> string option" where
  "match_chunk [] s = Some s"
| "match_chunk (x # xs) [] = None"
| "match_chunk (x # xs) (c # s) = (if match_item x c then match_chunk xs s else None)"

fun star_search :: "glob_item list \<Rightarrow> bool \<Rightarrow> string \<Rightarrow> string option" where
  "star_search chunk final [] = None"
| "star_search chunk final (c # s) =
     (if c = CHR ''/'' then None
      else
        (case match_chunk chunk s of
           Some t \<Rightarrow> if final \<and> t \<noteq> [] then star_search chunk final s else Some t
         | None \<Rightarrow> star_search chunk final s))"

fun match_chunks :: "(bool \<times> glob_item list) list \<Rightarrow> string \<Rightarrow> bool" where
  "match_chunks [] name = (name = [])"
| "match_chunks ((star, chunk) # rest) name =
     (if star \<and> chunk = [] then CHR ''/'' \<notin> set name
      else
        (case match_chunk chunk name of
           Some t \<Rightarrow>
             if t = [] \<or> rest \<noteq> [] then match_chunks rest t
             else if star then
               (case star_search chunk (rest = []) name of
                  Some u \<Rightarrow> match_chunks rest u | None \<Rightarrow> False)
             else False
         | None \<Rightarrow>
             if star then
               (case star_search chunk (rest = []) name of
                  Some u \<Rightarrow> match_chunks rest u | None \<Rightarrow> False)
             else False))"

text \<open>\<open>path.Match\<close>: None is \<open>ErrBadPattern\<close>, which does not depend on the name.\<close>

definition path_match :: "string \<Rightarrow> string \<Rightarrow> bool option" where
  "path_match pattern name = map_option (\<lambda>cs. match_chunks cs name) (parse_glob pattern)"

lemma path_match_bad_iff: "path_match p s = None \<longleftrightarrow> parse_glob p = None"
  by (simp add: path_match_def)

lemma path_match_bad_any: "path_match p s = None \<Longrightarrow> path_match p t = None"
  by (simp add: path_match_bad_iff)

subsection \<open>Patterns without metacharacters match themselves only\<close>

definition plain_glob :: "string \<Rightarrow> bool" where
  "plain_glob p \<longleftrightarrow> (\<forall>c \<in> set p. c \<noteq> CHR ''*'' \<and> c \<noteq> CHR ''?'' \<and> c \<noteq> CHR ''['' \<and> c \<noteq> CHR 0x5C)"

lemma parse_glob_plain:
  "plain_glob p \<Longrightarrow> parse_glob p = Some (if p = [] then [] else [(False, map Lit p)])"
proof (induction p)
  case (Cons c p)
  then show ?case by (simp add: plain_glob_def add_item_def)
qed (simp add: plain_glob_def)

lemma match_chunk_Lit: "match_chunk (map Lit p) s = (if take (length p) s = p then Some (drop (length p) s) else None)"
proof (induction p arbitrary: s)
  case (Cons c p)
  then show ?case by (cases s) auto
qed simp

theorem path_match_plain: "plain_glob p \<Longrightarrow> path_match p s = Some (s = p)"
proof -
  assume p: "plain_glob p"
  show ?thesis
  proof (cases p)
    case Nil
    then show ?thesis using p by (simp add: path_match_def parse_glob_plain)
  next
    case (Cons c q)
    have "match_chunks [(False, map Lit p)] s \<longleftrightarrow> match_chunk (map Lit p) s = Some []"
      using Cons by (auto split: option.splits)
    also have "\<dots> \<longleftrightarrow> s = p"
      unfolding match_chunk_Lit by auto
    finally have "match_chunks [(False, map Lit p)] s \<longleftrightarrow> s = p" .
    moreover have "p \<noteq> []" using Cons by simp
    ultimately show ?thesis
      by (simp add: path_match_def parse_glob_plain [OF p] del: match_chunks.simps)
  qed
qed

subsection \<open>Lowering a pattern keeps its syntax\<close>

definition case_free :: "char \<Rightarrow> bool" where
  "case_free m \<longleftrightarrow> \<not> is_upper m \<and> ((of_char m :: nat) < 97 \<or> 122 < (of_char m :: nat))"

lemma lower_char_case_free: "case_free m \<Longrightarrow> lower_char c = m \<longleftrightarrow> c = m"
  by (auto simp: case_free_def lower_char_def is_upper_def)

lemma glob_metas_case_free:
  "case_free (CHR ''*'')" "case_free (CHR ''?'')" "case_free (CHR ''['')" "case_free (CHR '']'')"
  "case_free (CHR ''^'')" "case_free (CHR ''-'')" "case_free (CHR 0x5C)"
  by (simp_all add: case_free_def is_upper_def)

lemmas lower_metas [simp] = glob_metas_case_free [THEN lower_char_case_free]

lemma get_esc_lower:
  "get_esc (to_lower s) = map_option (\<lambda>(c, r). (lower_char c, to_lower r)) (get_esc s)"
  by (cases s) (auto simp: to_lower_def split: list.splits)

lemma hd_to_lower: "s \<noteq> [] \<Longrightarrow> hd (to_lower s) = lower_char (hd s)"
  by (cases s) (simp_all add: to_lower_def)

lemma tl_to_lower: "tl (to_lower s) = to_lower (tl s)"
  by (cases s) (simp_all add: to_lower_def)

lemma to_lower_eq_Nil [simp]: "to_lower s = [] \<longleftrightarrow> s = []"
  by (simp add: to_lower_def)

lemma get_esc_rest: "get_esc s = Some (c, r) \<Longrightarrow> r \<noteq> []"
  by (cases s) (auto split: if_splits list.splits)

definition lower_range :: "char \<times> char \<Rightarrow> char \<times> char" where
  "lower_range r = (lower_char (fst r), lower_char (snd r))"

lemma lower_range_Pair [simp]: "lower_range (a, b) = (lower_char a, lower_char b)"
  by (simp add: lower_range_def)

lemma parse_ranges_lower:
  "parse_ranges seen (to_lower s) =
     map_option (\<lambda>(rs, u). (map lower_range rs, to_lower u)) (parse_ranges seen s)"
proof (induction seen s rule: parse_ranges.induct)
  case (1 seen s)
  show ?case
  proof (cases "seen \<and> s \<noteq> [] \<and> hd s = CHR '']''")
    case True
    then show ?thesis
      by (subst (1 2) parse_ranges.simps) (simp add: hd_to_lower tl_to_lower)
  next
    case F: False
    then have F': "\<not> (seen \<and> to_lower s \<noteq> [] \<and> hd (to_lower s) = CHR '']'')"
      by (auto simp: hd_to_lower)
    note e = trans [OF parse_ranges.simps if_not_P [OF F]] trans [OF parse_ranges.simps if_not_P [OF F']]
    show ?thesis
    proof (cases "get_esc s")
      case None
      then show ?thesis
        unfolding e by (simp add: get_esc_lower)
    next
      case (Some p)
      obtain lo r where g: "get_esc s = Some (lo, r)" using Some by (cases p) auto
      note r = get_esc_rest [OF g]
      show ?thesis
      proof (cases "hd r = CHR ''-''")
        case no: False
        note IH = "1.IH"(2) [OF F g refl no]
        show ?thesis
          unfolding e
            by (simp add: g no r get_esc_lower hd_to_lower IH option.map_comp comp_def
              case_prod_unfold)
      next
        case dash: True
        show ?thesis
        proof (cases "get_esc (tl r)")
          case None
          then show ?thesis
            unfolding e
            by (simp add: g dash r get_esc_lower hd_to_lower tl_to_lower)
        next
          case (Some q)
          obtain hi r' where h: "get_esc (tl r) = Some (hi, r')" using Some by (cases q) auto
          note IH = "1.IH"(1) [OF F g refl dash h refl]
          show ?thesis
            unfolding e
            by (simp add: g h dash r get_esc_lower hd_to_lower tl_to_lower IH option.map_comp
                comp_def case_prod_unfold)
        qed
      qed
    qed
  qed
qed

theorem parse_glob_lower: "parse_glob (to_lower p) = None \<longleftrightarrow> parse_glob p = None"
proof (induction p rule: parse_glob.induct)
  case (2 c cs)
  let ?neg = "cs \<noteq> [] \<and> hd cs = CHR ''^''"
  have neg: "(to_lower cs \<noteq> [] \<and> hd (to_lower cs) = CHR ''^'') = ?neg"
    by (auto simp: hd_to_lower)
  have body: "(if ?neg then tl (to_lower cs) else to_lower cs) = to_lower (if ?neg then tl cs else cs)"
    by (simp add: tl_to_lower)
  have lc: "to_lower (c # cs) = lower_char c # to_lower cs" by (simp add: to_lower_def)
  show ?case
  proof (cases "c = CHR ''[''")
    case True
    then show ?thesis
      using "2.IH"(3) [OF _ _ _ refl]
      unfolding lc parse_glob.simps Let_def neg body parse_ranges_lower
      by (auto split: option.splits)
  next
    case False
    then show ?thesis
      using "2.IH"(1,2,4,5) unfolding lc parse_glob.simps
      by (auto simp: to_lower_def split: list.splits)
  qed
qed (simp add: to_lower_def)

end
