(* ===== verification/Float64.thy ===== *)
theory Float64
  imports Prelude "HOL-Library.Log_Nat"
begin

text \<open>
  Go's \<open>float64\<close>, in which the scoreboard keeps its scores: the values (NaN, the two infinities,
  the finite numbers as rationals), round-to-nearest-even with a 53-bit significand, subnormals and
  overflow, and the additions and comparisons the code performs. The two zeroes are one value here:
  no operation of the modelled code can tell them apart.
\<close>

subsection \<open>Rounding a rational to the nearest integer, ties to even\<close>

definition round_even :: "rat \<Rightarrow> int" where
  "round_even x =
     (let f = \<lfloor>x\<rfloor>; d = x - of_int f
      in if d < 1/2 then f else if 1/2 < d then f + 1 else if even f then f else f + 1)"

lemma round_even_of_int [simp]: "round_even (of_int n) = n"
  by (simp add: round_even_def)

lemma round_even_bounds: "\<lfloor>x\<rfloor> \<le> round_even x \<and> round_even x \<le> \<lfloor>x\<rfloor> + 1"
  by (simp add: round_even_def Let_def)

lemma round_even_mono: "x \<le> y \<Longrightarrow> round_even x \<le> round_even y"
proof -
  assume xy: "x \<le> y"
  then have "\<lfloor>x\<rfloor> \<le> \<lfloor>y\<rfloor>" by (rule floor_mono)
  then consider "\<lfloor>x\<rfloor> < \<lfloor>y\<rfloor>" | "\<lfloor>x\<rfloor> = \<lfloor>y\<rfloor>" by linarith
  then show ?thesis
  proof cases
    case 1
    then show ?thesis
      using round_even_bounds [of x] round_even_bounds [of y] by linarith
  next
    case 2
    then show ?thesis
      using xy by (auto simp: round_even_def Let_def)
  qed
qed

lemma round_even_uminus: "round_even (- x) = - round_even x"
proof (cases "x = of_int \<lfloor>x\<rfloor>")
  case True
  then have "round_even (- x) = round_even (of_int (- \<lfloor>x\<rfloor>))" by simp
  also have "\<dots> = - \<lfloor>x\<rfloor>" by (simp only: round_even_of_int)
  also have "\<dots> = - round_even (of_int \<lfloor>x\<rfloor>)" by simp
  finally show ?thesis using True by simp
next
  case False
  then have fl: "\<lfloor>- x\<rfloor> = - \<lfloor>x\<rfloor> - 1"
    by (simp add: floor_minus ceiling_altdef)
  show ?thesis
    unfolding round_even_def Let_def fl by (auto simp: field_simps)
qed

subsection \<open>The binary exponent of a positive rational\<close>

definition ilog2 :: "rat \<Rightarrow> int" where
  "ilog2 x =
     (if 1 \<le> x then int (floorlog 2 (nat \<lfloor>x\<rfloor>)) - 1
      else - int (floorlog 2 (nat (\<lceil>1 / x\<rceil> - 1))))"

lemma ilog2_lower: "0 < x \<Longrightarrow> 2 powi ilog2 x \<le> x"
proof (cases "1 \<le> x")
  case True
  let ?n = "nat \<lfloor>x\<rfloor>"
  have n: "0 < ?n" using True by simp
  have "2 ^ (floorlog 2 ?n - 1) \<le> ?n"
    using floorlog_bounds [of ?n 2] n by simp
  then have "(2::rat) ^ (floorlog 2 ?n - 1) \<le> of_nat ?n"
    by (metis of_nat_le_iff of_nat_numeral of_nat_power)
  also have "of_nat ?n \<le> x"
    using True by (simp add: of_nat_nat)
  moreover have "floorlog 2 ?n \<noteq> 0"
    using n by (simp add: floorlog_def)
  then have "ilog2 x = int (floorlog 2 ?n - 1)"
    using True by (simp add: ilog2_def of_nat_diff)
  ultimately show ?thesis by (metis order_trans power_int_of_nat)
next
  case False
  assume x: "0 < x"
  let ?m = "nat (\<lceil>1 / x\<rceil> - 1)"
  let ?k = "floorlog 2 ?m"
  have one: "1 < 1 / x" using False x by simp
  then have "0 < ?m" by (simp add: less_ceiling_iff)
  then have "?m < 2 ^ ?k" using floorlog_bounds [of ?m 2] by simp
  then have "int ?m < 2 ^ ?k" by (metis of_nat_less_iff of_nat_numeral of_nat_power)
  then have "\<lceil>1 / x\<rceil> \<le> 2 ^ ?k" using \<open>0 < ?m\<close> by linarith
  then have "1 / x \<le> of_int (2 ^ ?k)" by (simp only: ceiling_le_iff)
  then have "1 / x \<le> 2 ^ ?k" by simp
  then have "1 / 2 ^ ?k \<le> x" using x by (simp add: field_simps)
  then show ?thesis using False by (simp add: ilog2_def power_int_minus_divide)
qed

lemma ilog2_upper: "0 < x \<Longrightarrow> x < 2 powi (ilog2 x + 1)"
proof (cases "1 \<le> x")
  case True
  let ?n = "nat \<lfloor>x\<rfloor>"
  have "?n < 2 ^ floorlog 2 ?n"
    using floorlog_bounds [of ?n 2] True by simp
  then have "int ?n < 2 ^ floorlog 2 ?n" by (metis of_nat_less_iff of_nat_numeral of_nat_power)
  then have "\<lfloor>x\<rfloor> + 1 \<le> 2 ^ floorlog 2 ?n" using True by simp
  then have "of_int (\<lfloor>x\<rfloor> + 1) \<le> (2::rat) ^ floorlog 2 ?n"
    by (metis of_int_le_iff of_int_numeral of_int_power)
  moreover have "x < of_int (\<lfloor>x\<rfloor> + 1)" by linarith
  ultimately have "x < 2 ^ floorlog 2 ?n" by linarith
  then show ?thesis using True by (simp add: ilog2_def)
next
  case False
  assume x: "0 < x"
  let ?m = "nat (\<lceil>1 / x\<rceil> - 1)"
  let ?k = "floorlog 2 ?m"
  have one: "1 < 1 / x" using False x by simp
  then have m: "0 < ?m" by (simp add: less_ceiling_iff)
  then have kpos: "0 < ?k" by (simp add: floorlog_def)
  have "2 ^ (?k - 1) \<le> ?m" using floorlog_bounds [of ?m 2] m by simp
  then have "2 ^ (?k - 1) \<le> int ?m" by (metis of_nat_le_iff of_nat_numeral of_nat_power)
  then have "2 ^ (?k - 1) < \<lceil>1 / x\<rceil>" using m by linarith
  then have "of_int (2 ^ (?k - 1)) < 1 / x" by (simp only: less_ceiling_iff)
  then have "(2::rat) ^ (?k - 1) < 1 / x" by simp
  then have "x < 1 / 2 ^ (?k - 1)" using x by (simp add: field_simps)
  also have "(1::rat) / 2 ^ (?k - 1) = 2 powi (- int (?k - 1))"
    by (simp only: power_int_minus_divide power_int_of_nat)
  also have "- int (?k - 1) = ilog2 x + 1"
    using False kpos by (simp add: ilog2_def of_nat_diff)
  finally show ?thesis .
qed

lemma ilog2_unique:
  assumes "2 powi k \<le> x" and "x < 2 powi (k + 1)"
  shows "ilog2 x = k"
proof -
  have "(0::rat) < 2 powi k" by simp
  with assms(1) have x: "0 < x" by linarith
  have "(2::rat) powi k < 2 powi (ilog2 x + 1)" "(2::rat) powi ilog2 x < 2 powi (k + 1)"
    using assms ilog2_lower [OF x] ilog2_upper [OF x] by linarith+
  then have "k < ilog2 x + 1" "ilog2 x < k + 1"
    by (metis not_less one_le_numeral power_int_increasing)+
  then show ?thesis by linarith
qed

lemma ilog2_mono: "0 < x \<Longrightarrow> x \<le> y \<Longrightarrow> ilog2 x \<le> ilog2 y"
proof -
  assume x: "0 < x" and xy: "x \<le> y"
  then have "(2::rat) powi ilog2 x < 2 powi (ilog2 y + 1)"
    using ilog2_lower [OF x] ilog2_upper [of y] by linarith
  then have "ilog2 x < ilog2 y + 1"
    by (metis not_less one_le_numeral power_int_increasing)
  then show ?thesis by simp
qed

subsection \<open>Rounding to 53 bits\<close>

text \<open>The weight of the last significand bit: \<open>2^-1074\<close> is the least subnormal.\<close>

definition ulp_exp :: "rat \<Rightarrow> int" where
  "ulp_exp x = max (ilog2 \<bar>x\<bar> - 52) (-1074)"

definition rnd :: "rat \<Rightarrow> rat" where
  "rnd x =
     (if x = 0 then 0
      else of_int (round_even (x / 2 powi ulp_exp x)) * 2 powi ulp_exp x)"

definition f64_max :: rat where
  "f64_max = (2 ^ 53 - 1) * 2 ^ 971"

lemma rnd_0 [simp]: "rnd 0 = 0"
  by (simp add: rnd_def)

lemma rnd_uminus: "rnd (- x) = - rnd x"
  by (simp add: rnd_def ulp_exp_def round_even_uminus)

lemma on_grid:
  assumes "e \<le> k"
  shows "\<exists>n. of_int m * (2::rat) powi k / 2 powi e = of_int n"
proof -
  have "(2::rat) powi k / 2 powi e = 2 powi (k - e)"
    by (simp add: power_int_diff)
  also have "\<dots> = of_int (2 ^ nat (k - e))"
    using assms by (metis diff_ge_0_iff_ge int_nat_eq of_int_numeral of_int_power power_int_of_nat)
  finally show ?thesis
    by (metis of_int_mult times_divide_eq_right)
qed

text \<open>A grid point of \<open>x\<close> bounds \<open>rnd x\<close> when it bounds \<open>x\<close>.\<close>

lemma rnd_le_grid:
  assumes "ulp_exp x \<le> k" and "x \<noteq> 0" and "x \<le> of_int m * 2 powi k"
  shows "rnd x \<le> of_int m * 2 powi k"
proof -
  let ?u = "(2::rat) powi ulp_exp x"
  obtain n where n: "of_int m * 2 powi k / ?u = of_int n" using on_grid [OF assms(1)] by blast
  have "x / ?u \<le> of_int n" unfolding n [symmetric] by (rule divide_right_mono) (use assms(3) in auto)
  then have "round_even (x / ?u) \<le> n" using round_even_mono by fastforce
  then have "of_int (round_even (x / ?u)) * ?u \<le> of_int n * ?u" by simp
  also have "of_int n * ?u = of_int m * 2 powi k" unfolding n [symmetric] by simp
  finally show ?thesis using assms(2) by (simp add: rnd_def)
qed

lemma rnd_ge_grid:
  assumes "ulp_exp x \<le> k" and "x \<noteq> 0" and "of_int m * 2 powi k \<le> x"
  shows "of_int m * 2 powi k \<le> rnd x"
  using rnd_le_grid [of "- x" k "- m"] assms by (simp add: rnd_uminus ulp_exp_def)

lemma rnd_nonneg: "0 \<le> x \<Longrightarrow> 0 \<le> rnd x"
  using rnd_ge_grid [of x "ulp_exp x" 0] by (cases "x = 0") auto

lemma rnd_mono_pos:
  assumes x: "0 < x" and xy: "x \<le> y"
  shows "rnd x \<le> rnd y"
proof (cases "ulp_exp x = ulp_exp y")
  case True
  have "round_even (x / 2 powi ulp_exp y) \<le> round_even (y / 2 powi ulp_exp y)"
    by (rule round_even_mono) (use xy in \<open>simp add: divide_right_mono\<close>)
  then show ?thesis using x xy True by (simp add: rnd_def)
next
  case False
  have y: "0 < y" using x xy by simp
  have "ilog2 x < ilog2 y"
    using ilog2_mono [OF x xy] False x y by (cases "ilog2 x = ilog2 y") (auto simp: ulp_exp_def)
  moreover have "ulp_exp y \<le> ilog2 y" "ulp_exp x \<le> ilog2 y"
    using False x y calculation by (auto simp: ulp_exp_def max_def split: if_splits)
  moreover have "x \<le> 2 powi ilog2 y"
    using ilog2_upper [OF x] power_int_increasing [of "ilog2 x + 1" "ilog2 y" "2::rat"] calculation(1)
    by linarith
  moreover have "2 powi ilog2 y \<le> y" by (rule ilog2_lower [OF y])
  ultimately show ?thesis
    using rnd_le_grid [of x "ilog2 y" 1] rnd_ge_grid [of y "ilog2 y" 1] x y by simp
qed

theorem rnd_mono: "x \<le> y \<Longrightarrow> rnd x \<le> rnd y"
proof -
  assume xy: "x \<le> y"
  consider "0 < x" | "y < 0" | "x \<le> 0" "0 \<le> y" by linarith
  then show ?thesis
  proof cases
    case 1
    then show ?thesis using xy by (rule rnd_mono_pos)
  next
    case 2
    then show ?thesis using rnd_mono_pos [of "- y" "- x"] xy by (simp add: rnd_uminus)
  next
    case 3
    then show ?thesis
      using rnd_nonneg [of y] rnd_nonneg [of "- x"] by (simp add: rnd_uminus)
  qed
qed

subsection \<open>Representable numbers\<close>

definition representable :: "rat \<Rightarrow> bool" where
  "representable x \<longleftrightarrow> rnd x = x \<and> \<bar>x\<bar> \<le> f64_max"

lemma rnd_exact_grid:
  assumes "ulp_exp (of_int m * 2 powi k) \<le> k"
  shows "rnd (of_int m * 2 powi k) = of_int m * 2 powi k"
proof (cases "m = 0")
  case False
  then show ?thesis
    using rnd_le_grid [OF assms] rnd_ge_grid [OF assms] by (simp add: antisym)
qed simp

lemma ilog2_scaled_less:
  assumes "m \<noteq> 0" and "\<bar>m\<bar> < 2 ^ p"
  shows "ilog2 \<bar>of_int m * 2 powi k\<bar> < int p + k"
proof -
  let ?x = "\<bar>of_int m * (2::rat) powi k\<bar>"
  have x: "0 < ?x" using assms(1) by simp
  have "of_int \<bar>m\<bar> < (2::rat) ^ p"
    using assms(2) by (metis of_int_less_iff of_int_numeral of_int_power)
  then have "?x < 2 ^ p * 2 powi k" by (simp add: abs_mult)
  also have "\<dots> = 2 powi (int p + k)" by (simp add: power_int_add)
  finally have "2 powi ilog2 ?x < (2::rat) powi (int p + k)"
    using ilog2_lower [OF x] by linarith
  then show ?thesis by (metis not_less one_le_numeral power_int_increasing)
qed

theorem rnd_dyadic:
  assumes "\<bar>m\<bar> \<le> 2 ^ 53" and "-1074 \<le> k"
  shows "rnd (of_int m * 2 powi k) = of_int m * 2 powi k"
proof -
  have below: "rnd (of_int n * 2 powi j) = of_int n * 2 powi j"
    if n: "\<bar>n\<bar> < 2 ^ 53" and j: "-1074 \<le> j" for n j
  proof (cases "n = 0")
    case False
    show ?thesis
      using ilog2_scaled_less [OF False n, of j] j by (intro rnd_exact_grid) (simp add: ulp_exp_def)
  qed simp
  consider "\<bar>m\<bar> < 2 ^ 53" | "m = 2 ^ 53" | "m = - (2 ^ 53)" using assms(1) by linarith
  then show ?thesis
  proof cases
    case 1
    then show ?thesis using below assms(2) by blast
  next
    case 2
    then have "of_int m * (2::rat) powi k = of_int (2 ^ 52) * 2 powi (k + 1)"
      by (simp add: power_int_add_1)
    moreover have "rnd (of_int (2 ^ 52) * 2 powi (k + 1)) = of_int (2 ^ 52) * 2 powi (k + 1)"
      by (rule below) (use assms(2) in auto)
    ultimately show ?thesis by (simp only:)
  next
    case 3
    then have "of_int m * (2::rat) powi k = of_int (- (2 ^ 52)) * 2 powi (k + 1)"
      by (simp add: power_int_add_1)
    moreover have "rnd (of_int (- (2 ^ 52)) * 2 powi (k + 1)) = of_int (- (2 ^ 52)) * 2 powi (k + 1)"
      by (rule below) (use assms(2) in auto)
    ultimately show ?thesis by (simp only:)
  qed
qed

lemma rnd_idem [simp]: "rnd (rnd x) = rnd x"
proof (cases "x = 0")
  case False
  let ?e = "ulp_exp x" and ?m = "round_even (x / 2 powi ulp_exp x)"
  have ax: "0 < \<bar>x\<bar>" using False by simp
  have "ilog2 \<bar>x\<bar> + 1 \<le> 53 + ?e" by (simp add: ulp_exp_def)
  then have "\<bar>x\<bar> \<le> 2 powi (53 + ?e)"
    using ilog2_upper [OF ax] power_int_increasing [of "ilog2 \<bar>x\<bar> + 1" "53 + ?e" "2::rat"]
    by linarith
  then have "\<bar>x\<bar> / 2 powi ?e \<le> 2 ^ 53"
    by (simp add: power_int_add field_simps)
  then have b: "x / 2 powi ?e \<le> of_int (2 ^ 53)" "of_int (- (2 ^ 53)) \<le> x / 2 powi ?e"
    by (auto simp: abs_le_iff field_simps abs_if split: if_splits)
  have "?m \<le> 2 ^ 53" "- (2 ^ 53) \<le> ?m"
    using round_even_mono [OF b(1)] round_even_mono [OF b(2)] by (simp_all only: round_even_of_int)
  then have "rnd (of_int ?m * 2 powi ?e) = of_int ?m * 2 powi ?e"
    by (intro rnd_dyadic) (simp_all add: ulp_exp_def)
  then show ?thesis using False by (simp add: rnd_def)
qed simp

lemma representable_rnd: "\<bar>rnd x\<bar> \<le> f64_max \<Longrightarrow> representable (rnd x)"
  by (simp add: representable_def)

lemma representable_uminus [simp]: "representable (- x) \<longleftrightarrow> representable x"
  by (simp add: representable_def rnd_uminus)

lemma representable_0 [simp]: "representable 0"
  by (simp add: representable_def f64_max_def)

lemma rnd_of_int: "\<bar>n\<bar> \<le> 2 ^ 53 \<Longrightarrow> rnd (of_int n) = of_int n"
  using rnd_dyadic [of n 0] by simp

lemma rnd_half: "\<bar>n\<bar> \<le> 2 ^ 53 \<Longrightarrow> rnd (of_int n / 2) = of_int n / 2"
  using rnd_dyadic [of n "-1"] by (simp add: power_int_minus_divide)

lemma rnd_numeral [go_simps]:
  "(numeral n :: int) \<le> 2 ^ 53 \<Longrightarrow> rnd (numeral n) = numeral n"
  "(numeral n :: int) \<le> 2 ^ 53 \<Longrightarrow> rnd (- numeral n) = - numeral n"
  "(numeral n :: int) \<le> 2 ^ 53 \<Longrightarrow> rnd (numeral n / 2) = numeral n / 2"
  "(numeral n :: int) \<le> 2 ^ 53 \<Longrightarrow> rnd (- (numeral n / 2)) = - (numeral n / 2)"
  "rnd 1 = 1" "rnd (- 1) = - 1" "rnd (1 / 2) = 1 / 2" "rnd (- (1 / 2)) = - (1 / 2)"
  using rnd_of_int [of "numeral n"] rnd_half [of "numeral n"] rnd_of_int [of 1] rnd_half [of 1]
  by (simp_all add: rnd_uminus)

subsection \<open>The values and operations of \<open>float64\<close>\<close>

datatype f64 = NaN | Infinity bool \<comment> \<open>True is minus infinity\<close> | Fin rat

definition f64_of_rat :: "rat \<Rightarrow> f64" where
  "f64_of_rat x =
     (let r = rnd x
      in if f64_max < r then Infinity False else if r < - f64_max then Infinity True else Fin r)"

fun f_neg :: "f64 \<Rightarrow> f64" where
  "f_neg NaN = NaN"
| "f_neg (Infinity s) = Infinity (\<not> s)"
| "f_neg (Fin x) = Fin (- x)"

fun f_add :: "f64 \<Rightarrow> f64 \<Rightarrow> f64" where
  "f_add (Fin x) (Fin y) = f64_of_rat (x + y)"
| "f_add (Infinity s) (Infinity t) = (if s = t then Infinity s else NaN)"
| "f_add (Infinity s) (Fin _) = Infinity s"
| "f_add (Fin _) (Infinity t) = Infinity t"
| "f_add _ _ = NaN"

definition f_sub :: "f64 \<Rightarrow> f64 \<Rightarrow> f64" where
  "f_sub a b = f_add a (f_neg b)"

fun f_lt :: "f64 \<Rightarrow> f64 \<Rightarrow> bool" where
  "f_lt (Fin x) (Fin y) = (x < y)"
| "f_lt (Infinity s) (Infinity t) = (s \<and> \<not> t)"
| "f_lt (Infinity s) (Fin _) = s"
| "f_lt (Fin _) (Infinity t) = (\<not> t)"
| "f_lt _ _ = False"

text \<open>Go's \<open>==\<close>: a NaN differs from everything, itself included.\<close>

fun f_eq :: "f64 \<Rightarrow> f64 \<Rightarrow> bool" where
  "f_eq NaN _ = False"
| "f_eq a b = (a = b)"

definition f_le :: "f64 \<Rightarrow> f64 \<Rightarrow> bool" where
  "f_le a b = (f_lt a b \<or> f_eq a b)"

abbreviation f_zero :: f64 where "f_zero \<equiv> Fin 0"

fun f_ok :: "f64 \<Rightarrow> bool" where
  "f_ok (Fin x) = representable x"
| "f_ok _ = True"

fun is_fin :: "f64 \<Rightarrow> bool" where
  "is_fin (Fin _) = True"
| "is_fin _ = False"

fun f_val :: "f64 \<Rightarrow> rat" where
  "f_val (Fin x) = x"
| "f_val _ = 0"

lemma is_fin_val: "is_fin a \<Longrightarrow> a = Fin (f_val a)"
  by (cases a) auto

lemma f_le_Fin [simp]: "f_le (Fin x) (Fin y) \<longleftrightarrow> x \<le> y"
  by (auto simp: f_le_def)

lemma f_le_Fin_cases:
  "f_le (Fin x) b \<longleftrightarrow> (case b of Fin y \<Rightarrow> x \<le> y | Infinity s \<Rightarrow> \<not> s | NaN \<Rightarrow> False)"
  "f_le b (Fin x) \<longleftrightarrow> (case b of Fin y \<Rightarrow> y \<le> x | Infinity s \<Rightarrow> s | NaN \<Rightarrow> False)"
  by (cases b; auto simp: f_le_def)+

lemma f_ok_of_rat [simp]: "f_ok (f64_of_rat x)"
  by (auto simp: f64_of_rat_def Let_def not_less intro!: representable_rnd)

lemma f_ok_neg [simp]: "f_ok (f_neg a) \<longleftrightarrow> f_ok a"
  by (cases a) auto

lemma f_ok_add [simp]: "f_ok (f_add a b)"
  by (cases "(a, b)" rule: f_add.cases) auto

lemma f_ok_sub [simp]: "f_ok (f_sub a b)"
  by (simp add: f_sub_def)

lemma f64_of_rat_ge:
  assumes "representable a" and "a \<le> x"
  shows "f_le (Fin a) (f64_of_rat x)"
  using assms rnd_mono [OF assms(2)]
  by (auto simp: f64_of_rat_def Let_def representable_def f_le_def)

lemma f64_of_rat_le:
  assumes "representable a" and "x \<le> a"
  shows "f_le (f64_of_rat x) (Fin a)"
  using assms rnd_mono [OF assms(2)]
  by (auto simp: f64_of_rat_def Let_def representable_def f_le_def)

text \<open>Adding a non-negative number never moves below a representable bound, and dually.\<close>

lemma f_add_ge:
  "representable a \<Longrightarrow> a \<le> x \<Longrightarrow> 0 \<le> w \<Longrightarrow> f_le (Fin a) (f_add (Fin x) (Fin w))"
  by (simp add: f64_of_rat_ge)

lemma f_sub_le:
  "representable a \<Longrightarrow> x \<le> a \<Longrightarrow> 0 \<le> w \<Longrightarrow> f_le (f_sub (Fin x) (Fin w)) (Fin a)"
  by (simp add: f_sub_def f64_of_rat_le)

text \<open>The same for any non-negative second operand, infinity included.\<close>

lemma f_add_nonneg_ge:
  assumes "representable a" and "a \<le> x" and "f_le f_zero w"
  shows "f_le (Fin a) (f_add (Fin x) w)"
proof (cases w)
  case (Fin r)
  then show ?thesis using assms f_add_ge [of a x r] by simp
qed (use assms in \<open>auto simp: f_le_def\<close>)

lemma f_sub_nonneg_le:
  assumes "representable a" and "x \<le> a" and "f_le f_zero w"
  shows "f_le (f_sub (Fin x) w) (Fin a)"
proof (cases w)
  case (Fin r)
  then show ?thesis using assms f_sub_le [of a x r] by simp
qed (use assms in \<open>auto simp: f_le_def f_sub_def\<close>)

lemma f_lt_imp_le: "f_lt a b \<Longrightarrow> f_le a b"
  by (simp add: f_le_def)

text \<open>Evaluation on the integers and halves the default tuning uses.\<close>

lemma f64_of_rat_exact [go_simps]:
  "rnd x = x \<Longrightarrow> \<bar>x\<bar> \<le> 2 ^ 53 \<Longrightarrow> f64_of_rat x = Fin x"
  by (auto simp: f64_of_rat_def f64_max_def Let_def abs_le_iff)

lemma representable_exact: "rnd x = x \<Longrightarrow> \<bar>x\<bar> \<le> 2 ^ 53 \<Longrightarrow> representable x"
  by (simp add: representable_def f64_max_def)

lemmas f64_eval = f_sub_def f64_of_rat_exact rnd_numeral representable_exact f_le_def

end
