(* ===== verification/Config.thy ===== *)
theory Config
  imports Glob Float64
begin

text \<open>
  \<open>internal/config/config.go\<close>: the configuration records, the defaults that \<open>applyDefaults\<close> fills in for
  keys the TOML document does not define, and \<open>Validate\<close>. The TOML decoder is outside: the records
  are what it returns and \<open>md\<close> is its \<open>MetaData.IsDefined\<close>. A joined error is the list of its parts,
  so a configuration is accepted when the list is empty. Regular expressions and the provider hook
  are parameters.
\<close>

subsection \<open>The data\<close>

text \<open>A Go \<open>string\<close>-typed enumeration is a string with named values.\<close>

definition KindDirect :: string where "KindDirect = ''direct''"
definition KindHTTP :: string where "KindHTTP = ''http''"
definition KindSOCKS5 :: string where "KindSOCKS5 = ''socks5''"

record listener_config =
  lc_http :: string
  lc_socks :: string

record cache_config =
  cc_ttl :: duration
  cc_negative_ttl :: duration
  cc_persist_path :: string
  cc_persist_interval :: duration

record control_config =
  ct_bind :: string
  ct_auth_tokens :: "string list"
  ct_auth_tokens_file :: string
  ct_gate_healthz :: bool
  ct_tls_cert_file :: string
  ct_tls_key_file :: string

record upstream_config =
  uc_id :: string
  uc_kind :: string
  uc_addr :: string
  uc_priority :: "int option"
  uc_username :: string
  uc_password :: string

record upstream_pool_config =
  pc_provider :: string
  pc_id_prefix :: string
  pc_priority :: "int option"
  pc_countries :: "string list"
  pc_country_codes :: "string list"
  pc_include_inactive :: bool
  pc_refresh :: "duration option"
  pc_cache_path :: string
  pc_api_token :: string
  pc_api_token_file :: string
  pc_plan_id :: string
  pc_mode :: string
  pc_kind :: string
  pc_proxy_username :: string
  pc_proxy_password :: string
  pc_proxy_username_env :: string
  pc_proxy_password_env :: string

record status_rule =
  sr_code :: int
  sr_penalty :: int
  sr_cooldown :: duration
  sr_honor_retry_after :: bool

record scoring_config =
  sg_refused_penalty :: f64
  sg_refused_cooldown :: duration
  sg_timeout_penalty :: f64
  sg_timeout_cooldown :: duration
  sg_success_weight :: f64
  sg_score_cap :: f64
  sg_probe_chance :: f64
  sg_decay_interval :: duration
  sg_decay_step :: f64
  sg_cascade_ttl :: duration
  sg_debounce_window :: duration
  sg_body_match_penalty :: f64
  sg_body_match_cooldown :: duration
  sg_prune_after :: duration

record failure_config =
  fc_connection_refused :: bool
  fc_timeout_ms :: int
  fc_body_regex :: "string list"
  fc_body_buffer_kb :: int
  fc_max_retries_per_request :: int
  fc_status :: "status_rule list"
  fc_scoring :: scoring_config

record rule_config =
  rc_host_glob :: string
  rc_prefer :: "string list"
  rc_force :: bool
  rc_body_regex :: "string list"

record config =
  cf_listener :: listener_config
  cf_cache :: cache_config
  cf_metrics_bind :: string
  cf_ui_bind :: string
  cf_control :: control_config
  cf_upstreams :: "upstream_config list"
  cf_upstream_pools :: "upstream_pool_config list"
  cf_failure :: failure_config
  cf_rules :: "rule_config list"
  cf_unknown_keys :: "string list"

definition PriorityValue :: "upstream_config \<Rightarrow> int" where
  "PriorityValue u = (case uc_priority u of None \<Rightarrow> 100 | Some p \<Rightarrow> p)"

definition pool_PriorityValue :: "upstream_pool_config \<Rightarrow> int" where
  "pool_PriorityValue p = (case pc_priority p of None \<Rightarrow> 200 | Some v \<Rightarrow> v)"

definition RefreshDuration :: "upstream_pool_config \<Rightarrow> duration" where
  "RefreshDuration p = (case pc_refresh p of None \<Rightarrow> 12 * hour | Some d \<Rightarrow> d)"

subsection \<open>Defaults\<close>

text \<open>Float literals of the source are rounded to the nearest double.\<close>

definition ScoringDefaults :: scoring_config where
  "ScoringDefaults =
     \<lparr>sg_refused_penalty = Fin 3, sg_refused_cooldown = 30 * second,
      sg_timeout_penalty = Fin 2, sg_timeout_cooldown = 15 * second,
      sg_success_weight = Fin 1, sg_score_cap = Fin 10,
      sg_probe_chance = f64_of_rat (5 / 100),
      sg_decay_interval = 5 * minute, sg_decay_step = Fin (1 / 2),
      sg_cascade_ttl = 30 * second, sg_debounce_window = 100 * ms,
      sg_body_match_penalty = Fin 5, sg_body_match_cooldown = 60 * second,
      sg_prune_after = 24 * hour\<rparr>"

definition DefaultStatusRules :: "status_rule list" where
  "DefaultStatusRules =
     [\<lparr>sr_code = 429, sr_penalty = 4, sr_cooldown = 120 * second, sr_honor_retry_after = True\<rparr>,
      \<lparr>sr_code = 403, sr_penalty = 6, sr_cooldown = 30 * minute, sr_honor_retry_after = False\<rparr>,
      \<lparr>sr_code = 451, sr_penalty = 8, sr_cooldown = 6 * hour, sr_honor_retry_after = False\<rparr>]"

definition applyScoringDefaults :: "(string list \<Rightarrow> bool) \<Rightarrow> scoring_config \<Rightarrow> scoring_config" where
  "applyScoringDefaults md s =
     (let d = ScoringDefaults; def = (\<lambda>k. md [''failure'', ''scoring'', k]) in
      \<lparr>sg_refused_penalty = (if def ''refused_penalty'' then sg_refused_penalty s else sg_refused_penalty d),
       sg_refused_cooldown = (if def ''refused_cooldown'' then sg_refused_cooldown s else sg_refused_cooldown d),
       sg_timeout_penalty = (if def ''timeout_penalty'' then sg_timeout_penalty s else sg_timeout_penalty d),
       sg_timeout_cooldown = (if def ''timeout_cooldown'' then sg_timeout_cooldown s else sg_timeout_cooldown d),
       sg_success_weight = (if def ''success_weight'' then sg_success_weight s else sg_success_weight d),
       sg_score_cap = (if def ''score_cap'' then sg_score_cap s else sg_score_cap d),
       sg_probe_chance = (if def ''probe_chance'' then sg_probe_chance s else sg_probe_chance d),
       sg_decay_interval = (if def ''decay_interval'' then sg_decay_interval s else sg_decay_interval d),
       sg_decay_step = (if def ''decay_step'' then sg_decay_step s else sg_decay_step d),
       sg_cascade_ttl = (if def ''cascade_ttl'' then sg_cascade_ttl s else sg_cascade_ttl d),
       sg_debounce_window = (if def ''debounce_window'' then sg_debounce_window s else sg_debounce_window d),
       sg_body_match_penalty = (if def ''body_match_penalty'' then sg_body_match_penalty s else sg_body_match_penalty d),
       sg_body_match_cooldown = (if def ''body_match_cooldown'' then sg_body_match_cooldown s else sg_body_match_cooldown d),
       sg_prune_after = (if def ''prune_after'' then sg_prune_after s else sg_prune_after d)\<rparr>)"

text \<open>The array-of-tables entries use a nil pointer, not \<open>IsDefined\<close>, for an omitted field.\<close>

definition default_upstream :: "upstream_config \<Rightarrow> upstream_config" where
  "default_upstream u = (case uc_priority u of None \<Rightarrow> u\<lparr>uc_priority := Some 100\<rparr> | Some _ \<Rightarrow> u)"

definition default_pool :: "upstream_pool_config \<Rightarrow> upstream_pool_config" where
  "default_pool p =
     (let p1 = (case pc_priority p of None \<Rightarrow> p\<lparr>pc_priority := Some 200\<rparr> | Some _ \<Rightarrow> p)
      in case pc_refresh p1 of None \<Rightarrow> p1\<lparr>pc_refresh := Some (12 * hour)\<rparr> | Some _ \<Rightarrow> p1)"

definition default_failure :: "(string list \<Rightarrow> bool) \<Rightarrow> failure_config \<Rightarrow> failure_config" where
  "default_failure md f =
     (let def = (\<lambda>k. md [''failure'', k]) in
      \<lparr>fc_connection_refused = (if def ''connection_refused'' then fc_connection_refused f else True),
       fc_timeout_ms = (if def ''timeout_ms'' then fc_timeout_ms f else 8000),
       fc_body_regex = (if def ''body_regex'' then fc_body_regex f else []),
       fc_body_buffer_kb = (if def ''body_buffer_kb'' then fc_body_buffer_kb f else 32),
       fc_max_retries_per_request =
         (if def ''max_retries_per_request'' then fc_max_retries_per_request f else 5),
       fc_status = (if def ''status'' then fc_status f else DefaultStatusRules),
       fc_scoring = applyScoringDefaults md (fc_scoring f)\<rparr>)"

definition applyDefaults :: "(string list \<Rightarrow> bool) \<Rightarrow> config \<Rightarrow> config" where
  "applyDefaults md c =
     (let pick = (\<lambda>k v d. if md k then v else d) in
      c\<lparr>cf_listener :=
          \<lparr>lc_http = (if md [''listener'', ''http''] then lc_http (cf_listener c) else '':8080''),
           lc_socks = (if md [''listener'', ''socks''] then lc_socks (cf_listener c) else '':1080'')\<rparr>,
        cf_cache := (cf_cache c)
          \<lparr>cc_ttl := (if md [''cache'', ''ttl''] then cc_ttl (cf_cache c) else 15 * minute),
           cc_negative_ttl :=
             (if md [''cache'', ''negative_ttl''] then cc_negative_ttl (cf_cache c) else minute),
           cc_persist_interval :=
             (if md [''cache'', ''persist_interval''] then cc_persist_interval (cf_cache c) else 30 * second)\<rparr>,
        cf_metrics_bind := pick [''metrics'', ''bind''] (cf_metrics_bind c) '':9090'',
        cf_ui_bind := pick [''ui'', ''bind''] (cf_ui_bind c) '':9091'',
        cf_control := (cf_control c)
          \<lparr>ct_bind := pick [''control'', ''bind''] (ct_bind (cf_control c)) '':9092''\<rparr>,
        cf_failure := default_failure md (cf_failure c),
        cf_upstreams := map default_upstream (cf_upstreams c),
        cf_upstream_pools := map default_pool (cf_upstream_pools c)\<rparr>)"

subsection \<open>Validation\<close>

datatype problem =
    Required
  | Duplicate nat
  | BadHostPort addr_error
  | MissingHost
  | PortNotNumeric
  | PortOutOfRange int
  | NotAbsolute
  | MustBeNonNegative
  | MustBePositive
  | MustBeInUnit
  | TooLarge
  | TooSmall
  | EmptyToken
  | TokenHasWhitespace
  | CertWithoutKey
  | KeyWithoutCert
  | DirectWithAddr
  | KindUnknown
  | CodeOutOfRange
  | BadCharset
  | ProviderRejects string
  | BadGlob
  | UnknownUpstream string
  | EmptyPattern nat
  | BadPattern nat

text \<open>An error: the section and key it names, the index of an array entry, and what is wrong.\<close>

datatype config_error = ConfigError string "nat option" problem

definition err_if :: "bool \<Rightarrow> config_error \<Rightarrow> config_error list" where
  "err_if b e = (if b then [e] else [])"

lemma err_if_Nil [simp]: "err_if b e = [] \<longleftrightarrow> \<not> b"
  by (simp add: err_if_def)

text \<open>\<open>filepath.IsAbs\<close> on Unix.\<close>

definition is_abs :: "string \<Rightarrow> bool" where
  "is_abs p = has_prefix p ''/''"

definition validatePort :: "string \<Rightarrow> problem option" where
  "validatePort port =
     (case parse_int port of
        None \<Rightarrow> Some PortNotNumeric
      | Some p \<Rightarrow> if p < 1 \<or> 65535 < p then Some (PortOutOfRange p) else None)"

definition validateAddr :: "string \<Rightarrow> problem option" where
  "validateAddr addr =
     (case split_host_port addr of
        Inl e \<Rightarrow> Some (BadHostPort e)
      | Inr (_, port) \<Rightarrow> validatePort port)"

definition validateUpstreamAddr :: "string \<Rightarrow> problem option" where
  "validateUpstreamAddr addr =
     (case split_host_port addr of
        Inl e \<Rightarrow> Some (BadHostPort e)
      | Inr (host, port) \<Rightarrow>
          if trim_space host = [] then Some MissingHost else validatePort port)"

definition located :: "string \<Rightarrow> nat option \<Rightarrow> problem option \<Rightarrow> config_error list" where
  "located key i p = (case p of None \<Rightarrow> [] | Some q \<Rightarrow> [ConfigError key i q])"

lemma located_Nil [simp]: "located key i p = [] \<longleftrightarrow> p = None"
  by (simp add: located_def split: option.splits)

definition validate_listeners :: "config \<Rightarrow> config_error list" where
  "validate_listeners c =
     located ''listener.http'' None (validateAddr (lc_http (cf_listener c))) @
     located ''listener.socks'' None (validateAddr (lc_socks (cf_listener c))) @
     (let cache = cf_cache c in
        err_if (cc_persist_path cache \<noteq> [] \<and> \<not> is_abs (cc_persist_path cache))
          (ConfigError ''cache.persist_path'' None NotAbsolute) @
        err_if (cc_persist_interval cache < 0)
          (ConfigError ''cache.persist_interval'' None MustBeNonNegative)) @
     (let bind = (\<lambda>key addr. if addr \<noteq> [] then located key None (validateAddr addr) else []) in
        bind ''metrics.bind'' (cf_metrics_bind c) @
        bind ''ui.bind'' (cf_ui_bind c) @
        bind ''control.bind'' (ct_bind (cf_control c)))"

fun validate_tokens :: "nat \<Rightarrow> string list \<Rightarrow> config_error list" where
  "validate_tokens i [] = []"
| "validate_tokens i (t # ts) =
     (if trim_space t = [] then [ConfigError ''control.auth_tokens'' (Some i) EmptyToken]
      else err_if (list_ex is_space t) (ConfigError ''control.auth_tokens'' (Some i) TokenHasWhitespace))
     @ validate_tokens (Suc i) ts"

definition validate_control :: "control_config \<Rightarrow> config_error list" where
  "validate_control ct =
     (let hasCert = ct_tls_cert_file ct \<noteq> []; hasKey = ct_tls_key_file ct \<noteq> [] in
      validate_tokens 0 (ct_auth_tokens ct) @
      err_if (ct_auth_tokens_file ct \<noteq> [] \<and> \<not> is_abs (ct_auth_tokens_file ct))
        (ConfigError ''control.auth_tokens_file'' None NotAbsolute) @
      (if hasCert \<and> \<not> hasKey then [ConfigError ''control.tls_cert_file'' None CertWithoutKey]
       else if \<not> hasCert \<and> hasKey then [ConfigError ''control.tls_key_file'' None KeyWithoutCert]
       else []) @
      err_if (hasCert \<and> \<not> is_abs (ct_tls_cert_file ct))
        (ConfigError ''control.tls_cert_file'' None NotAbsolute) @
      err_if (hasKey \<and> \<not> is_abs (ct_tls_key_file ct))
        (ConfigError ''control.tls_key_file'' None NotAbsolute))"

definition validate_upstream_kind :: "nat \<Rightarrow> upstream_config \<Rightarrow> config_error list" where
  "validate_upstream_kind i u =
     (if uc_kind u = KindDirect then
        err_if (uc_addr u \<noteq> []) (ConfigError ''upstream.addr'' (Some i) DirectWithAddr)
      else if uc_kind u = KindHTTP \<or> uc_kind u = KindSOCKS5 then
        (if uc_addr u = [] then [ConfigError ''upstream.addr'' (Some i) Required]
         else located ''upstream.addr'' (Some i) (validateUpstreamAddr (uc_addr u)))
      else if uc_kind u = [] then [ConfigError ''upstream.kind'' (Some i) Required]
      else [ConfigError ''upstream.kind'' (Some i) KindUnknown])"

text \<open>The loop over \<open>[[upstream]]\<close> with its \<open>seenIDs\<close> map, which the rules need afterwards.\<close>

fun validate_upstreams ::
    "nat \<Rightarrow> (string, nat) fmap \<Rightarrow> upstream_config list \<Rightarrow> config_error list \<times> (string, nat) fmap" where
  "validate_upstreams i seen [] = ([], seen)"
| "validate_upstreams i seen (u # us) =
     (let (here, seen') =
        (if uc_id u = [] then ([ConfigError ''upstream.id'' (Some i) Required], seen)
         else (case fmlookup seen (uc_id u) of
                 Some prev \<Rightarrow> ([ConfigError ''upstream.id'' (Some i) (Duplicate prev)], seen)
               | None \<Rightarrow> ([], fmupd (uc_id u) i seen)));
        (errs, out) = validate_upstreams (Suc i) seen' us
      in (here @ validate_upstream_kind i u @ errs, out))"

fun validate_status :: "nat \<Rightarrow> status_rule list \<Rightarrow> config_error list" where
  "validate_status i [] = []"
| "validate_status i (s # ss) =
     err_if (sr_code s < 100 \<or> 599 < sr_code s) (ConfigError ''failure.status.code'' (Some i) CodeOutOfRange) @
     err_if (sr_cooldown s < 0) (ConfigError ''failure.status.cooldown'' (Some i) MustBeNonNegative) @
     validate_status (Suc i) ss"

text \<open>\<open>ScoringConfig.validate\<close>; comparisons with NaN are false.\<close>

definition validate_scoring :: "scoring_config \<Rightarrow> config_error list" where
  "validate_scoring s =
     (let e = (\<lambda>bad key p. err_if bad (ConfigError key None p)) in
      e (f_lt (sg_refused_penalty s) (Fin 0)) ''refused_penalty'' MustBeNonNegative @
      e (sg_refused_cooldown s < 0) ''refused_cooldown'' MustBeNonNegative @
      e (f_lt (sg_timeout_penalty s) (Fin 0)) ''timeout_penalty'' MustBeNonNegative @
      e (sg_timeout_cooldown s < 0) ''timeout_cooldown'' MustBeNonNegative @
      e (f_le (sg_success_weight s) (Fin 0)) ''success_weight'' MustBePositive @
      e (f_le (sg_score_cap s) (Fin 0)) ''score_cap'' MustBePositive @
      e (f_lt (sg_probe_chance s) (Fin 0) \<or> f_lt (Fin 1) (sg_probe_chance s)) ''probe_chance'' MustBeInUnit @
      e (sg_decay_interval s \<le> 0) ''decay_interval'' MustBePositive @
      e (f_lt (sg_decay_step s) (Fin 0)) ''decay_step'' MustBeNonNegative @
      e (sg_cascade_ttl s < 0) ''cascade_ttl'' MustBeNonNegative @
      e (sg_debounce_window s < 0) ''debounce_window'' MustBeNonNegative @
      e (f_lt (sg_body_match_penalty s) (Fin 0)) ''body_match_penalty'' MustBeNonNegative @
      e (sg_body_match_cooldown s < 0) ''body_match_cooldown'' MustBeNonNegative @
      e (sg_prune_after s < 0) ''prune_after'' MustBeNonNegative)"

definition validate_failure :: "failure_config \<Rightarrow> config_error list" where
  "validate_failure f =
     err_if (fc_timeout_ms f < 1) (ConfigError ''failure.timeout_ms'' None MustBePositive) @
     err_if (fc_max_retries_per_request f < 1)
       (ConfigError ''failure.max_retries_per_request'' None MustBePositive) @
     (if fc_body_buffer_kb f < 0 then [ConfigError ''failure.body_buffer_kb'' None MustBeNonNegative]
      else err_if (1024 < fc_body_buffer_kb f) (ConfigError ''failure.body_buffer_kb'' None TooLarge)) @
     validate_status 0 (fc_status f) @
     validate_scoring (fc_scoring f)"

text \<open>\<open>idPrefixRe\<close>: \<open>^[A-Za-z0-9_-]{1,64}$\<close>.\<close>

definition id_prefix_char :: "char \<Rightarrow> bool" where
  "id_prefix_char c \<longleftrightarrow> is_digit c \<or> is_upper c \<or>
     (97 \<le> (of_char c :: nat) \<and> (of_char c :: nat) \<le> 122) \<or> c = CHR ''_'' \<or> c = CHR ''-''"

definition idPrefixRe :: "string \<Rightarrow> bool" where
  "idPrefixRe s \<longleftrightarrow> 1 \<le> length s \<and> length s \<le> 64 \<and> list_all id_prefix_char s"

definition validate_pool_fields ::
    "(upstream_pool_config \<Rightarrow> string option) option \<Rightarrow> nat \<Rightarrow> upstream_pool_config \<Rightarrow> config_error list" where
  "validate_pool_fields providerValidator i p =
     (case pc_refresh p of
        None \<Rightarrow> []
      | Some d \<Rightarrow>
          if d < 0 then [ConfigError ''upstream_pool.refresh'' (Some i) MustBeNonNegative]
          else err_if (0 < d \<and> d < minute) (ConfigError ''upstream_pool.refresh'' (Some i) TooSmall)) @
     err_if (pc_cache_path p \<noteq> [] \<and> \<not> is_abs (pc_cache_path p))
       (ConfigError ''upstream_pool.cache_path'' (Some i) NotAbsolute) @
     err_if (pc_api_token_file p \<noteq> [] \<and> \<not> is_abs (pc_api_token_file p))
       (ConfigError ''upstream_pool.api_token_file'' (Some i) NotAbsolute) @
     (if pc_provider p = [] then [ConfigError ''upstream_pool.provider'' (Some i) Required]
      else (case providerValidator of
              None \<Rightarrow> []
            | Some v \<Rightarrow>
                (case v p of
                   None \<Rightarrow> []
                 | Some msg \<Rightarrow> [ConfigError ''upstream_pool'' (Some i) (ProviderRejects msg)])))"

fun validate_pools ::
    "(upstream_pool_config \<Rightarrow> string option) option \<Rightarrow> nat \<Rightarrow> (string, nat) fmap \<Rightarrow>
     upstream_pool_config list \<Rightarrow> config_error list" where
  "validate_pools v i seen [] = []"
| "validate_pools v i seen (p # ps) =
     (let (here, seen') =
        (if pc_id_prefix p = [] then ([ConfigError ''upstream_pool.id_prefix'' (Some i) Required], seen)
         else if \<not> idPrefixRe (pc_id_prefix p) then
           ([ConfigError ''upstream_pool.id_prefix'' (Some i) BadCharset], seen)
         else (case fmlookup seen (pc_id_prefix p) of
                 Some prev \<Rightarrow> ([ConfigError ''upstream_pool.id_prefix'' (Some i) (Duplicate prev)], seen)
               | None \<Rightarrow> ([], fmupd (pc_id_prefix p) i seen)))
      in here @ validate_pool_fields v i p @ validate_pools v (Suc i) seen' ps)"

text \<open>\<open>regexp.Compile\<close> is a parameter: the matcher of a pattern, or None when it does not compile.\<close>

type_synonym regex_compile = "string \<Rightarrow> (string \<Rightarrow> bool) option"

fun validate_body_regex :: "regex_compile \<Rightarrow> nat \<Rightarrow> nat \<Rightarrow> string list \<Rightarrow> config_error list" where
  "validate_body_regex re i j [] = []"
| "validate_body_regex re i j (pat # pats) =
     (if pat = [] then [ConfigError ''rule.body_regex'' (Some i) (EmptyPattern j)]
      else err_if (re pat = None) (ConfigError ''rule.body_regex'' (Some i) (BadPattern j)))
     @ validate_body_regex re i (Suc j) pats"

fun validate_rules ::
    "regex_compile \<Rightarrow> bool \<Rightarrow> (string, nat) fmap \<Rightarrow> nat \<Rightarrow> rule_config list \<Rightarrow> config_error list" where
  "validate_rules re noPools seenIDs i [] = []"
| "validate_rules re noPools seenIDs i (r # rs) =
     (if rc_host_glob r = [] then [ConfigError ''rule.host_glob'' (Some i) Required]
      else err_if (path_match (rc_host_glob r) [] = None) (ConfigError ''rule.host_glob'' (Some i) BadGlob)) @
     err_if (rc_prefer r = []) (ConfigError ''rule.prefer'' (Some i) Required) @
     (if noPools then
        [ConfigError ''rule.prefer'' (Some i) (UnknownUpstream uid).
           uid \<leftarrow> rc_prefer r, fmlookup seenIDs uid = None]
      else []) @
     validate_body_regex re i 0 (rc_body_regex r) @
     validate_rules re noPools seenIDs (Suc i) rs"

definition Validate ::
    "(upstream_pool_config \<Rightarrow> string option) option \<Rightarrow> regex_compile \<Rightarrow> config \<Rightarrow> config_error list" where
  "Validate providerValidator re c =
     (let (upErrs, seenIDs) = validate_upstreams 0 fmempty (cf_upstreams c) in
      validate_listeners c @
      validate_control (cf_control c) @
      err_if (cf_upstreams c = [] \<and> cf_upstream_pools c = []) (ConfigError ''upstream'' None Required) @
      upErrs @
      validate_failure (cf_failure c) @
      validate_pools providerValidator 0 fmempty (cf_upstream_pools c) @
      validate_rules re (cf_upstream_pools c = []) seenIDs 0 (cf_rules c))"

subsection \<open>What an accepted configuration satisfies\<close>

definition port_ok :: "string \<Rightarrow> bool" where
  "port_ok port \<longleftrightarrow> (case parse_int port of Some n \<Rightarrow> 1 \<le> n \<and> n \<le> 65535 | None \<Rightarrow> False)"

definition addr_ok :: "string \<Rightarrow> bool" where
  "addr_ok a \<longleftrightarrow> (case split_host_port a of Inr (_, port) \<Rightarrow> port_ok port | Inl _ \<Rightarrow> False)"

definition upstream_addr_ok :: "string \<Rightarrow> bool" where
  "upstream_addr_ok a \<longleftrightarrow>
     (case split_host_port a of
        Inr (host, port) \<Rightarrow> port_ok port \<and> trim_space host \<noteq> []
      | Inl _ \<Rightarrow> False)"

definition abs_or_empty :: "string \<Rightarrow> bool" where
  "abs_or_empty p \<longleftrightarrow> p = [] \<or> is_abs p"

definition token_ok :: "string \<Rightarrow> bool" where
  "token_ok t \<longleftrightarrow> t \<noteq> [] \<and> list_all (\<lambda>c. \<not> is_space c) t"

definition wf_control :: "control_config \<Rightarrow> bool" where
  "wf_control ct \<longleftrightarrow>
     list_all token_ok (ct_auth_tokens ct) \<and> abs_or_empty (ct_auth_tokens_file ct) \<and>
     (ct_tls_cert_file ct = [] \<longleftrightarrow> ct_tls_key_file ct = []) \<and>
     abs_or_empty (ct_tls_cert_file ct) \<and> abs_or_empty (ct_tls_key_file ct)"

definition wf_listeners :: "config \<Rightarrow> bool" where
  "wf_listeners c \<longleftrightarrow>
     addr_ok (lc_http (cf_listener c)) \<and> addr_ok (lc_socks (cf_listener c)) \<and>
     abs_or_empty (cc_persist_path (cf_cache c)) \<and> 0 \<le> cc_persist_interval (cf_cache c) \<and>
     list_all (\<lambda>a. a = [] \<or> addr_ok a) [cf_metrics_bind c, cf_ui_bind c, ct_bind (cf_control c)]"

definition wf_upstream :: "upstream_config \<Rightarrow> bool" where
  "wf_upstream u \<longleftrightarrow>
     uc_id u \<noteq> [] \<and>
     (uc_kind u = KindDirect \<and> uc_addr u = [] \<or>
      (uc_kind u = KindHTTP \<or> uc_kind u = KindSOCKS5) \<and> upstream_addr_ok (uc_addr u))"

definition wf_status :: "status_rule \<Rightarrow> bool" where
  "wf_status s \<longleftrightarrow> 100 \<le> sr_code s \<and> sr_code s \<le> 599 \<and> 0 \<le> sr_cooldown s"

definition f_nonneg :: "f64 \<Rightarrow> bool" where
  "f_nonneg x \<longleftrightarrow> (case x of Fin v \<Rightarrow> 0 \<le> v | Infinity neg \<Rightarrow> \<not> neg | NaN \<Rightarrow> True)"

definition f_pos :: "f64 \<Rightarrow> bool" where
  "f_pos x \<longleftrightarrow> (case x of Fin v \<Rightarrow> 0 < v | Infinity neg \<Rightarrow> \<not> neg | NaN \<Rightarrow> True)"

definition wf_scoring :: "scoring_config \<Rightarrow> bool" where
  "wf_scoring s \<longleftrightarrow>
     f_nonneg (sg_refused_penalty s) \<and> f_nonneg (sg_timeout_penalty s) \<and>
     f_nonneg (sg_body_match_penalty s) \<and> f_nonneg (sg_decay_step s) \<and>
     f_pos (sg_success_weight s) \<and> f_pos (sg_score_cap s) \<and>
     (case sg_probe_chance s of Fin v \<Rightarrow> 0 \<le> v \<and> v \<le> 1 | Infinity _ \<Rightarrow> False | NaN \<Rightarrow> True) \<and>
     0 < sg_decay_interval s \<and>
     list_all (\<lambda>d. 0 \<le> d)
       [sg_refused_cooldown s, sg_timeout_cooldown s, sg_cascade_ttl s, sg_debounce_window s,
        sg_body_match_cooldown s, sg_prune_after s]"

definition wf_failure :: "failure_config \<Rightarrow> bool" where
  "wf_failure f \<longleftrightarrow>
     1 \<le> fc_timeout_ms f \<and> 1 \<le> fc_max_retries_per_request f \<and>
     0 \<le> fc_body_buffer_kb f \<and> fc_body_buffer_kb f \<le> 1024 \<and>
     list_all wf_status (fc_status f) \<and> wf_scoring (fc_scoring f)"

definition wf_pool ::
    "(upstream_pool_config \<Rightarrow> string option) option \<Rightarrow> upstream_pool_config \<Rightarrow> bool" where
  "wf_pool v p \<longleftrightarrow>
     idPrefixRe (pc_id_prefix p) \<and>
     (case pc_refresh p of None \<Rightarrow> True | Some d \<Rightarrow> d = 0 \<or> minute \<le> d) \<and>
     abs_or_empty (pc_cache_path p) \<and> abs_or_empty (pc_api_token_file p) \<and>
     pc_provider p \<noteq> [] \<and> (case v of None \<Rightarrow> True | Some f \<Rightarrow> f p = None)"

definition wf_rule :: "regex_compile \<Rightarrow> string list option \<Rightarrow> rule_config \<Rightarrow> bool" where
  "wf_rule re ids r \<longleftrightarrow>
     rc_host_glob r \<noteq> [] \<and> parse_glob (rc_host_glob r) \<noteq> None \<and> rc_prefer r \<noteq> [] \<and>
     (case ids of None \<Rightarrow> True | Some known \<Rightarrow> set (rc_prefer r) \<subseteq> set known) \<and>
     list_all (\<lambda>p. p \<noteq> [] \<and> re p \<noteq> None) (rc_body_regex r)"

definition wf_config ::
    "(upstream_pool_config \<Rightarrow> string option) option \<Rightarrow> regex_compile \<Rightarrow> config \<Rightarrow> bool" where
  "wf_config v re c \<longleftrightarrow>
     wf_listeners c \<and> wf_control (cf_control c) \<and>
     (cf_upstreams c \<noteq> [] \<or> cf_upstream_pools c \<noteq> []) \<and>
     list_all wf_upstream (cf_upstreams c) \<and> distinct (map uc_id (cf_upstreams c)) \<and>
     wf_failure (cf_failure c) \<and>
     list_all (wf_pool v) (cf_upstream_pools c) \<and> distinct (map pc_id_prefix (cf_upstream_pools c)) \<and>
     list_all
       (wf_rule re (if cf_upstream_pools c = [] then Some (map uc_id (cf_upstreams c)) else None))
       (cf_rules c)"

text \<open>The loops of \<open>Validate\<close> against the declarative conditions.\<close>

lemma validatePort_None [simp]: "validatePort p = None \<longleftrightarrow> port_ok p"
  by (auto simp: validatePort_def port_ok_def split: option.splits)

lemma validateAddr_None [simp]: "validateAddr a = None \<longleftrightarrow> addr_ok a"
  by (auto simp: validateAddr_def addr_ok_def split: sum.splits prod.splits)

lemma validateUpstreamAddr_None [simp]: "validateUpstreamAddr a = None \<longleftrightarrow> upstream_addr_ok a"
  by (auto simp: validateUpstreamAddr_def upstream_addr_ok_def split: sum.splits prod.splits)

lemma validate_listeners_Nil: "validate_listeners c = [] \<longleftrightarrow> wf_listeners c"
  by (auto simp: validate_listeners_def wf_listeners_def abs_or_empty_def Let_def)

lemma trim_space_eq_Nil: "trim_space s = [] \<longleftrightarrow> list_all is_space s"
proof -
  have "trim_space s = [] \<longleftrightarrow> list_all is_space (dropWhile is_space s)"
    by (simp add: trim_space_def trim_right_def trim_left_def list_all_iff)
  also have "\<dots> \<longleftrightarrow> list_all is_space s"
    by (induction s) auto
  finally show ?thesis .
qed

lemma token_checks:
  "trim_space t \<noteq> [] \<and> \<not> list_ex is_space t \<longleftrightarrow> token_ok t"
  by (cases t) (auto simp: trim_space_eq_Nil token_ok_def list_all_iff list_ex_iff)

lemma validate_tokens_Nil: "validate_tokens i ts = [] \<longleftrightarrow> list_all token_ok ts"
  by (induction ts arbitrary: i) (auto simp: token_checks [symmetric])

lemma validate_control_Nil: "validate_control ct = [] \<longleftrightarrow> wf_control ct"
  by (auto simp: validate_control_def wf_control_def abs_or_empty_def validate_tokens_Nil Let_def)

lemma validate_status_Nil: "validate_status i ss = [] \<longleftrightarrow> list_all wf_status ss"
  by (induction ss arbitrary: i) (auto simp: wf_status_def)

lemma f_checks:
  "\<not> f_lt x (Fin 0) \<longleftrightarrow> f_nonneg x" "\<not> f_le x (Fin 0) \<longleftrightarrow> f_pos x"
  "\<not> f_lt x (Fin 0) \<and> \<not> f_lt (Fin 1) x \<longleftrightarrow>
     (case x of Fin v \<Rightarrow> 0 \<le> v \<and> v \<le> 1 | Infinity _ \<Rightarrow> False | NaN \<Rightarrow> True)"
  by (cases x; auto simp: f_nonneg_def f_pos_def f_le_def)+

lemma validate_scoring_Nil: "validate_scoring s = [] \<longleftrightarrow> wf_scoring s"
  unfolding wf_scoring_def f_checks [symmetric]
  by (simp add: validate_scoring_def Let_def not_less not_le) blast

lemma validate_failure_Nil: "validate_failure f = [] \<longleftrightarrow> wf_failure f"
  by (auto simp: validate_failure_def wf_failure_def validate_status_Nil validate_scoring_Nil)

lemma validate_upstream_kind_Nil:
  "uc_id u \<noteq> [] \<Longrightarrow> validate_upstream_kind i u = [] \<longleftrightarrow> wf_upstream u"
  by (auto simp: validate_upstream_kind_def wf_upstream_def upstream_addr_ok_def split_host_port_def
      KindDirect_def KindHTTP_def KindSOCKS5_def)

lemma wf_upstream_id: "wf_upstream u \<Longrightarrow> uc_id u \<noteq> []"
  by (simp add: wf_upstream_def)

lemma validate_upstreams_Nil:
  "fst (validate_upstreams i seen us) = [] \<longleftrightarrow>
     list_all wf_upstream us \<and> distinct (map uc_id us) \<and>
     (\<forall>u \<in> set us. uc_id u |\<notin>| fmdom seen)"
proof (induction us arbitrary: i seen)
  case (Cons u us)
  show ?case
  proof (cases "uc_id u = [] \<or> uc_id u |\<in>| fmdom seen")
    case True
    then show ?thesis by (auto simp: Let_def split: prod.splits option.splits dest: wf_upstream_id)
  next
    case False
    then have "fmlookup seen (uc_id u) = None" by (simp add: fmdom_notD)
    with False Cons.IH [of "Suc i" "fmupd (uc_id u) i seen"] show ?thesis
      by (auto simp: Let_def validate_upstream_kind_Nil split: prod.splits intro: rev_image_eqI)
  qed
qed simp

lemma validate_upstreams_seen:
  "fst (validate_upstreams i seen us) = [] \<Longrightarrow>
   fset (fmdom (snd (validate_upstreams i seen us))) = fset (fmdom seen) \<union> uc_id ` set us"
proof (induction us arbitrary: i seen)
  case (Cons u us)
  then have "list_all wf_upstream (u # us)" "uc_id u |\<notin>| fmdom seen"
    unfolding validate_upstreams_Nil by auto
  then have "uc_id u \<noteq> []" "fmlookup seen (uc_id u) = None"
    by (auto dest: wf_upstream_id simp: fmdom_notD)
  with Cons.IH [of "Suc i" "fmupd (uc_id u) i seen"] Cons.prems show ?case
    by (auto simp: Let_def split: prod.splits)
qed simp

lemma validate_pool_fields_Nil:
  "idPrefixRe (pc_id_prefix p) \<Longrightarrow> validate_pool_fields v i p = [] \<longleftrightarrow> wf_pool v p"
  by (auto simp: validate_pool_fields_def wf_pool_def abs_or_empty_def minute_def
      split: option.splits)

lemma idPrefixRe_nonempty: "idPrefixRe s \<Longrightarrow> s \<noteq> []"
  by (auto simp: idPrefixRe_def)

lemma validate_pools_Nil:
  "validate_pools v i seen ps = [] \<longleftrightarrow>
     list_all (wf_pool v) ps \<and> distinct (map pc_id_prefix ps) \<and>
     (\<forall>p \<in> set ps. pc_id_prefix p |\<notin>| fmdom seen)"
proof (induction ps arbitrary: i seen)
  case (Cons p ps)
  show ?case
  proof (cases "idPrefixRe (pc_id_prefix p) \<and> pc_id_prefix p |\<notin>| fmdom seen")
    case False
    then show ?thesis
      by (auto simp: Let_def wf_pool_def split: option.splits dest: idPrefixRe_nonempty fmdomI)
  next
    case True
    then have "pc_id_prefix p \<noteq> []" "fmlookup seen (pc_id_prefix p) = None"
      by (auto dest: idPrefixRe_nonempty simp: fmdom_notD)
    with True Cons.IH [of "Suc i" "fmupd (pc_id_prefix p) i seen"] show ?thesis
      by (auto simp: Let_def validate_pool_fields_Nil intro: rev_image_eqI)
  qed
qed simp

lemma validate_body_regex_Nil:
  "validate_body_regex re i j ps = [] \<longleftrightarrow> list_all (\<lambda>p. p \<noteq> [] \<and> re p \<noteq> None) ps"
  by (induction ps arbitrary: j) auto

lemma validate_rules_Nil:
  assumes "noPools \<Longrightarrow> fset (fmdom seen) = set known"
  shows "validate_rules re noPools seen i rs = [] \<longleftrightarrow>
           list_all (wf_rule re (if noPools then Some known else None)) rs"
proof (induction rs arbitrary: i)
  case (Cons r rs)
  have "[ConfigError ''rule.prefer'' (Some i) (UnknownUpstream uid).
           uid \<leftarrow> rc_prefer r, fmlookup seen uid = None] = [] \<longleftrightarrow> set (rc_prefer r) \<subseteq> set known"
    if "noPools"
    using assms [OF that] by (auto simp: fmlookup_None_iff)
  then show ?case
    using Cons.IH by (auto simp: wf_rule_def validate_body_regex_Nil path_match_bad_iff)
qed simp

lemma Validate_Nil_iff: "Validate v re c = [] \<longleftrightarrow> wf_config v re c"
proof (cases "fst (validate_upstreams 0 fmempty (cf_upstreams c)) = []")
  case True
  let ?seen = "snd (validate_upstreams 0 fmempty (cf_upstreams c))"
  have "fset (fmdom ?seen) = set (map uc_id (cf_upstreams c))"
    using validate_upstreams_seen [OF True] by simp
  note rules = validate_rules_Nil [of "cf_upstream_pools c = []" ?seen, OF this]
  show ?thesis
    using True rules [of re 0 "cf_rules c"] validate_upstreams_Nil [of 0 fmempty "cf_upstreams c"]
    by (auto simp: Validate_def wf_config_def validate_listeners_Nil validate_control_Nil
        validate_failure_Nil validate_pools_Nil split: prod.splits)
next
  case False
  then show ?thesis
    using validate_upstreams_Nil [of 0 fmempty "cf_upstreams c"]
    by (auto simp: Validate_def wf_config_def split: prod.splits)
qed

subsection \<open>The defaults are valid\<close>

lemma wf_default_upstream [simp]: "wf_upstream (default_upstream u) = wf_upstream u"
  by (simp add: default_upstream_def wf_upstream_def split: option.splits)

lemma default_upstream_id [simp]: "uc_id (default_upstream u) = uc_id u"
  by (simp add: default_upstream_def split: option.splits)

lemma default_upstream_priority [simp]:
  "uc_priority (default_upstream u) = Some (PriorityValue u)"
  by (simp add: default_upstream_def PriorityValue_def split: option.splits)

lemma wf_ScoringDefaults: "wf_scoring ScoringDefaults"
proof -
  have "f_le (Fin 0) (f64_of_rat (5 / 100))" "f_le (f64_of_rat (5 / 100)) (Fin 1)"
    by (rule f64_of_rat_ge; simp) (rule f64_of_rat_le; simp add: f64_eval representable_exact)
  then have "case f64_of_rat (5 / 100) of Fin v \<Rightarrow> 0 \<le> v \<and> v \<le> 1 | Infinity _ \<Rightarrow> False | NaN \<Rightarrow> True"
    by (cases "f64_of_rat (5 / 100)") (auto simp: f_le_def)
  then show ?thesis
    by (simp add: wf_scoring_def ScoringDefaults_def f_nonneg_def f_pos_def time_defs)
qed

lemma default_addrs_ok:
  "addr_ok '':8080''" "addr_ok '':1080''" "addr_ok '':9090''" "addr_ok '':9091''" "addr_ok '':9092''"
  by code_simp+

lemma applyScoringDefaults_none: "applyScoringDefaults (\<lambda>_. False) s = ScoringDefaults"
  by (simp add: applyScoringDefaults_def Let_def)

lemma wf_default_failure: "wf_failure (default_failure (\<lambda>_. False) f)"
  using wf_ScoringDefaults
  by (simp add: default_failure_def wf_failure_def DefaultStatusRules_def wf_status_def
      applyScoringDefaults_none time_defs Let_def)

text \<open>
  A document with valid upstreams and nothing else is accepted once the defaults are in.
\<close>

theorem applyDefaults_minimal_valid:
  assumes "list_all wf_upstream (cf_upstreams c)" and "distinct (map uc_id (cf_upstreams c))"
    and "cf_upstreams c \<noteq> []" and "cf_upstream_pools c = []" and "cf_rules c = []"
    and "cc_persist_path (cf_cache c) = []"
    and "cf_control c = \<lparr>ct_bind = [], ct_auth_tokens = [], ct_auth_tokens_file = [],
           ct_gate_healthz = False, ct_tls_cert_file = [], ct_tls_key_file = []\<rparr>"
  shows "Validate v re (applyDefaults (\<lambda>_. False) c) = []"
proof -
  have "map uc_id (map default_upstream us) = map uc_id us" for us
    by simp
  moreover have "list_all wf_upstream (map default_upstream us) = list_all wf_upstream us" for us
    by (simp add: list_all_iff)
  ultimately show ?thesis
    unfolding Validate_Nil_iff wf_config_def
    using assms wf_default_failure [of "cf_failure c"]
    by (simp add: applyDefaults_def wf_listeners_def wf_control_def abs_or_empty_def
        default_addrs_ok time_defs del: map_map list.map_comp)
qed

text \<open>A value of the document is never replaced.\<close>

lemma applyDefaults_keeps:
  assumes "\<And>k. md k"
    and "list_all (\<lambda>u. uc_priority u \<noteq> None) (cf_upstreams c)"
    and "list_all (\<lambda>p. pc_priority p \<noteq> None \<and> pc_refresh p \<noteq> None) (cf_upstream_pools c)"
  shows "applyDefaults md c = c"
proof -
  have "map default_upstream us = us" if "list_all (\<lambda>u. uc_priority u \<noteq> None) us" for us
    using that by (induction us) (auto simp: default_upstream_def)
  moreover have "map default_pool ps = ps"
    if "list_all (\<lambda>p. pc_priority p \<noteq> None \<and> pc_refresh p \<noteq> None) ps" for ps
    using that by (induction ps) (auto simp: default_pool_def)
  ultimately show ?thesis
    using assms
    by (simp add: applyDefaults_def default_failure_def applyScoringDefaults_def)
qed

text \<open>Not a number passes every range check.\<close>

lemma nan_passes_validation:
  "validate_scoring (ScoringDefaults\<lparr>sg_score_cap := NaN, sg_refused_penalty := NaN,
     sg_probe_chance := NaN\<rparr>) = []"
  unfolding validate_scoring_Nil
  using wf_ScoringDefaults by (simp add: wf_scoring_def f_nonneg_def f_pos_def)


end
