(* ===== verification/Providers.thy ===== *)
theory Providers
  imports Config Prelude
begin

text \<open>
  The provider registry, \<open>internal/upstream/provider/registry.go\<close>, and the validator that
  \<open>internal/upstream/providers\<close> plugs into the configuration. A provider is what its methods answer for a
  pool block: the validation error, the expander with its first snapshot, and the vendor API.
\<close>

text \<open>A Go slice of upstream configurations: nil (None) and empty are told apart by \<open>DeepEqual\<close>.\<close>

type_synonym up_slice = "upstream_config list option"

definition slice_list :: "up_slice \<Rightarrow> upstream_config list" where
  "slice_list s = (case s of None \<Rightarrow> [] | Some us \<Rightarrow> us)"

text \<open>An expander: whether it also implements \<open>Healer\<close>, and what its first snapshot answers.\<close>

record expander =
  ex_healer :: bool
  ex_snapshot :: "goerr + up_slice"

record provider =
  pv_Name :: string
  pv_ValidateConfig :: "upstream_pool_config \<Rightarrow> string option"
  pv_BuildExpander :: "upstream_pool_config \<Rightarrow> goerr + expander"
  pv_BuildAPI :: "upstream_pool_config \<Rightarrow> goerr option"

type_synonym registry = "(string, provider) fmap"

text \<open>A nil provider is None.\<close>

definition Register :: "provider option \<Rightarrow> registry \<Rightarrow> goerr + registry" where
  "Register p reg =
     (case p of
        None \<Rightarrow> Inl (errorf ''provider: cannot register nil provider'')
      | Some p \<Rightarrow>
          if pv_Name p = [] then Inl (errorf ''provider: cannot register provider with empty name'')
          else if fmlookup reg (pv_Name p) \<noteq> None then Inl (errorf ''provider: already registered'')
          else Inr (fmupd (pv_Name p) p reg))"

definition provider_Lookup :: "registry \<Rightarrow> string \<Rightarrow> provider option" where
  "provider_Lookup reg name = fmlookup reg name"

definition provider_Names :: "registry \<Rightarrow> string list" where
  "provider_Names reg = sorted_list_of_fset (fmdom reg)"

text \<open>The validator installed by \<open>providers.init\<close>.\<close>

definition provider_validator :: "registry \<Rightarrow> upstream_pool_config \<Rightarrow> string option" where
  "provider_validator reg cfg =
     (case provider_Lookup reg (pc_provider cfg) of
        None \<Rightarrow> Some ''provider is not supported''
      | Some p \<Rightarrow> pv_ValidateConfig p cfg)"

definition registry_wf :: "registry \<Rightarrow> bool" where
  "registry_wf reg \<longleftrightarrow> (\<forall>name p. fmlookup reg name = Some p \<longrightarrow> pv_Name p = name \<and> name \<noteq> [])"

lemma registry_wf_empty: "registry_wf fmempty"
  by (simp add: registry_wf_def)

lemma Register_wf: "registry_wf reg \<Longrightarrow> Register p reg = Inr reg' \<Longrightarrow> registry_wf reg'"
  unfolding registry_wf_def Register_def
  by (cases p) (auto split: if_splits, blast)

lemma Register_lookup:
  assumes "Register (Some p) reg = Inr reg'"
  shows "provider_Lookup reg' name = (if name = pv_Name p then Some p else provider_Lookup reg name)"
  using assms by (auto simp: Register_def provider_Lookup_def split: if_splits)

end
