(* ===== verification/Failure.thy ===== *)
theory Failure
  imports Config
begin

text \<open>
  \<open>internal/failure\<close>: the failure kinds, the classification of dial errors, \<open>Retry-After\<close>, the status
  detector and the response-body inspector with its replay reader.
\<close>

subsection \<open>kind.go and classify.go\<close>

type_synonym kind = string

definition KindRefused :: kind where "KindRefused = ''refused''"
definition KindTimeout :: kind where "KindTimeout = ''timeout''"
definition KindRateLimit :: kind where "KindRateLimit = ''rate_limit''"
definition KindForbidden :: kind where "KindForbidden = ''forbidden''"
definition KindLegalBlock :: kind where "KindLegalBlock = ''legal_block''"
definition KindBodyMatch :: kind where "KindBodyMatch = ''body_match''"
definition KindProxyAuth :: kind where "KindProxyAuth = ''proxy_auth''"

lemmas kind_defs = KindRefused_def KindTimeout_def KindRateLimit_def KindForbidden_def
  KindLegalBlock_def KindBodyMatch_def KindProxyAuth_def

definition AllKinds :: "kind list" where
  "AllKinds = [KindRefused, KindTimeout, KindRateLimit, KindForbidden, KindLegalBlock,
     KindBodyMatch, KindProxyAuth]"

definition kind_Valid :: "kind \<Rightarrow> bool" where
  "kind_Valid k \<longleftrightarrow>
     k = KindRefused \<or> k = KindTimeout \<or> k = KindRateLimit \<or> k = KindForbidden \<or>
     k = KindLegalBlock \<or> k = KindBodyMatch \<or> k = KindProxyAuth"

lemma kind_Valid_iff: "kind_Valid k \<longleftrightarrow> k \<in> set AllKinds"
  by (auto simp: kind_Valid_def AllKinds_def)

lemma distinct_AllKinds: "distinct AllKinds"
  by (simp add: AllKinds_def kind_defs)

lemma kind_nonempty: "kind_Valid k \<Longrightarrow> k \<noteq> []"
  by (auto simp: kind_Valid_def kind_defs)

definition IsConnectionRefused :: "goerr option \<Rightarrow> bool" where
  "IsConnectionRefused err = (case err of None \<Rightarrow> False | Some e \<Rightarrow> errors_is e ECONNREFUSED)"

definition IsTimeout :: "goerr option \<Rightarrow> bool" where
  "IsTimeout err =
     (case err of
        None \<Rightarrow> False
      | Some e \<Rightarrow>
          if errors_is e DeadlineExceeded then True
          else if errors_is e OsDeadlineExceeded then True
          else (case as_net_error e of Some timeout \<Rightarrow> timeout | None \<Rightarrow> False))"

definition ClassifyDialError :: "goerr option \<Rightarrow> kind" where
  "ClassifyDialError err =
     (case err of
        None \<Rightarrow> ''''
      | Some e \<Rightarrow>
          if errors_is e ErrProxyAuth then KindProxyAuth
          else if IsTimeout err then KindTimeout
          else if IsConnectionRefused err then KindRefused
          else KindRefused)"

text \<open>\<open>MustParseKind\<close>: None is the panic.\<close>

definition MustParseKind :: "string \<Rightarrow> kind option" where
  "MustParseKind s = (if kind_Valid s then Some s else None)"

lemma ClassifyDialError_valid: "kind_Valid (ClassifyDialError (Some e))"
  by (simp add: ClassifyDialError_def kind_Valid_def)

lemma ClassifyDialError_cases:
  "ClassifyDialError (Some e) \<in> {KindProxyAuth, KindTimeout, KindRefused}"
  by (simp add: ClassifyDialError_def)

lemma ClassifyDialError_proxy_auth:
  "ClassifyDialError (Some e) = KindProxyAuth \<longleftrightarrow> errors_is e ErrProxyAuth"
  by (auto simp: ClassifyDialError_def kind_defs)

text \<open>Wrapping an error with context keeps its classification.\<close>

lemma ClassifyDialError_wrap:
  "ClassifyDialError (Some (errorf_w msg e)) = ClassifyDialError (Some e)"
  by (simp add: ClassifyDialError_def IsTimeout_def IsConnectionRefused_def errorf_w_def)

subsection \<open>retry\_after.go\<close>

definition maxRetryAfterSeconds :: int where
  "maxRetryAfterSeconds = max_int64 div second"

text \<open>\<open>http.ParseTime\<close> is the parameter \<open>parseTime\<close>. The product is the machine's, on int64.\<close>

definition ParseRetryAfter :: "(string \<Rightarrow> time option) \<Rightarrow> string \<Rightarrow> time \<Rightarrow> duration option" where
  "ParseRetryAfter parseTime value now =
     (let v = trim_space value in
      if v = [] then None
      else
        (case parse_int v of
           Some secs \<Rightarrow>
             if secs < 0 \<or> maxRetryAfterSeconds < secs then None
             else Some (wrap64 (secs * second))
         | None \<Rightarrow>
             (case parseTime v of
                None \<Rightarrow> None
              | Some t \<Rightarrow>
                  let d = time_sub t now in if d < 0 then None else Some d)))"

lemma retry_seconds_no_wrap:
  "0 \<le> secs \<Longrightarrow> secs \<le> maxRetryAfterSeconds \<Longrightarrow> wrap64 (secs * second) = secs * second"
proof (rule wrap64_id)
  assume s: "0 \<le> secs" "secs \<le> maxRetryAfterSeconds"
  show "min_int64 \<le> secs * second" using s by (simp add: time_defs)
  show "secs * second \<le> max_int64" using s by (simp add: maxRetryAfterSeconds_def time_defs)
qed

lemma ParseRetryAfter_range:
  assumes "ParseRetryAfter parseTime value now = Some d"
  shows "0 \<le> d \<and> d \<le> max_int64"
proof (cases "parse_int (trim_space value)")
  case None
  then show ?thesis
    using assms time_sub_range
    by (auto simp: ParseRetryAfter_def Let_def in_int64_def split: if_splits option.splits)
next
  case (Some secs)
  then have "0 \<le> secs" "secs \<le> maxRetryAfterSeconds" "d = wrap64 (secs * second)"
    using assms by (auto simp: ParseRetryAfter_def Let_def split: if_splits)
  then show ?thesis
    using retry_seconds_no_wrap [of secs] wrap64_in_range [of "secs * second"]
    by (simp add: second_def)
qed

lemma ParseRetryAfter_seconds:
  assumes "trim_space value \<noteq> []" and "parse_int (trim_space value) = Some secs"
  shows "ParseRetryAfter parseTime value now =
           (if 0 \<le> secs \<and> secs \<le> maxRetryAfterSeconds then Some (secs * second) else None)"
  using assms retry_seconds_no_wrap [of secs] by (auto simp: ParseRetryAfter_def Let_def)

subsection \<open>detector.go\<close>

record detector_rule =
  dr_kind :: kind
  dr_honor_retry_after :: bool

type_synonym status_detector = "(int, detector_rule) fmap"

record detection =
  dt_kind :: kind
  dt_cooldown_override :: "duration option"

definition statusKinds :: "int \<Rightarrow> kind option" where
  "statusKinds code =
     (if code = 429 then Some KindRateLimit
      else if code = 403 then Some KindForbidden
      else if code = 451 then Some KindLegalBlock
      else None)"

definition add_status_rule :: "status_rule \<Rightarrow> status_detector \<Rightarrow> status_detector" where
  "add_status_rule r out =
     (case statusKinds (sr_code r) of
        None \<Rightarrow> out
      | Some k \<Rightarrow>
          fmupd (sr_code r) \<lparr>dr_kind = k, dr_honor_retry_after = sr_honor_retry_after r\<rparr> out)"

definition NewStatusDetector :: "status_rule list \<Rightarrow> status_detector" where
  "NewStatusDetector rules = fold add_status_rule rules fmempty"

text \<open>None is a nil detector on the way in and \<open>ok = false\<close> on the way out.\<close>

definition Detect ::
    "(string \<Rightarrow> time option) \<Rightarrow> status_detector option \<Rightarrow> time \<Rightarrow> int \<Rightarrow> header \<Rightarrow> detection option" where
  "Detect parseTime det now status hdr =
     (case det of
        None \<Rightarrow> None
      | Some d \<Rightarrow>
          (case fmlookup d status of
             None \<Rightarrow> None
           | Some rule \<Rightarrow>
               Some \<lparr>dt_kind = dr_kind rule,
                 dt_cooldown_override =
                   (if dr_honor_retry_after rule then
                      (let v = header_get hdr ''Retry-After'' in
                       if v \<noteq> [] then ParseRetryAfter parseTime v now else None)
                    else None)\<rparr>))"

lemma NewStatusDetector_snoc:
  "NewStatusDetector (rs @ [r]) = add_status_rule r (NewStatusDetector rs)"
  by (simp add: NewStatusDetector_def)

text \<open>The last rule of a code decides, and only codes with a kind are detected.\<close>

lemma NewStatusDetector_lookup:
  "fmlookup (NewStatusDetector rules) code =
     (case statusKinds code of
        None \<Rightarrow> None
      | Some k \<Rightarrow>
          (case filter (\<lambda>r. sr_code r = code) (rev rules) of
             [] \<Rightarrow> None
           | r # _ \<Rightarrow> Some \<lparr>dr_kind = k, dr_honor_retry_after = sr_honor_retry_after r\<rparr>))"
proof (induction rules rule: rev_induct)
  case Nil
  then show ?case by (simp add: NewStatusDetector_def split: option.splits)
next
  case (snoc r rs)
  then show ?case
    by (auto simp: NewStatusDetector_snoc add_status_rule_def split: option.splits)
qed

lemma statusKinds_valid: "statusKinds code = Some k \<Longrightarrow> kind_Valid k"
  by (auto simp: statusKinds_def kind_Valid_def split: if_splits)

lemma Detect_sound:
  assumes "Detect parseTime (Some (NewStatusDetector rules)) now status hdr = Some d"
  shows "statusKinds status = Some (dt_kind d)"
    and "\<exists>r \<in> set rules. sr_code r = status \<and>
           (dt_cooldown_override d \<noteq> None \<longrightarrow> sr_honor_retry_after r)"
    and "\<And>w. dt_cooldown_override d = Some w \<Longrightarrow> 0 \<le> w \<and> w \<le> max_int64"
proof -
  obtain k r rs where k: "statusKinds status = Some k"
      and f: "filter (\<lambda>r. sr_code r = status) (rev rules) = r # rs"
      and d: "dt_kind d = k"
      and o: "dt_cooldown_override d \<noteq> None \<longrightarrow> sr_honor_retry_after r"
    using assms by (auto simp: Detect_def NewStatusDetector_lookup split: option.splits list.splits)
  show "statusKinds status = Some (dt_kind d)" using k d by simp
  have "r \<in> set (filter (\<lambda>r. sr_code r = status) (rev rules))" unfolding f by simp
  then show "\<exists>r \<in> set rules. sr_code r = status \<and>
      (dt_cooldown_override d \<noteq> None \<longrightarrow> sr_honor_retry_after r)"
    using o by auto
  show "0 \<le> w \<and> w \<le> max_int64" if "dt_cooldown_override d = Some w" for w
  proof -
    have "ParseRetryAfter parseTime (header_get hdr ''Retry-After'') now = Some w"
      using assms that by (auto simp: Detect_def Let_def split: option.splits if_splits)
    then show ?thesis by (rule ParseRetryAfter_range)
  qed
qed

subsection \<open>body.go\<close>

text \<open>
  An upstream body is what its reads still deliver: the chunks the connection hands out, then an
  end of file (None) or a read error. One read returns at most the caller's buffer from the
  first chunk.
\<close>

record body =
  bd_chunks :: "string list"
  bd_end :: "goerr option"
  bd_closed :: bool

datatype io_err = EOF | ErrClosedPipe | ReadErr goerr

definition body_content :: "body \<Rightarrow> string" where
  "body_content b = concat (bd_chunks b)"

definition end_err :: "goerr option \<Rightarrow> io_err" where
  "end_err e = (case e of None \<Rightarrow> EOF | Some x \<Rightarrow> ReadErr x)"

definition body_read :: "nat \<Rightarrow> body \<Rightarrow> (string \<times> io_err option) \<times> body" where
  "body_read n b =
     (case bd_chunks b of
        [] \<Rightarrow> (([], Some (end_err (bd_end b))), b)
      | c # cs \<Rightarrow>
          if length c \<le> n then ((c, None), b\<lparr>bd_chunks := cs\<rparr>)
          else ((take n c, None), b\<lparr>bd_chunks := drop n c # cs\<rparr>))"

text \<open>
  \<open>io.ReadAll(io.LimitReader(body, limit))\<close>: the bytes, the chunks left, and what is left of the
  limit when the end of the body was reached before it.
\<close>

fun read_limit :: "nat \<Rightarrow> string list \<Rightarrow> string \<times> string list \<times> nat" where
  "read_limit n [] = ([], [], n)"
| "read_limit n (c # cs) =
     (if n = 0 then ([], c # cs, 0)
      else if length c \<le> n then
        (let (b, cs', k) = read_limit (n - length c) cs in (c @ b, cs', k))
      else (take n c, drop n c # cs, 0))"

record replay_reader =
  rr_prefix :: string   \<comment> \<open>what is unread of the buffered prefix\<close>
  rr_rest :: body
  rr_closed :: bool

datatype replay_body = NoBody | Passthrough body | Replay replay_reader

record body_decision =
  bi_matched :: bool
  bi_pattern :: string
  bi_skipped :: bool
  bi_replay :: replay_body

text \<open>A pattern: its source and its matcher. None is a nil entry of the slice.\<close>

type_synonym pattern = "string \<times> (string \<Rightarrow> bool)"

definition isPlainEncoding :: "string \<Rightarrow> bool" where
  "isPlainEncoding enc =
     (let e = trim_space (to_lower enc) in e = [] \<or> e = ''identity'')"

definition passthrough :: "body option \<Rightarrow> replay_body" where
  "passthrough b = (case b of None \<Rightarrow> NoBody | Some b' \<Rightarrow> Passthrough b')"

definition replay :: "string \<Rightarrow> body \<Rightarrow> replay_body" where
  "replay prefix b = Replay \<lparr>rr_prefix = prefix, rr_rest = b, rr_closed = False\<rparr>"

fun first_match :: "pattern option list \<Rightarrow> string \<Rightarrow> string option" where
  "first_match [] buf = None"
| "first_match (None # ps) buf = first_match ps buf"
| "first_match (Some (src, m) # ps) buf = (if m buf then Some src else first_match ps buf)"

text \<open>The error result comes with the body, which has been closed.\<close>

definition BufferAndDecide ::
    "body option \<Rightarrow> string \<Rightarrow> int \<Rightarrow> pattern option list \<Rightarrow> goerr \<times> body + body_decision" where
  "BufferAndDecide body encoding limit patterns =
     (case body of
        None \<Rightarrow> Inr \<lparr>bi_matched = False, bi_pattern = [], bi_skipped = True, bi_replay = passthrough None\<rparr>
      | Some b \<Rightarrow>
          if limit \<le> 0 \<or> patterns = [] then
            Inr \<lparr>bi_matched = False, bi_pattern = [], bi_skipped = True, bi_replay = passthrough body\<rparr>
          else if \<not> isPlainEncoding encoding then
            Inr \<lparr>bi_matched = False, bi_pattern = [], bi_skipped = True, bi_replay = passthrough body\<rparr>
          else
            (let (buf, cs, k) = read_limit (nat limit) (bd_chunks b);
                 b' = b\<lparr>bd_chunks := cs\<rparr>
             in case (if k = 0 then None else bd_end b) of
                  Some err \<Rightarrow> Inl (err, b'\<lparr>bd_closed := True\<rparr>)
                | None \<Rightarrow>
                    (case first_match patterns buf of
                       Some src \<Rightarrow>
                         Inr \<lparr>bi_matched = True, bi_pattern = src, bi_skipped = False, bi_replay = replay buf b'\<rparr>
                     | None \<Rightarrow>
                         Inr \<lparr>bi_matched = False, bi_pattern = [], bi_skipped = False, bi_replay = replay buf b'\<rparr>)))"

text \<open>\<open>replayReader.Read\<close> and \<open>Close\<close>. The reader is only ever built on a body that is there.\<close>

definition replay_read :: "nat \<Rightarrow> replay_reader \<Rightarrow> (string \<times> io_err option) \<times> replay_reader" where
  "replay_read n r =
     (if rr_closed r then (([], Some ErrClosedPipe), r)
      else if rr_prefix r \<noteq> [] then
        ((take n (rr_prefix r), None), r\<lparr>rr_prefix := drop n (rr_prefix r)\<rparr>)
      else (let (res, b) = body_read n (rr_rest r) in (res, r\<lparr>rr_rest := b\<rparr>)))"

definition replay_close :: "replay_reader \<Rightarrow> replay_reader" where
  "replay_close r =
     (if rr_closed r then r
      else r\<lparr>rr_closed := True, rr_rest := (rr_rest r)\<lparr>bd_closed := True\<rparr>\<rparr>)"

subsubsection \<open>Nothing is lost or reordered\<close>

lemma read_limit_spec:
  "read_limit n cs = (b, cs', k) \<Longrightarrow>
     b @ concat cs' = concat cs \<and> length b + k = n \<and> (k > 0 \<longrightarrow> cs' = [])"
proof (induction n cs arbitrary: b cs' k rule: read_limit.induct)
  case (2 n c cs)
  then show ?case by (auto simp: Let_def split: if_splits prod.splits)
qed auto

lemma read_limit_take:
  assumes "read_limit n cs = (b, cs', k)"
  shows "b = take n (concat cs)" and "concat cs' = drop n (concat cs)"
proof -
  have s: "b @ concat cs' = concat cs" "length b + k = n" "k > 0 \<longrightarrow> cs' = []"
    using read_limit_spec [OF assms] by auto
  then show "b = take n (concat cs)" "concat cs' = drop n (concat cs)"
    by (cases "k = 0"; simp add: append_eq_conv_conj)+
qed

fun replay_content :: "replay_body \<Rightarrow> string" where
  "replay_content NoBody = []"
| "replay_content (Passthrough b) = body_content b"
| "replay_content (Replay r) = rr_prefix r @ body_content (rr_rest r)"

definition opt_content :: "body option \<Rightarrow> string" where
  "opt_content b = (case b of None \<Rightarrow> [] | Some b' \<Rightarrow> body_content b')"

text \<open>
  Whatever the decision, the replay holds the upstream's bytes, all of them and in order; a match
  is the first pattern that fires on the first \<open>limit\<close> bytes.
\<close>

lemma BufferAndDecide_replay:
  assumes "BufferAndDecide body encoding limit patterns = Inr d"
  shows "replay_content (bi_replay d) = opt_content body"
proof (cases body)
  case None
  with assms show ?thesis by (auto simp: BufferAndDecide_def passthrough_def opt_content_def)
next
  case (Some b)
  obtain buf cs k where r: "read_limit (nat limit) (bd_chunks b) = (buf, cs, k)"
    by (cases "read_limit (nat limit) (bd_chunks b)") auto
  have "buf @ concat cs = concat (bd_chunks b)" using read_limit_spec [OF r] by simp
  then show ?thesis
    using assms Some r
    by (auto simp: BufferAndDecide_def passthrough_def opt_content_def replay_def body_content_def
        Let_def split: if_splits option.splits)
qed

lemma BufferAndDecide_match:
  assumes "BufferAndDecide (Some b) encoding limit patterns = Inr d"
  shows "bi_skipped d \<longleftrightarrow> limit \<le> 0 \<or> patterns = [] \<or> \<not> isPlainEncoding encoding"
    and "bi_matched d \<longleftrightarrow>
           \<not> bi_skipped d \<and> first_match patterns (take (nat limit) (body_content b)) \<noteq> None"
    and "bi_matched d \<Longrightarrow>
           first_match patterns (take (nat limit) (body_content b)) = Some (bi_pattern d)"
proof -
  obtain buf cs k where r: "read_limit (nat limit) (bd_chunks b) = (buf, cs, k)"
    by (cases "read_limit (nat limit) (bd_chunks b)") auto
  have buf: "take (nat limit) (body_content b) = buf"
    using read_limit_take(1) [OF r] by (simp add: body_content_def)
  show "bi_skipped d \<longleftrightarrow> limit \<le> 0 \<or> patterns = [] \<or> \<not> isPlainEncoding encoding"
    "bi_matched d \<longleftrightarrow>
           \<not> bi_skipped d \<and> first_match patterns (take (nat limit) (body_content b)) \<noteq> None"
    "bi_matched d \<Longrightarrow>
           first_match patterns (take (nat limit) (body_content b)) = Some (bi_pattern d)"
    unfolding buf
    using assms r
    by (auto simp: BufferAndDecide_def Let_def split: if_splits option.splits)
qed

text \<open>The error result: a read error within the first \<open>limit\<close> bytes, and the body is closed.\<close>

lemma BufferAndDecide_error:
  assumes "BufferAndDecide (Some b) encoding limit patterns = Inl (err, b')"
  shows "bd_end b = Some err" and "length (body_content b) < nat limit" and "bd_closed b'"
proof -
  obtain buf cs k where r: "read_limit (nat limit) (bd_chunks b) = (buf, cs, k)"
    by (cases "read_limit (nat limit) (bd_chunks b)") auto
  have "bd_end b = Some err \<and> k > 0 \<and> bd_closed b'"
    using assms r by (auto simp: BufferAndDecide_def Let_def split: if_splits option.splits)
  moreover have "length (body_content b) < nat limit" if "k > 0"
  proof -
    have "concat (bd_chunks b) = buf" "length buf + k = nat limit"
      using that read_limit_spec [OF r] by auto
    then show ?thesis using that by (simp add: body_content_def)
  qed
  ultimately show "bd_end b = Some err" "length (body_content b) < nat limit" "bd_closed b'"
    by auto
qed

lemma body_read_content:
  "body_read n b = ((out, e), b') \<Longrightarrow> out @ body_content b' = body_content b"
  by (auto simp: body_read_def body_content_def split: list.splits if_splits)

lemma replay_read_content:
  assumes "replay_read n r = ((out, e), r')"
  shows "out @ replay_content (Replay r') = replay_content (Replay r)"
  using assms body_read_content
  by (auto simp: replay_read_def Let_def split: if_splits prod.splits)

text \<open>Reads with any buffer sizes; they stop at the first error.\<close>

fun replay_reads :: "nat list \<Rightarrow> replay_reader \<Rightarrow> (string \<times> io_err option) \<times> replay_reader" where
  "replay_reads [] r = (([], None), r)"
| "replay_reads (n # ns) r =
     (case replay_read n r of
        ((out, Some e), r') \<Rightarrow> ((out, Some e), r')
      | ((out, None), r') \<Rightarrow>
          (let ((outs, e), r'') = replay_reads ns r' in ((out @ outs, e), r'')))"

lemma replay_reads_content:
  "replay_reads ns r = ((out, e), r') \<Longrightarrow>
     out @ replay_content (Replay r') = replay_content (Replay r)"
proof (induction ns r arbitrary: out e r' rule: replay_reads.induct)
  case (2 n ns r)
  then show ?case
    using replay_read_content [of n r]
    by (fastforce simp: Let_def simp del: replay_content.simps split: prod.splits option.splits)
qed simp

text \<open>How many reads of positive size a reader can still take before it reports its end.\<close>

definition reads_left :: "replay_reader \<Rightarrow> nat" where
  "reads_left r =
     length (rr_prefix r) + length (bd_chunks (rr_rest r)) + length (concat (bd_chunks (rr_rest r)))"

lemma replay_read_progress:
  assumes "replay_read n r = ((out, None), r')" and "0 < n"
  shows "reads_left r' < reads_left r"
  using assms
  by (auto simp: replay_read_def body_read_def reads_left_def Let_def
      split: if_splits prod.splits list.splits)

lemma replay_read_end:
  assumes "replay_read n r = ((out, Some e), r')" and "\<not> rr_closed r"
  shows "out = []" and "replay_content (Replay r) = []" and "e = end_err (bd_end (rr_rest r))"
  using assms
  by (auto simp: replay_read_def body_read_def body_content_def Let_def
      split: if_splits prod.splits list.splits)

lemma replay_read_frame:
  assumes "replay_read n r = (res, r')"
  shows "rr_closed r' = rr_closed r" and "bd_end (rr_rest r') = bd_end (rr_rest r)"
  using assms
  by (auto simp: replay_read_def body_read_def Let_def split: if_splits prod.splits list.splits)

lemma replay_reads_complete:
  assumes "reads_left r < length ns" and "\<forall>n \<in> set ns. 0 < n" and "\<not> rr_closed r"
  shows "fst (replay_reads ns r) = (replay_content (Replay r), Some (end_err (bd_end (rr_rest r))))"
  using assms
proof (induction ns arbitrary: r)
  case (Cons n ns)
  obtain out e r' where rd: "replay_read n r = ((out, e), r')"
    by (cases "replay_read n r") auto
  show ?case
  proof (cases e)
    case None
    have "reads_left r' < length ns"
      using replay_read_progress [OF rd [unfolded None]] Cons.prems by simp
    then have "fst (replay_reads ns r') =
        (replay_content (Replay r'), Some (end_err (bd_end (rr_rest r'))))"
      using Cons.IH [of r'] Cons.prems replay_read_frame [OF rd] by simp
    then show ?thesis
      using rd None replay_read_content [OF rd] replay_read_frame(2) [OF rd]
      by (cases "replay_reads ns r'") (auto simp: Let_def simp del: replay_content.simps)
  next
    case (Some x)
    with rd replay_read_end [OF rd [unfolded Some]] Cons.prems show ?thesis
      by (simp del: replay_content.simps)
  qed
qed simp

subsection \<open>What callers rely on\<close>

text \<open>
  An accepted \<open>Retry-After\<close> value is a duration that is not negative and fits the type; a number
  of seconds is converted without wrap-around, whatever its size, or refused.
\<close>

theorem ParseRetryAfter_sound:
  assumes "ParseRetryAfter parseTime value now = Some d"
  shows "0 \<le> d \<and> d \<le> max_int64 \<and>
         (\<forall>secs. parse_int (trim_space value) = Some secs \<longrightarrow>
            0 \<le> secs \<and> secs \<le> maxRetryAfterSeconds \<and> d = secs * second)"
proof -
  have "trim_space value \<noteq> []" using assms by (auto simp: ParseRetryAfter_def)
  then show ?thesis
    using assms ParseRetryAfter_range [OF assms] ParseRetryAfter_seconds [of "value"]
    by (auto split: if_splits)
qed

text \<open>
  C22: whatever the inspection decides, a client that keeps reading gets the upstream's body, every
  byte in order and no byte twice, then the upstream's own end of stream or error; and the decision
  is a match exactly when a pattern fires on the first \<open>limit\<close> bytes of an inspected body.
\<close>

theorem BufferAndDecide_transparent:
  assumes "BufferAndDecide (Some b) encoding limit patterns = Inr d" and "\<not> bd_closed b"
  shows "replay_content (bi_replay d) = body_content b \<and>
         (\<forall>r ns. bi_replay d = Replay r \<longrightarrow> reads_left r < length ns \<longrightarrow> (\<forall>n \<in> set ns. 0 < n) \<longrightarrow>
            fst (replay_reads ns r) = (body_content b, Some (end_err (bd_end b)))) \<and>
         (bi_skipped d \<longleftrightarrow> limit \<le> 0 \<or> patterns = [] \<or> \<not> isPlainEncoding encoding) \<and>
         (bi_matched d \<longleftrightarrow>
            \<not> bi_skipped d \<and> first_match patterns (take (nat limit) (body_content b)) \<noteq> None)"
proof -
  have c: "replay_content (bi_replay d) = body_content b"
    using BufferAndDecide_replay [OF assms(1)] by (simp add: opt_content_def)
  have "\<not> rr_closed r \<and> bd_end (rr_rest r) = bd_end b" if "bi_replay d = Replay r" for r
    using assms that
    by (auto simp: BufferAndDecide_def passthrough_def replay_def Let_def
        split: if_splits option.splits prod.splits)
  then have "fst (replay_reads ns r) = (body_content b, Some (end_err (bd_end b)))"
    if "bi_replay d = Replay r" "reads_left r < length ns" "\<forall>n \<in> set ns. 0 < n" for r ns
    using replay_reads_complete [OF that(2,3)] c that(1) by simp
  then show ?thesis
    using c BufferAndDecide_match(1,2) [OF assms(1)] by blast
qed

end
