(* ===== verification/Upstream.thy ===== *)
theory Upstream
  imports Failure
begin

text \<open>
  \<open>internal/upstream/upstream.go\<close> and \<open>pool.go\<close>: the three egress kinds, the HTTP CONNECT handshake
  as a trace of what it does to the connection, and the static priority pool with its retry loop.
  What the network answers is an input of each dial.
\<close>

subsection \<open>base64\<close>

definition b64_alphabet :: string where
  "b64_alphabet = ''ABCDEFGHIJKLMNOPQRSTUVWXYZabcdefghijklmnopqrstuvwxyz0123456789+/''"

definition b64_char :: "nat \<Rightarrow> char" where
  "b64_char n = b64_alphabet ! n"

fun b64_encode :: "nat list \<Rightarrow> string" where
  "b64_encode [] = []"
| "b64_encode [a] = [b64_char (a div 4), b64_char (a mod 4 * 16), CHR ''='', CHR ''='']"
| "b64_encode [a, b] =
     [b64_char (a div 4), b64_char (a mod 4 * 16 + b div 16), b64_char (b mod 16 * 4), CHR ''='']"
| "b64_encode (a # b # c # rest) =
     b64_char (a div 4) # b64_char (a mod 4 * 16 + b div 16) #
     b64_char (b mod 16 * 4 + c div 64) # b64_char (c mod 64) # b64_encode rest"

definition bytes_of :: "string \<Rightarrow> nat list" where
  "bytes_of s = map of_char s"

definition basicAuthHeader :: "string \<Rightarrow> string \<Rightarrow> string" where
  "basicAuthHeader user pass =
     (if user = [] then [] else ''Basic '' @ b64_encode (bytes_of (user @ '':'' @ pass)))"

subsection \<open>Upstreams\<close>

record upstream =
  up_id :: string
  up_kind :: string
  up_addr :: string
  up_auth_value :: string             \<comment> \<open>the http upstream's header value, empty for none\<close>
  up_socks_auth :: "(string \<times> string) option"
  up_timeout :: duration

definition newDirect :: "upstream_config \<Rightarrow> duration \<Rightarrow> upstream" where
  "newDirect cfg timeout =
     \<lparr>up_id = uc_id cfg, up_kind = KindDirect, up_addr = [], up_auth_value = [],
      up_socks_auth = None, up_timeout = timeout\<rparr>"

definition newHTTP :: "upstream_config \<Rightarrow> duration \<Rightarrow> upstream" where
  "newHTTP cfg timeout =
     \<lparr>up_id = uc_id cfg, up_kind = KindHTTP, up_addr = uc_addr cfg,
      up_auth_value = basicAuthHeader (uc_username cfg) (uc_password cfg),
      up_socks_auth = None, up_timeout = timeout\<rparr>"

text \<open>The SOCKS5 dialer comes from \<open>x/net/proxy\<close>; the parameter is the error of its constructor.\<close>

definition newSOCKS5 ::
    "(upstream_config \<Rightarrow> goerr option) \<Rightarrow> upstream_config \<Rightarrow> duration \<Rightarrow> goerr + upstream" where
  "newSOCKS5 buildErr cfg timeout =
     (case buildErr cfg of
        Some e \<Rightarrow> Inl (errorf_w ''build socks5 dialer'' e)
      | None \<Rightarrow>
          Inr \<lparr>up_id = uc_id cfg, up_kind = KindSOCKS5, up_addr = uc_addr cfg, up_auth_value = [],
            up_socks_auth =
              (if uc_username cfg \<noteq> [] then Some (uc_username cfg, uc_password cfg) else None),
            up_timeout = timeout\<rparr>)"

definition upstream_New ::
    "(upstream_config \<Rightarrow> goerr option) \<Rightarrow> upstream_config \<Rightarrow> duration \<Rightarrow> goerr + upstream" where
  "upstream_New buildErr cfg timeout =
     (if timeout \<le> 0 then Inl (errorf ''timeout must be > 0'')
      else if uc_kind cfg = KindDirect then Inr (newDirect cfg timeout)
      else if uc_kind cfg = KindHTTP then Inr (newHTTP cfg timeout)
      else if uc_kind cfg = KindSOCKS5 then newSOCKS5 buildErr cfg timeout
      else if uc_kind cfg = [] then Inl (errorf ''kind is required'')
      else Inl (errorf ''unknown kind''))"

lemma upstream_New_id: "upstream_New b cfg t = Inr u \<Longrightarrow> up_id u = uc_id cfg \<and> up_kind u = uc_kind cfg"
  by (auto simp: upstream_New_def newDirect_def newHTTP_def newSOCKS5_def
      split: if_splits option.splits)

lemma upstream_New_ok:
  assumes "wf_upstream cfg" and "0 < t" and "b cfg = None"
  shows "is_ok (upstream_New b cfg t)"
  using assms
  by (auto simp: upstream_New_def newSOCKS5_def wf_upstream_def split: if_splits option.splits)

subsection \<open>The CONNECT handshake\<close>

datatype conn_event =
    DialTCP string
  | SetDeadline "time option"
  | WriteConnect string header
  | CloseBody
  | CloseConn

text \<open>
  What the network and the context answer: the TCP dial, the context's deadline or the clock, the
  write, the response's status, and whether bytes beyond the response were buffered.
\<close>

record connect_env =
  ce_dial :: "goerr option"
  ce_deadline :: "time option"
  ce_now :: time
  ce_write :: "goerr option"
  ce_response :: "goerr + int"
  ce_buffered :: bool

text \<open>On success the flag says whether the connection is wrapped in a \<open>bufferedConn\<close>.\<close>

definition http_Dial ::
    "upstream \<Rightarrow> string \<Rightarrow> string \<Rightarrow> connect_env \<Rightarrow> (goerr + bool) \<times> conn_event list" where
  "http_Dial u network addr env =
     (if network \<noteq> ''tcp'' \<and> network \<noteq> ''tcp4'' \<and> network \<noteq> ''tcp6'' then
        (Inl (errorf ''unsupported network''), [])
      else
        (case ce_dial env of
           Some e \<Rightarrow> (Inl (errorf_w ''dial proxy'' e), [DialTCP (up_addr u)])
         | None \<Rightarrow>
             (let dl = (case ce_deadline env of
                          Some d \<Rightarrow> d | None \<Rightarrow> time_add (ce_now env) (up_timeout u));
                  hdr = (if up_auth_value u \<noteq> [] then
                           header_set fmempty ''Proxy-Authorization'' (up_auth_value u)
                         else fmempty);
                  tr = [DialTCP (up_addr u), SetDeadline (Some dl), WriteConnect addr hdr]
              in case ce_write env of
                   Some e \<Rightarrow> (Inl (errorf_w ''write CONNECT'' e), tr @ [CloseConn])
                 | None \<Rightarrow>
                     (case ce_response env of
                        Inl e \<Rightarrow> (Inl (errorf_w ''read CONNECT response'' e), tr @ [CloseConn])
                      | Inr status \<Rightarrow>
                          if status < 200 \<or> 300 \<le> status then
                            (Inl (if status = 407 then
                                    errorf_w ''CONNECT got status 407'' (ErrLeaf ErrProxyAuth None)
                                  else errorf (''CONNECT got status '' @ itoa status)),
                             tr @ [CloseBody, CloseConn])
                          else
                            (Inr (ce_buffered env), tr @ [CloseBody, SetDeadline None])))))"

text \<open>
  Every connection the CONNECT handshake opened is either handed out with its deadline cleared,
  or closed as the last thing done.
\<close>

theorem http_Dial_no_leak:
  assumes "http_Dial u network addr env = (res, tr)"
    and "DialTCP (up_addr u) \<in> set tr" and "ce_dial env = None"
  shows "(isl res \<longrightarrow> tr \<noteq> [] \<and> last tr = CloseConn) \<and>
         (is_ok res \<longrightarrow> CloseConn \<notin> set tr \<and> last tr = SetDeadline None)"
  using assms
  by (auto simp: http_Dial_def Let_def split: if_splits option.splits sum.splits)

text \<open>
  The credential signal: the dial of a proxy that answers is classified as a credential failure
  for status 407, as refused for every other status outside 200-299, and is no failure inside.
\<close>

theorem http_Dial_407:
  assumes "network = ''tcp''" and "ce_dial env = None" and "ce_write env = None"
    and "ce_response env = Inr status"
  shows "ClassifyDialError
           (case fst (http_Dial u network addr env) of Inl e \<Rightarrow> Some e | Inr _ \<Rightarrow> None) =
         (if 200 \<le> status \<and> status < 300 then '''' else if status = 407 then KindProxyAuth else KindRefused)"
  using assms
  by (auto simp: http_Dial_def Let_def ClassifyDialError_def IsTimeout_def IsConnectionRefused_def
      errorf_def errorf_w_def)

lemma canonical_proxy_authorization:
  "canonical_key ''Proxy-Authorization'' = ''Proxy-Authorization''"
  by code_simp

text \<open>The credentials go out exactly when a username is configured.\<close>

lemma http_Dial_auth:
  assumes "WriteConnect target hdr \<in> set (snd (http_Dial (newHTTP cfg timeout) network addr env))"
  shows "target = addr" and
    "header_get hdr ''Proxy-Authorization'' = basicAuthHeader (uc_username cfg) (uc_password cfg)"
  using assms
  by (auto simp: http_Dial_def newHTTP_def Let_def header_get_def header_values_def header_set_def
      split: if_splits option.splits sum.splits)

subsection \<open>pool.go\<close>

record pool_entry =
  pe_up :: upstream
  pe_priority :: int

record pool =
  pl_entries :: "pool_entry list"
  pl_retry_cap :: int

abbreviation pe_id :: "pool_entry \<Rightarrow> string" where
  "pe_id e \<equiv> up_id (pe_up e)"

text \<open>The input entries may hold a nil upstream, which is refused.\<close>

definition NewPool :: "(upstream option \<times> int) list \<Rightarrow> int \<Rightarrow> goerr + pool" where
  "NewPool entries retryCap =
     (if entries = [] then Inl (errorf ''pool: at least one upstream required'')
      else if retryCap < 1 then Inl (errorf ''pool: retry cap must be >= 1'')
      else if \<exists>e \<in> set entries. fst e = None then Inl (errorf ''pool: nil upstream'')
      else Inr \<lparr>pl_entries =
             slice_sort (\<lambda>a b. pe_priority a < pe_priority b)
               (map (\<lambda>(u, p). \<lparr>pe_up = the u, pe_priority = p\<rparr>) entries),
             pl_retry_cap = retryCap\<rparr>)"

definition pool_Len :: "pool \<Rightarrow> nat" where "pool_Len p = length (pl_entries p)"
definition IDs :: "pool \<Rightarrow> string list" where "IDs p = map pe_id (pl_entries p)"
definition Entries :: "pool \<Rightarrow> pool_entry list" where "Entries p = pl_entries p"
definition RetryCap :: "pool \<Rightarrow> int" where "RetryCap p = pl_retry_cap p"

text \<open>What every pool the program holds satisfies, besides distinct ids, which \<open>main\<close> checks.\<close>

definition pool_wf :: "pool \<Rightarrow> bool" where
  "pool_wf p \<longleftrightarrow> pl_entries p \<noteq> [] \<and> 1 \<le> pl_retry_cap p \<and> sorted (map pe_priority (pl_entries p))"

lemma NewPool_spec:
  assumes "NewPool entries cap = Inr p"
  shows "pool_wf p" and "pl_retry_cap p = cap"
    and "pl_entries p = sort_key pe_priority (map (\<lambda>(u, q). \<lparr>pe_up = the u, pe_priority = q\<rparr>) entries)"
proof -
  let ?es = "map (\<lambda>(u, q). \<lparr>pe_up = the u, pe_priority = q\<rparr>) entries"
  have p: "entries \<noteq> []" "1 \<le> cap"
      "p = \<lparr>pl_entries = slice_sort (\<lambda>a b. pe_priority a < pe_priority b) ?es, pl_retry_cap = cap\<rparr>"
    using assms by (auto simp: NewPool_def split: if_splits)
  then show "pl_retry_cap p = cap" and e: "pl_entries p = sort_key pe_priority ?es"
    by (simp_all add: slice_sort_key)
  have "pl_entries p \<noteq> []" using p by simp
  moreover have "sorted (map pe_priority (pl_entries p))" unfolding e by simp
  ultimately show "pool_wf p" using p by (simp add: pool_wf_def)
qed

lemma NewPool_ok_iff:
  "is_ok (NewPool entries cap) \<longleftrightarrow> entries \<noteq> [] \<and> 1 \<le> cap \<and> (\<forall>e \<in> set entries. fst e \<noteq> None)"
  by (auto simp: NewPool_def)

lemma NewPool_ids:
  assumes "NewPool entries cap = Inr p"
  shows "mset (IDs p) = mset (map (\<lambda>(u, q). up_id (the u)) entries)"
  using NewPool_spec(3) [OF assms]
  by (simp add: IDs_def case_prod_unfold comp_def image_mset.compositionality)

definition hostOnly :: "string \<Rightarrow> string" where
  "hostOnly addr = (case split_host_port addr of Inr (h, _) \<Rightarrow> h | Inl _ \<Rightarrow> addr)"

lemma hostOnly_join: "plain_host h \<Longrightarrow> plain_port p \<Longrightarrow> hostOnly (join_host_port h p) = h"
  by (simp add: hostOnly_def split_join_host_port)

definition classifyKind :: "goerr \<Rightarrow> string" where
  "classifyKind err =
     (if IsConnectionRefused (Some err) then ''refused''
      else if IsTimeout (Some err) then ''timeout''
      else ''other'')"

text \<open>One log line per dial: upstream, attempt number, and the kind of a failure.\<close>

record dial_log =
  dg_id :: string
  dg_host :: string
  dg_attempt :: nat
  dg_failure :: "string option"

text \<open>
  The loop of \<open>Pool.DialFor\<close>: \<open>ctxErr n\<close> is \<open>ctx.Err()\<close> before the dial that follows \<open>n\<close> dials, \<open>dial n u\<close> the
  outcome of that dial. The entries still to try are the list argument, so the index bound is its
  length; the error of a loop that ends carries the joined attempt errors.
\<close>

fun pool_dial_loop ::
    "(nat \<Rightarrow> goerr option) \<Rightarrow> (nat \<Rightarrow> upstream \<Rightarrow> goerr + 'c) \<Rightarrow> string \<Rightarrow>
     pool_entry list \<Rightarrow> nat \<Rightarrow> goerr list \<Rightarrow> (goerr + 'c \<times> string) \<times> dial_log list" where
  "pool_dial_loop ctxErr dial host [] attempts errs =
     (Inl (errorf_w_opt ''pool: all upstreams failed'' (errors_join errs)), [])"
| "pool_dial_loop ctxErr dial host (e # es) attempts errs =
     (case ctxErr attempts of
        Some err \<Rightarrow>
          if attempts = 0 then
            (Inl (errorf_w ''pool: context canceled before any upstream was tried'' err), [])
          else
            (Inl (errorf_w_opt ''pool: dial canceled''
                    (errors_join (errs @ [errorf_w ''context canceled'' err]))), [])
      | None \<Rightarrow>
          (case dial attempts (pe_up e) of
             Inr conn \<Rightarrow>
               (Inr (conn, pe_id e),
                [\<lparr>dg_id = pe_id e, dg_host = host, dg_attempt = Suc attempts, dg_failure = None\<rparr>])
           | Inl err \<Rightarrow>
               (let (r, logs) = pool_dial_loop ctxErr dial host es (Suc attempts)
                                  (errs @ [errorf_w (pe_id e) err])
                in (r, \<lparr>dg_id = pe_id e, dg_host = host, dg_attempt = Suc attempts,
                        dg_failure = Some (classifyKind err)\<rparr> # logs))))"

definition pool_DialFor ::
    "(nat \<Rightarrow> goerr option) \<Rightarrow> (nat \<Rightarrow> upstream \<Rightarrow> goerr + 'c) \<Rightarrow> pool \<Rightarrow> string \<Rightarrow>
     (goerr + 'c \<times> string) \<times> dial_log list" where
  "pool_DialFor ctxErr dial p addr =
     (let limit = (if int (length (pl_entries p)) < pl_retry_cap p
                   then int (length (pl_entries p)) else pl_retry_cap p)
      in pool_dial_loop ctxErr dial (hostOnly addr) (take (nat limit) (pl_entries p)) 0 [])"

text \<open>The dials are the first entries in priority order, at most the cap, each once.\<close>

lemma pool_dial_loop_prefix:
  assumes "pool_dial_loop ctxErr dial host es n errs = (r, logs)"
  shows "length logs \<le> length es" and "map dg_id logs = map pe_id (take (length logs) es)"
  using assms
proof (induction es arbitrary: n errs r logs)
  case (Cons e es)
  { case 1 then show ?case using Cons.IH(1) by (auto simp: Let_def split: if_splits option.splits sum.splits prod.splits) }
  { case 2 then show ?case using Cons.IH(2) by (auto simp: Let_def split: if_splits option.splits sum.splits prod.splits) }
qed auto

lemma pool_DialFor_attempts:
  assumes "pool_DialFor ctxErr dial p addr = (r, logs)"
  shows "map dg_id logs = take (length logs) (IDs p)"
    and "int (length logs) \<le> max 0 (pl_retry_cap p)"
proof -
  let ?limit = "if int (length (pl_entries p)) < pl_retry_cap p
                then int (length (pl_entries p)) else pl_retry_cap p"
  have l: "pool_dial_loop ctxErr dial (hostOnly addr) (take (nat ?limit) (pl_entries p)) 0 [] = (r, logs)"
    using assms by (simp add: pool_DialFor_def Let_def)
  have n: "length logs \<le> nat ?limit" using pool_dial_loop_prefix(1) [OF l] by simp
  then show "map dg_id logs = take (length logs) (IDs p)"
    using pool_dial_loop_prefix(2) [OF l] by (simp add: IDs_def take_map min_absorb1)
  show "int (length logs) \<le> max 0 (pl_retry_cap p)"
    using n by (auto split: if_splits)
qed

text \<open>With no cancellation: the first upstream of the order that answers serves the request.\<close>

lemma pool_dial_loop_result:
  assumes "\<And>k. ctxErr k = None"
  shows "fst (pool_dial_loop ctxErr dial host es n errs) = Inr (conn, uid) \<longleftrightarrow>
           (\<exists>i < length es. dial (n + i) (pe_up (es ! i)) = Inr conn \<and> pe_id (es ! i) = uid \<and>
              (\<forall>j < i. isl (dial (n + j) (pe_up (es ! j)))))"
proof (induction es arbitrary: n errs)
  case (Cons e es)
  show ?case
    using Cons.IH [of "Suc n"] assms
    by (cases "dial n (pe_up e)") (simp_all add: Let_def split_beta Ex_less_Suc2 All_less_Suc2)
qed simp

subsection \<open>What callers rely on\<close>

text \<open>
  A pool that \<open>NewPool\<close> builds holds exactly the entries it was given, in ascending priority and,
  within one priority, in the order they were given.
\<close>

theorem NewPool_sorts:
  assumes "NewPool entries cap = Inr p"
  shows "pl_retry_cap p = cap \<and> pl_entries p \<noteq> [] \<and> sorted (map pe_priority (pl_entries p)) \<and>
         mset (IDs p) = mset (map (\<lambda>(u, q). up_id (the u)) entries) \<and>
         (\<forall>k. filter (\<lambda>e. pe_priority e = k) (pl_entries p) =
                filter (\<lambda>e. pe_priority e = k) (map (\<lambda>(u, q). \<lparr>pe_up = the u, pe_priority = q\<rparr>) entries))"
proof -
  have "[e\<leftarrow>sort_key f xs. f e = k] = [e\<leftarrow>xs. f e = k]" for f :: "pool_entry \<Rightarrow> int" and xs k
    by (rule sort_key_stable)
  then show ?thesis
    using NewPool_spec [OF assms] NewPool_ids [OF assms] by (simp add: pool_wf_def)
qed

text \<open>
  The plain pool dials its upstreams in priority order, each at most once and no more than the
  retry cap, and without cancellation serves the request by the first one that answers.
\<close>

theorem pool_DialFor_in_order:
  assumes "pool_DialFor ctxErr dial p addr = (r, logs)"
  shows "map dg_id logs = take (length logs) (IDs p) \<and> int (length logs) \<le> max 0 (pl_retry_cap p) \<and>
         ((\<forall>k. ctxErr k = None) \<longrightarrow>
            (r = Inr (conn, uid) \<longleftrightarrow>
               (\<exists>i < length (pl_entries p). int i < pl_retry_cap p \<and> dial i (pe_up (pl_entries p ! i)) = Inr conn \<and>
                  pe_id (pl_entries p ! i) = uid \<and> (\<forall>j < i. isl (dial j (pe_up (pl_entries p ! j)))))))"
proof -
  let ?es = "take (nat (min (int (length (pl_entries p))) (pl_retry_cap p))) (pl_entries p)"
  have "fst (pool_DialFor ctxErr dial p addr) = fst (pool_dial_loop ctxErr dial (hostOnly addr) ?es 0 [])"
    by (simp add: pool_DialFor_def Let_def min_def)
  then have r: "r = fst (pool_dial_loop ctxErr dial (hostOnly addr) ?es 0 [])"
    using assms by simp
  have "r = Inr (conn, uid) \<longleftrightarrow>
      (\<exists>i < length ?es. dial i (pe_up (?es ! i)) = Inr conn \<and> pe_id (?es ! i) = uid \<and>
         (\<forall>j < i. isl (dial j (pe_up (?es ! j)))))" if "\<forall>k. ctxErr k = None"
    using pool_dial_loop_result [of ctxErr dial "hostOnly addr" ?es 0 "[]" conn uid] that r by simp
  moreover have "i < length ?es \<longleftrightarrow> i < length (pl_entries p) \<and> int i < pl_retry_cap p" for i
    by auto
  ultimately have "r = Inr (conn, uid) \<longleftrightarrow>
      (\<exists>i < length (pl_entries p). int i < pl_retry_cap p \<and> dial i (pe_up (pl_entries p ! i)) = Inr conn \<and>
         pe_id (pl_entries p ! i) = uid \<and> (\<forall>j < i. isl (dial j (pe_up (pl_entries p ! j)))))"
    if "\<forall>k. ctxErr k = None"
    using that by (auto simp: min_def)
  then show ?thesis using pool_DialFor_attempts [OF assms] by blast
qed

end
