(* ===== verification/Rules.thy ===== *)
theory Rules
  imports Upstream
begin

text \<open>
  \<open>internal/upstream/rules.go\<close>: compiled host rules, first match wins, and the check of the ids they
  prefer. The regular-expression compiler is a parameter.
\<close>

record rule =
  ru_glob :: string
  ru_prefer :: "string list"
  ru_prefer_rank :: "(string, nat) fmap"
  ru_force :: bool
  ru_body_regex :: "pattern list"

type_synonym rule_set = "rule list"

definition HasBodyRegex :: "rule option \<Rightarrow> bool" where
  "HasBodyRegex r = (case r of None \<Rightarrow> False | Some r' \<Rightarrow> ru_body_regex r' \<noteq> [])"

text \<open>\<open>Rule.Patterns\<close>: the compiled patterns boxed for \<open>BufferAndDecide\<close>.\<close>

definition Patterns :: "rule option \<Rightarrow> pattern option list" where
  "Patterns r = (case r of None \<Rightarrow> [] | Some r' \<Rightarrow> map Some (ru_body_regex r'))"

definition MatchBody :: "rule option \<Rightarrow> string \<Rightarrow> bool \<times> string" where
  "MatchBody r buf =
     (case r of
        None \<Rightarrow> (False, [])
      | Some r' \<Rightarrow>
          (case find (\<lambda>(src, m). m buf) (ru_body_regex r') of
             Some (src, _) \<Rightarrow> (True, src)
           | None \<Rightarrow> (False, [])))"

text \<open>Positions from 1; a repeated id keeps its first.\<close>

fun add_prefer_ranks :: "nat \<Rightarrow> string list \<Rightarrow> (string, nat) fmap \<Rightarrow> (string, nat) fmap" where
  "add_prefer_ranks j [] m = m"
| "add_prefer_ranks j (uid # ids) m =
     add_prefer_ranks (Suc j) ids
       (case fmlookup m uid of Some _ \<Rightarrow> m | None \<Rightarrow> fmupd uid (j + 1) m)"

definition compile_pattern :: "regex_compile \<Rightarrow> string \<Rightarrow> goerr + pattern" where
  "compile_pattern re pat =
     (if pat = [] then Inl (errorf ''rules: body_regex is empty'')
      else (case re pat of
              None \<Rightarrow> Inl (errorf ''rules: body_regex'')
            | Some m \<Rightarrow> Inr (pat, m)))"

definition compile_rule :: "regex_compile \<Rightarrow> rule_config \<Rightarrow> goerr + rule" where
  "compile_rule re c =
     (if rc_host_glob c = [] then Inl (errorf ''rules: empty host_glob'')
      else if path_match (rc_host_glob c) [] = None then Inl (errorf ''rules: syntax error in pattern'')
      else if rc_prefer c = [] then Inl (errorf ''rules: prefer must list at least one upstream id'')
      else
        (case map_result (compile_pattern re) (rc_body_regex c) of
           Inl e \<Rightarrow> Inl e
         | Inr compiled \<Rightarrow>
             Inr \<lparr>ru_glob = to_lower (rc_host_glob c), ru_prefer = rc_prefer c,
               ru_prefer_rank = add_prefer_ranks 0 (rc_prefer c) fmempty,
               ru_force = rc_force c, ru_body_regex = compiled\<rparr>))"

definition NewRuleSet :: "regex_compile \<Rightarrow> rule_config list \<Rightarrow> goerr + rule_set" where
  "NewRuleSet re cfgs = map_result (compile_rule re) cfgs"

text \<open>None is the nil rule; a malformed glob never matches.\<close>

definition glob_matches :: "string \<Rightarrow> string \<Rightarrow> bool" where
  "glob_matches glob h = (case path_match glob h of Some ok \<Rightarrow> ok | None \<Rightarrow> False)"

definition rules_Match :: "rule_set \<Rightarrow> string \<Rightarrow> rule option" where
  "rules_Match rs host = find (\<lambda>r. glob_matches (ru_glob r) (to_lower host)) rs"

fun check_prefer_from :: "string fset \<Rightarrow> nat \<Rightarrow> rule_set \<Rightarrow> (nat \<times> string) list" where
  "check_prefer_from known i [] = []"
| "check_prefer_from known i (r # rs) =
     map (Pair i) (filter (\<lambda>uid. uid |\<notin>| known) (ru_prefer r)) @ check_prefer_from known (Suc i) rs"

definition CheckPreferIDs :: "string fset \<Rightarrow> rule_set \<Rightarrow> (nat \<times> string) list" where
  "CheckPreferIDs known rs = check_prefer_from known 0 rs"

subsection \<open>Compilation\<close>

lemma add_prefer_ranks_lookup:
  "fmlookup (add_prefer_ranks j ids m) uid =
     (case fmlookup m uid of
        Some n \<Rightarrow> Some n
      | None \<Rightarrow>
          if uid \<in> set ids then Some (j + 1 + length (takeWhile (\<lambda>x. x \<noteq> uid) ids)) else None)"
  by (induction j ids m rule: add_prefer_ranks.induct) (auto split: option.splits)

lemma compile_rule_fields:
  assumes "compile_rule re c = Inr r"
  shows "ru_glob r = to_lower (rc_host_glob c)" "ru_prefer r = rc_prefer c" "rc_prefer c \<noteq> []"
    "ru_force r = rc_force c" "ru_prefer_rank r = add_prefer_ranks 0 (rc_prefer c) fmempty"
    "parse_glob (rc_host_glob c) \<noteq> None" "map fst (ru_body_regex r) = rc_body_regex c"
proof -
  show "ru_glob r = to_lower (rc_host_glob c)" "ru_prefer r = rc_prefer c" "rc_prefer c \<noteq> []"
    "ru_force r = rc_force c" "ru_prefer_rank r = add_prefer_ranks 0 (rc_prefer c) fmempty"
    "parse_glob (rc_host_glob c) \<noteq> None"
    using assms by (auto simp: compile_rule_def path_match_bad_iff split: if_splits sum.splits)
  have "map_result (compile_pattern re) (rc_body_regex c) = Inr (ru_body_regex r)"
    using assms by (auto simp: compile_rule_def split: if_splits sum.splits)
  moreover have "fst y = id x" if "compile_pattern re x = Inr y" for x y
    using that by (auto simp: compile_pattern_def split: if_splits option.splits)
  ultimately have "map fst (ru_body_regex r) = map id (rc_body_regex c)"
    by (rule map_result_map)
  then show "map fst (ru_body_regex r) = rc_body_regex c" by simp
qed

definition rule_wf :: "rule \<Rightarrow> bool" where
  "rule_wf r \<longleftrightarrow>
     ru_prefer r \<noteq> [] \<and> parse_glob (ru_glob r) \<noteq> None \<and> to_lower (ru_glob r) = ru_glob r \<and>
     (\<forall>uid n. fmlookup (ru_prefer_rank r) uid = Some n \<longrightarrow> n > 0) \<and>
     fset (fmdom (ru_prefer_rank r)) = set (ru_prefer r)"

lemma prefer_rank_range:
  "fmlookup (add_prefer_ranks j ids fmempty) uid = Some n \<Longrightarrow> j < n \<and> n \<le> j + length ids \<and> uid \<in> set ids"
proof -
  assume "fmlookup (add_prefer_ranks j ids fmempty) uid = Some n"
  then have n: "uid \<in> set ids" "n = j + 1 + length (takeWhile (\<lambda>x. x \<noteq> uid) ids)"
    by (auto simp: add_prefer_ranks_lookup split: if_splits)
  have "length (takeWhile (\<lambda>x. x \<noteq> uid) ids) < length ids"
    using n(1) by (induction ids) auto
  with n show ?thesis by simp
qed

lemma prefer_rank_dom: "fset (fmdom (add_prefer_ranks j ids fmempty)) = set ids"
  by (auto simp: fmlookup_dom_iff add_prefer_ranks_lookup split: if_splits)

lemma compile_rule_wf: "compile_rule re c = Inr r \<Longrightarrow> rule_wf r"
  using compile_rule_fields [of re c r] prefer_rank_range [of 0 "rc_prefer c"]
  by (auto simp: rule_wf_def parse_glob_lower prefer_rank_dom)

theorem NewRuleSet_wf:
  assumes "NewRuleSet re cfgs = Inr rs"
  shows "\<forall>r \<in> set rs. rule_wf r" and "map ru_prefer rs = map rc_prefer cfgs"
proof -
  have l: "list_all2 (\<lambda>c r. compile_rule re c = Inr r) cfgs rs"
    using assms by (simp add: NewRuleSet_def map_result_Inr_iff)
  then show "\<forall>r \<in> set rs. rule_wf r"
    by (auto simp: list_all2_conv_all_nth in_set_conv_nth) (metis compile_rule_wf)
  show "map ru_prefer rs = map rc_prefer cfgs"
    using assms compile_rule_fields(2) unfolding NewRuleSet_def by (rule map_result_map)
qed

text \<open>What \<open>Validate\<close> accepts, \<open>NewRuleSet\<close> compiles.\<close>

lemma wf_rule_compiles: "wf_rule re ids c \<Longrightarrow> is_ok (compile_rule re c)"
proof -
  assume w: "wf_rule re ids c"
  then have "is_ok (map_result (compile_pattern re) (rc_body_regex c))"
    by (auto simp: map_result_ok_iff wf_rule_def list_all_iff compile_pattern_def)
  then obtain ps where "map_result (compile_pattern re) (rc_body_regex c) = Inr ps"
    by (cases "map_result (compile_pattern re) (rc_body_regex c)") auto
  with w show ?thesis by (auto simp: compile_rule_def wf_rule_def path_match_bad_iff)
qed

lemma NewRuleSet_total: "list_all (wf_rule re ids) cfgs \<Longrightarrow> is_ok (NewRuleSet re cfgs)"
  by (auto simp: NewRuleSet_def map_result_ok_iff list_all_iff wf_rule_compiles)

subsection \<open>Matching\<close>

text \<open>First match wins, whatever the case of the host.\<close>

lemma rules_Match_first:
  "rules_Match rs host = Some r \<longleftrightarrow>
     (\<exists>before rest. rs = before @ r # rest \<and> glob_matches (ru_glob r) (to_lower host) \<and>
        (\<forall>q \<in> set before. \<not> glob_matches (ru_glob q) (to_lower host)))"
proof
  assume "rules_Match rs host = Some r"
  then obtain i where i: "i < length rs" "glob_matches (ru_glob (rs ! i)) (to_lower host)" "r = rs ! i"
      "\<forall>j < i. \<not> glob_matches (ru_glob (rs ! j)) (to_lower host)"
    by (auto simp: rules_Match_def find_Some_iff)
  then have "rs = take i rs @ r # drop (Suc i) rs" by (simp add: id_take_nth_drop)
  with i show "\<exists>before rest. rs = before @ r # rest \<and> glob_matches (ru_glob r) (to_lower host) \<and>
        (\<forall>q \<in> set before. \<not> glob_matches (ru_glob q) (to_lower host))"
    by (metis in_set_conv_nth length_take min.absorb4 nth_take)
next
  assume "\<exists>before rest. rs = before @ r # rest \<and> glob_matches (ru_glob r) (to_lower host) \<and>
        (\<forall>q \<in> set before. \<not> glob_matches (ru_glob q) (to_lower host))"
  then obtain before rest where s: "rs = before @ r # rest" "glob_matches (ru_glob r) (to_lower host)"
      "\<forall>q \<in> set before. \<not> glob_matches (ru_glob q) (to_lower host)" by blast
  have "find P (before @ r # rest) = Some r" if "P r" "\<forall>q \<in> set before. \<not> P q" for P
    using that by (induction before) auto
  with s show "rules_Match rs host = Some r" by (simp add: rules_Match_def)
qed

lemma rules_Match_in: "rules_Match rs host = Some r \<Longrightarrow> r \<in> set rs"
  by (auto simp: rules_Match_first)

lemma rules_Match_lower: "rules_Match rs (to_lower host) = rules_Match rs host"
  by (simp add: rules_Match_def)

text \<open>A compiled rule is never skipped for a malformed glob.\<close>

lemma compiled_glob_never_bad: "rule_wf r \<Longrightarrow> path_match (ru_glob r) h \<noteq> None"
  by (simp add: rule_wf_def path_match_bad_iff)

lemma check_prefer_from_Nil:
  "check_prefer_from known i rs = [] \<longleftrightarrow> (\<forall>r \<in> set rs. set (ru_prefer r) \<subseteq> fset known)"
  by (induction rs arbitrary: i) (auto simp: filter_empty_conv)

lemma CheckPreferIDs_Nil:
  "CheckPreferIDs known rs = [] \<longleftrightarrow> (\<forall>r \<in> set rs. set (ru_prefer r) \<subseteq> fset known)"
  by (simp add: CheckPreferIDs_def check_prefer_from_Nil)

text \<open>\<open>MatchBody\<close> and \<open>BufferAndDecide\<close> see the same pattern.\<close>

lemma first_match_Patterns:
  "first_match (map Some ps) buf = map_option fst (find (\<lambda>(src, m). m buf) ps)"
  by (induction ps) auto

lemma MatchBody_first_match:
  "first_match (Patterns (Some r)) buf =
     (if fst (MatchBody (Some r) buf) then Some (snd (MatchBody (Some r) buf)) else None)"
  by (auto simp: Patterns_def MatchBody_def first_match_Patterns split: option.splits)

subsection \<open>What callers rely on\<close>

text \<open>
  The rule that applies to a host is the first of the file whose glob matches it, in any case of
  the host; a compiled rule set never skips a rule for a malformed glob; and the body patterns handed
  to the inspection fire exactly when \<open>MatchBody\<close> does, with the same pattern.
\<close>

theorem rules_first_match:
  assumes "NewRuleSet re cfgs = Inr rs"
  shows "(rules_Match rs host = Some r \<longleftrightarrow>
            (\<exists>before rest. rs = before @ r # rest \<and> path_match (ru_glob r) (to_lower host) = Some True \<and>
               (\<forall>q \<in> set before. path_match (ru_glob q) (to_lower host) = Some False))) \<and>
         rules_Match rs (to_lower host) = rules_Match rs host \<and>
         first_match (Patterns (Some r)) buf =
           (if fst (MatchBody (Some r) buf) then Some (snd (MatchBody (Some r) buf)) else None)"
proof -
  have ok: "path_match (ru_glob q) h \<noteq> None" if "q \<in> set rs" for q h
    using NewRuleSet_wf(1) [OF assms] that compiled_glob_never_bad by blast
  have pos: "glob_matches (ru_glob q) h \<longleftrightarrow> path_match (ru_glob q) h = Some True" for q h
    unfolding glob_matches_def by (cases "path_match (ru_glob q) h") auto
  have neg: "\<not> glob_matches (ru_glob q) h \<longleftrightarrow> path_match (ru_glob q) h = Some False" if "q \<in> set rs" for q h
    unfolding pos using ok [OF that, of h] by (cases "path_match (ru_glob q) h") auto
  have "(rs = before @ r # rest \<and> glob_matches (ru_glob r) h \<and> (\<forall>q \<in> set before. \<not> glob_matches (ru_glob q) h)) \<longleftrightarrow>
        (rs = before @ r # rest \<and> path_match (ru_glob r) h = Some True \<and>
           (\<forall>q \<in> set before. path_match (ru_glob q) h = Some False))" for before rest h
    using neg pos by auto
  then show ?thesis
    unfolding rules_Match_lower MatchBody_first_match rules_Match_first by simp
qed

end
