(* ===== verification/Scoreboard.thy ===== *)
theory Scoreboard
  imports Rules
begin

text \<open>
  \<open>internal/scoreboard/scoreboard.go\<close>, \<open>cascade.go\<close>, \<open>probe.go\<close> and \<open>admin.go\<close>: the state of the scoreboard
  and every operation on it. Each critical section is one transition of an explicit state; clock
  readings and random draws are arguments. A nil Go map is an empty finite map.
\<close>

subsection \<open>State\<close>

record policy =
  po_penalty :: f64
  po_cooldown :: duration

record sb_config =
  sc_connection_refused :: bool
  sc_kind_policy :: "(kind, policy) fmap"
  sc_success_weight :: f64
  sc_score_cap :: f64
  sc_probe_chance :: f64
  sc_decay_interval :: duration
  sc_decay_step :: f64
  sc_cascade_ttl :: duration
  sc_debounce_window :: duration
  sc_prune_after :: duration

record entry =
  en_score :: f64
  en_cooldown_until :: time
  en_last_seen :: time
  en_success :: "64 word"
  en_failure :: "64 word"

definition new_entry :: entry where
  "new_entry = \<lparr>en_score = Fin 0, en_cooldown_until = zero_time, en_last_seen = zero_time,
     en_success = 0, en_failure = 0\<rparr>"

record force_entry =
  fo_upstream_id :: string
  fo_until :: time

datatype metric =
    ObserveDial string string duration
  | ObserveCascadeTrip
  | ObserveProbePick

type_synonym entries = "(string, (string, entry) fmap) fmap"
type_synonym debounce_key = "string \<times> string \<times> kind"

text \<open>The optional metrics sink and failure hook hold what they have been told, or None when nil.\<close>

record scoreboard =
  sb_pool :: pool
  sb_pool_entries :: "pool_entry list"
  sb_pool_retry_cap :: int
  sb_pool_len :: nat
  sb_cfg :: sb_config
  sb_rules :: rule_set
  sb_entries :: entries
  sb_cascade :: "(string, time) fmap"
  sb_forces :: "(string, force_entry) fmap"
  sb_debounce :: "(debounce_key, time) fmap"
  sb_decaying :: "duration option"
  sb_metrics :: "metric list option"
  sb_failure_hook :: "debounce_key list option"

text \<open>\<open>float64(n)\<close> of an int.\<close>

definition f64_of_int :: "int \<Rightarrow> f64" where
  "f64_of_int n = f64_of_rat (of_int n)"

definition status_policy :: "status_rule \<Rightarrow> (kind, policy) fmap \<Rightarrow> (kind, policy) fmap" where
  "status_policy sr m =
     (let p = \<lparr>po_penalty = f64_of_int (sr_penalty sr), po_cooldown = sr_cooldown sr\<rparr> in
      if sr_code sr = 429 then fmupd KindRateLimit p m
      else if sr_code sr = 403 then fmupd KindForbidden p m
      else if sr_code sr = 451 then fmupd KindLegalBlock p m
      else m)"

definition FromConfig :: "scoring_config \<Rightarrow> status_rule list \<Rightarrow> bool \<Rightarrow> sb_config" where
  "FromConfig s status connectionRefused =
     (let policy0 =
        fmupd KindProxyAuth \<lparr>po_penalty = Fin 4, po_cooldown = 15 * second\<rparr>
        (fmupd KindBodyMatch \<lparr>po_penalty = sg_body_match_penalty s, po_cooldown = sg_body_match_cooldown s\<rparr>
        (fmupd KindTimeout \<lparr>po_penalty = sg_timeout_penalty s, po_cooldown = sg_timeout_cooldown s\<rparr>
        (fmupd KindRefused \<lparr>po_penalty = sg_refused_penalty s, po_cooldown = sg_refused_cooldown s\<rparr>
         fmempty)))
      in \<lparr>sc_connection_refused = connectionRefused,
          sc_kind_policy = fold status_policy status policy0,
          sc_success_weight = sg_success_weight s,
          sc_score_cap = sg_score_cap s,
          sc_probe_chance = sg_probe_chance s,
          sc_decay_interval = sg_decay_interval s,
          sc_decay_step = sg_decay_step s,
          sc_cascade_ttl = sg_cascade_ttl s,
          sc_debounce_window = sg_debounce_window s,
          sc_prune_after = sg_prune_after s\<rparr>)"

text \<open>
  \<open>New\<close> with the options \<open>WithRules\<close>, \<open>WithMetrics\<close> and \<open>WithFailureHook\<close>; None for the pool is nil.
\<close>

definition sb_New ::
    "pool option \<Rightarrow> sb_config \<Rightarrow> rule_set \<Rightarrow> bool \<Rightarrow> bool \<Rightarrow> goerr + scoreboard" where
  "sb_New p cfg rules withMetrics withHook =
     (case p of
        None \<Rightarrow> Inl (errorf ''scoreboard: pool is nil'')
      | Some pool \<Rightarrow>
          Inr \<lparr>sb_pool = pool, sb_pool_entries = Entries pool, sb_pool_retry_cap = RetryCap pool,
            sb_pool_len = pool_Len pool, sb_cfg = cfg, sb_rules = rules,
            sb_entries = fmempty, sb_cascade = fmempty, sb_forces = fmempty, sb_debounce = fmempty,
            sb_decaying = None,
            sb_metrics = (if withMetrics then Some [] else None),
            sb_failure_hook = (if withHook then Some [] else None)\<rparr>)"

definition emit :: "metric \<Rightarrow> scoreboard \<Rightarrow> scoreboard" where
  "emit m s = s\<lparr>sb_metrics := map_option (\<lambda>ms. ms @ [m]) (sb_metrics s)\<rparr>"

definition call_hook :: "debounce_key \<Rightarrow> scoreboard \<Rightarrow> scoreboard" where
  "call_hook k s = s\<lparr>sb_failure_hook := map_option (\<lambda>ks. ks @ [k]) (sb_failure_hook s)\<rparr>"

definition PoolIDs :: "scoreboard \<Rightarrow> string list" where
  "PoolIDs s = map pe_id (sb_pool_entries s)"

definition HasUpstream :: "scoreboard \<Rightarrow> string \<Rightarrow> bool" where
  "HasUpstream s uid = list_ex (\<lambda>e. pe_id e = uid) (sb_pool_entries s)"

definition ReplaceRules :: "rule_set \<Rightarrow> scoreboard \<Rightarrow> scoreboard" where
  "ReplaceRules rs s = s\<lparr>sb_rules := rs\<rparr>"

text \<open>\<open>ReplacePool\<close>: pins whose upstream is gone are evicted.\<close>

definition ReplacePool :: "pool option \<Rightarrow> scoreboard \<Rightarrow> goerr + scoreboard" where
  "ReplacePool newPool s =
     (case newPool of
        None \<Rightarrow> Inl (errorf ''scoreboard: ReplacePool called with nil pool'')
      | Some p \<Rightarrow>
          (let es = Entries p; knownIDs = set (map pe_id es) in
           Inr (s\<lparr>sb_pool := p, sb_pool_entries := es, sb_pool_retry_cap := RetryCap p,
                  sb_pool_len := pool_Len p,
                  sb_forces := fmfilter (\<lambda>host. case fmlookup (sb_forces s) host of
                      Some f \<Rightarrow> fo_upstream_id f \<in> knownIDs | None \<Rightarrow> False) (sb_forces s)\<rparr>)))"

definition Reload :: "sb_config \<Rightarrow> scoreboard \<Rightarrow> scoreboard" where
  "Reload newCfg s = s\<lparr>sb_cfg := newCfg\<lparr>sc_decay_interval := sc_decay_interval (sb_cfg s)\<rparr>\<rparr>"

text \<open>
  The lifecycle of the decay goroutine: \<open>sb_decaying\<close> is the interval of the running one. It ends by
  \<open>Stop\<close>, or by itself when its parent context is cancelled.
\<close>

definition sb_Start :: "scoreboard \<Rightarrow> scoreboard" where
  "sb_Start s =
     (if sb_decaying s \<noteq> None then s
      else if sc_decay_interval (sb_cfg s) \<le> 0 then s
      else s\<lparr>sb_decaying := Some (sc_decay_interval (sb_cfg s))\<rparr>)"

definition sb_Stop :: "scoreboard \<Rightarrow> scoreboard" where
  "sb_Stop s = s\<lparr>sb_decaying := None\<rparr>"

subsection \<open>Entries\<close>

definition entry_at :: "entries \<Rightarrow> string \<Rightarrow> string \<Rightarrow> entry option" where
  "entry_at es host uid =
     (case fmlookup es host of None \<Rightarrow> None | Some perUp \<Rightarrow> fmlookup perUp uid)"

definition set_entry :: "string \<Rightarrow> string \<Rightarrow> entry \<Rightarrow> entries \<Rightarrow> entries" where
  "set_entry host uid e es =
     fmupd host
       (fmupd uid e (case fmlookup es host of None \<Rightarrow> fmempty | Some perUp \<Rightarrow> perUp)) es"

text \<open>\<open>getOrCreateLocked\<close>: the entry, in a table that now holds it.\<close>

definition getOrCreateLocked :: "string \<Rightarrow> string \<Rightarrow> entries \<Rightarrow> entries \<times> entry" where
  "getOrCreateLocked host uid es =
     (case entry_at es host uid of
        Some e \<Rightarrow> (es, e)
      | None \<Rightarrow> (set_entry host uid new_entry es, new_entry))"

definition decay_score :: "f64 \<Rightarrow> f64 \<Rightarrow> f64" where
  "decay_score step x =
     (if f_lt f_zero x then (let y = f_sub x step in if f_lt y f_zero then f_zero else y)
      else if f_lt x f_zero then (let y = f_add x step in if f_lt f_zero y then f_zero else y)
      else x)"

definition decayTick :: "scoreboard \<Rightarrow> scoreboard" where
  "decayTick s =
     (let step = sc_decay_step (sb_cfg s) in
      if f_le step f_zero then s
      else s\<lparr>sb_entries :=
             fmmap (fmmap (\<lambda>e. e\<lparr>en_score := decay_score step (en_score e)\<rparr>)) (sb_entries s)\<rparr>)"

definition RecordSuccess :: "time \<Rightarrow> string \<Rightarrow> string \<Rightarrow> scoreboard \<Rightarrow> scoreboard" where
  "RecordSuccess now host uid s =
     (let (es, e) = getOrCreateLocked host uid (sb_entries s);
          score = f_add (en_score e) (sc_success_weight (sb_cfg s));
          score' = (if f_lt (sc_score_cap (sb_cfg s)) score then sc_score_cap (sb_cfg s) else score)
      in s\<lparr>sb_entries := set_entry host uid
             (e\<lparr>en_score := score', en_cooldown_until := zero_time, en_last_seen := now,
                en_success := en_success e + 1\<rparr>) es,
           sb_cascade := fmdrop host (sb_cascade s)\<rparr>)"

text \<open>\<open>acceptForDebounce\<close>: whether the event counts, and the debounce map after it.\<close>

definition acceptForDebounce ::
    "debounce_key \<Rightarrow> time \<Rightarrow> duration \<Rightarrow> (debounce_key, time) fmap \<Rightarrow> bool \<times> (debounce_key, time) fmap" where
  "acceptForDebounce key now window db =
     (if window \<le> 0 then (True, db)
      else (case fmlookup db key of
              Some prev \<Rightarrow>
                if time_sub now prev < window then (False, db) else (True, fmupd key now db)
            | None \<Rightarrow> (True, fmupd key now db)))"

definition zero_policy :: policy where
  "zero_policy = \<lparr>po_penalty = f_zero, po_cooldown = 0\<rparr>"

definition policy_of :: "sb_config \<Rightarrow> kind \<Rightarrow> policy" where
  "policy_of cfg k = (case fmlookup (sc_kind_policy cfg) k of Some p \<Rightarrow> p | None \<Rightarrow> zero_policy)"

definition penalize :: "sb_config \<Rightarrow> kind \<Rightarrow> duration option \<Rightarrow> time \<Rightarrow> entry \<Rightarrow> entry" where
  "penalize cfg k override now e =
     (let policy = policy_of cfg k;
          cooldown = (case override of Some d \<Rightarrow> d | None \<Rightarrow> po_cooldown policy);
          score = f_sub (en_score e) (po_penalty policy);
          score' = (if f_lt score (f_neg (sc_score_cap cfg)) then f_neg (sc_score_cap cfg) else score);
          until = (if override \<noteq> None \<and> 0 < cooldown then time_add now cooldown
                   else if override \<noteq> None then zero_time
                   else if 0 < cooldown then
                     (if after (time_add now cooldown) (en_cooldown_until e)
                      then time_add now cooldown else en_cooldown_until e)
                   else en_cooldown_until e)
      in e\<lparr>en_score := score', en_cooldown_until := until, en_last_seen := now,
           en_failure := en_failure e + 1\<rparr>)"

definition RecordFailure ::
    "time \<Rightarrow> string \<Rightarrow> string \<Rightarrow> kind \<Rightarrow> duration option \<Rightarrow> scoreboard \<Rightarrow> scoreboard" where
  "RecordFailure now host uid k cooldownOverride s =
     (if \<not> kind_Valid k then s
      else
        (let cfg = sb_cfg s;
             (accept, db) = acceptForDebounce (host, uid, k) now (sc_debounce_window cfg) (sb_debounce s)
         in if \<not> accept then s
            else
              (let (es, e) = getOrCreateLocked host uid (sb_entries s)
               in call_hook (host, uid, k)
                    (s\<lparr>sb_debounce := db,
                       sb_entries := set_entry host uid (penalize cfg k cooldownOverride now e) es\<rparr>))))"

subsection \<open>Cascade\<close>

definition cascadeActive :: "scoreboard \<Rightarrow> string \<Rightarrow> time \<Rightarrow> bool" where
  "cascadeActive s host now =
     (case fmlookup (sb_cascade s) host of Some until \<Rightarrow> after until now | None \<Rightarrow> False)"

definition TripCascade :: "time \<Rightarrow> string \<Rightarrow> scoreboard \<Rightarrow> scoreboard" where
  "TripCascade now host s =
     (let ttl = sc_cascade_ttl (sb_cfg s) in
      if ttl \<le> 0 then s
      else emit ObserveCascadeTrip (s\<lparr>sb_cascade := fmupd host (time_add now ttl) (sb_cascade s)\<rparr>))"

definition CascadeUntil :: "scoreboard \<Rightarrow> time \<Rightarrow> string \<Rightarrow> time" where
  "CascadeUntil s now host =
     (case fmlookup (sb_cascade s) host of
        None \<Rightarrow> zero_time
      | Some until \<Rightarrow> if \<not> after until now then zero_time else until)"

subsection \<open>Admin operations\<close>

definition Forget :: "string \<Rightarrow> scoreboard \<Rightarrow> bool \<times> scoreboard" where
  "Forget host s =
     (if host = [] then (False, s)
      else
        (let hadEntries = (fmlookup (sb_entries s) host \<noteq> None);
             hadCascade = (fmlookup (sb_cascade s) host \<noteq> None);
             hadDebounce = (\<exists>k |\<in>| fmdom (sb_debounce s). fst k = host)
         in (hadEntries \<or> hadCascade \<or> hadDebounce,
             s\<lparr>sb_entries := fmdrop host (sb_entries s),
               sb_cascade := fmdrop host (sb_cascade s),
               sb_debounce := fmfilter (\<lambda>k. fst k \<noteq> host) (sb_debounce s)\<rparr>)))"

datatype force_error = EmptyHost | EmptyUpstream | ErrUnknownUpstream

definition Force :: "time \<Rightarrow> string \<Rightarrow> string \<Rightarrow> time \<Rightarrow> scoreboard \<Rightarrow> force_error option \<times> scoreboard" where
  "Force now host uid until s =
     (if host = [] then (Some EmptyHost, s)
      else if uid = [] then (Some EmptyUpstream, s)
      else if \<not> after until now then (None, s\<lparr>sb_forces := fmdrop host (sb_forces s)\<rparr>)
      else if \<not> list_ex (\<lambda>c. pe_id c = uid) (sb_pool_entries s) then (Some ErrUnknownUpstream, s)
      else (None, s\<lparr>sb_forces :=
              fmupd host \<lparr>fo_upstream_id = uid, fo_until = until\<rparr> (sb_forces s)\<rparr>))"

definition ClearForce :: "string \<Rightarrow> scoreboard \<Rightarrow> bool \<times> scoreboard" where
  "ClearForce host s =
     (case fmlookup (sb_forces s) host of
        None \<Rightarrow> (False, s)
      | Some _ \<Rightarrow> (True, s\<lparr>sb_forces := fmdrop host (sb_forces s)\<rparr>))"

definition ForcedFor :: "time \<Rightarrow> string \<Rightarrow> scoreboard \<Rightarrow> force_entry option \<times> scoreboard" where
  "ForcedFor now host s =
     (case fmlookup (sb_forces s) host of
        None \<Rightarrow> (None, s)
      | Some f \<Rightarrow>
          if \<not> after (fo_until f) now then (None, s\<lparr>sb_forces := fmdrop host (sb_forces s)\<rparr>)
          else (Some f, s))"

text \<open>\<open>ForceSnapshot\<close>: the live pins by host, and the expired ones evicted.\<close>

definition live_forces :: "time \<Rightarrow> (string, force_entry) fmap \<Rightarrow> (string, force_entry) fmap" where
  "live_forces now m =
     fmfilter (\<lambda>host. case fmlookup m host of Some f \<Rightarrow> after (fo_until f) now | None \<Rightarrow> False) m"

definition ForceSnapshot :: "time \<Rightarrow> scoreboard \<Rightarrow> (string \<times> force_entry) list \<times> scoreboard" where
  "ForceSnapshot now s =
     (let live = live_forces now (sb_forces s)
      in (map (\<lambda>host. (host, the (fmlookup live host))) (sorted_list_of_fset (fmdom live)),
          s\<lparr>sb_forces := live\<rparr>))"

definition pickForced :: "time \<Rightarrow> string \<Rightarrow> string list \<Rightarrow> scoreboard \<Rightarrow> upstream option \<times> scoreboard" where
  "pickForced now host tried s =
     (case fmlookup (sb_forces s) host of
        None \<Rightarrow> (None, s)
      | Some f \<Rightarrow>
          if \<not> after (fo_until f) now then (None, s\<lparr>sb_forces := fmdrop host (sb_forces s)\<rparr>)
          else if fo_upstream_id f \<in> set tried then (None, s)
          else (map_option pe_up (find (\<lambda>c. pe_id c = fo_upstream_id f) (sb_pool_entries s)), s))"

definition sb_Reset :: "scoreboard \<Rightarrow> scoreboard" where
  "sb_Reset s = s\<lparr>sb_entries := fmempty, sb_cascade := fmempty, sb_forces := fmempty,
     sb_debounce := fmempty\<rparr>"

subsection \<open>Pick\<close>

record ranked =
  rk_up :: upstream
  rk_base_pri :: int
  rk_score :: f64
  rk_cooled :: bool
  rk_until :: time
  rk_prefer_rank :: nat

definition rank_of :: "scoreboard \<Rightarrow> string \<Rightarrow> (string, nat) fmap \<Rightarrow> time \<Rightarrow> pool_entry \<Rightarrow> ranked" where
  "rank_of s host preferRank now c =
     (let e = (case entry_at (sb_entries s) host (pe_id c) of Some e \<Rightarrow> e | None \<Rightarrow> new_entry);
          until = en_cooldown_until e
      in \<lparr>rk_up = pe_up c, rk_base_pri = pe_priority c, rk_score = en_score e,
          rk_cooled = (\<not> is_zero_time until \<and> after until now), rk_until = until,
          rk_prefer_rank = (case fmlookup preferRank (pe_id c) of Some n \<Rightarrow> n | None \<Rightarrow> 0)\<rparr>)"

text \<open>The untried upstreams; a rule with \<open>force\<close> leaves only those it prefers.\<close>

definition pick_pool :: "scoreboard \<Rightarrow> string \<Rightarrow> string list \<Rightarrow> time \<Rightarrow> ranked list" where
  "pick_pool s host tried now =
     (let rule = rules_Match (sb_rules s) host;
          preferRank = (case rule of None \<Rightarrow> fmempty | Some r \<Rightarrow> ru_prefer_rank r)
      in [rank_of s host preferRank now c.
            c \<leftarrow> sb_pool_entries s,
            pe_id c \<notin> set tried \<and>
            (case rule of
               None \<Rightarrow> True
             | Some r \<Rightarrow> ru_force r \<longrightarrow> fmlookup preferRank (pe_id c) \<noteq> None)])"

text \<open>The comparator of the \<open>sort.SliceStable\<close> call.\<close>

definition rank_less :: "ranked \<Rightarrow> ranked \<Rightarrow> bool" where
  "rank_less a b =
     (let ri = rk_prefer_rank a; rj = rk_prefer_rank b in
      if ri \<noteq> rj then (if ri = 0 then False else if rj = 0 then True else ri < rj)
      else if \<not> f_eq (rk_score a) (rk_score b) then f_lt (rk_score b) (rk_score a)
      else rk_base_pri a < rk_base_pri b)"

text \<open>\<open>probeRoll\<close> and \<open>probePick\<close> on the draws of the random source.\<close>

record draws =
  dw_float :: f64   \<comment> \<open>\<open>rand.Float64()\<close>\<close>
  dw_int :: nat     \<comment> \<open>\<open>rand.Intn(n)\<close> is this modulo \<open>n\<close>\<close>

definition probeRoll :: "draws \<Rightarrow> f64 \<Rightarrow> bool" where
  "probeRoll d chance = f_lt (dw_float d) chance"

definition probePick :: "draws \<Rightarrow> nat \<Rightarrow> nat" where
  "probePick d n = dw_int d mod n"

definition CascadeError :: "string \<Rightarrow> goerr" where
  "CascadeError host = ErrWrap host None (ErrLeaf ErrCascadeCooling None)"

definition Pick ::
    "time \<Rightarrow> draws \<Rightarrow> string \<Rightarrow> string list \<Rightarrow> scoreboard \<Rightarrow> (goerr + upstream) \<times> scoreboard" where
  "Pick now d host tried s =
     (if cascadeActive s host now then (Inl (CascadeError host), s)
      else
        (case pickForced now host tried s of
           (Some up, s1) \<Rightarrow> (Inr up, s1)
         | (None, s1) \<Rightarrow>
             (let pool = pick_pool s1 host tried now;
                  cooled = filter rk_cooled pool;
                  eligible = filter (\<lambda>r. \<not> rk_cooled r) pool
              in if pool = [] then (Inl (ErrLeaf ErrPoolExhausted None), s1)
                 else if eligible = [] then
                   (Inr (rk_up (hd (slice_sort (\<lambda>a b. rk_until a < rk_until b) cooled))), s1)
                 else
                   (let sorted = slice_sort rank_less eligible;
                        chance = sc_probe_chance (sb_cfg s1)
                    in if 1 < length sorted \<and> f_lt f_zero chance \<and> probeRoll d chance then
                         (Inr (rk_up (sorted ! (1 + probePick d (length sorted - 1)))),
                          emit ObserveProbePick s1)
                       else (Inr (rk_up (sorted ! 0)), s1)))))"

end
