(* ===== verification/SbInvariant.thy ===== *)
theory SbInvariant
  imports Scoreboard
begin

text \<open>
  The invariant of the scoreboard and its preservation by every operation of \<open>Scoreboard\<close>: the
  cached pool view agrees with a well-formed pool, every score is a finite double within the
  largest cap configured so far, no host has an empty table, and every pin names a live upstream.
\<close>

subsection \<open>Tables of entries\<close>

lemma entry_at_set_entry [simp]:
  "entry_at (set_entry host uid e es) h u = (if h = host \<and> u = uid then Some e else entry_at es h u)"
  by (auto simp: entry_at_def set_entry_def split: option.splits)

lemma entry_at_fmempty [simp]: "entry_at fmempty h u = None"
  by (simp add: entry_at_def)

lemma entry_at_drop [simp]:
  "entry_at (fmdrop host es) h u = (if h = host then None else entry_at es h u)"
  by (simp add: entry_at_def)

lemma entry_at_fmmap [simp]:
  "entry_at (fmmap (fmmap f) es) h u = map_option f (entry_at es h u)"
  by (simp add: entry_at_def split: option.splits)

definition found_entry :: "entries \<Rightarrow> string \<Rightarrow> string \<Rightarrow> entry" where
  "found_entry es host uid = (case entry_at es host uid of Some e \<Rightarrow> e | None \<Rightarrow> new_entry)"

text \<open>Creating an entry and then storing into it is storing into it.\<close>

lemma getOrCreateLocked_simps [simp]:
  "snd (getOrCreateLocked host uid es) = found_entry es host uid"
  "set_entry host uid e (fst (getOrCreateLocked host uid es)) = set_entry host uid e es"
  by (auto simp: getOrCreateLocked_def found_entry_def set_entry_def split: option.splits)

definition no_empty_host :: "entries \<Rightarrow> bool" where
  "no_empty_host es \<longleftrightarrow> (\<forall>host m. fmlookup es host = Some m \<longrightarrow> m \<noteq> fmempty)"

lemma fmupd_not_empty [simp]: "fmupd k v m \<noteq> fmempty"
  by (metis fmempty_lookup fmupd_lookup option.distinct(1))

lemma no_empty_host_set [simp]: "no_empty_host es \<Longrightarrow> no_empty_host (set_entry host uid e es)"
  by (simp add: no_empty_host_def set_entry_def)

lemma no_empty_host_drop [simp]: "no_empty_host es \<Longrightarrow> no_empty_host (fmdrop host es)"
  by (simp add: no_empty_host_def)

lemma no_empty_host_empty [simp]: "no_empty_host fmempty"
  by (simp add: no_empty_host_def)

lemma fmmap_empty_iff [simp]: "fmmap f m = fmempty \<longleftrightarrow> m = fmempty"
  by (metis fmap_ext fmempty_lookup fmlookup_map map_option_is_None)

lemma no_empty_host_fmmap [simp]: "no_empty_host es \<Longrightarrow> no_empty_host (fmmap (fmmap f) es)"
  by (auto simp: no_empty_host_def)

subsection \<open>Scores\<close>

definition score_in :: "rat \<Rightarrow> f64 \<Rightarrow> bool" where
  "score_in C x \<longleftrightarrow> f_ok x \<and> f_le (Fin (- C)) x \<and> f_le x (Fin C)"

lemma score_in_cases: "score_in C x \<longleftrightarrow> (\<exists>v. x = Fin v \<and> representable v \<and> - C \<le> v \<and> v \<le> C)"
  by (cases x) (auto simp: score_in_def f_le_def)

lemma score_in_zero: "0 \<le> C \<Longrightarrow> score_in C f_zero"
  by (simp add: score_in_def)

text \<open>One step up, clamped above by a cap no larger than the bound.\<close>

lemma score_add_in:
  assumes "score_in C x" and "f_le f_zero w" and "representable C" and "0 < c" "c \<le> C" "representable c"
  shows "score_in C (let y = f_add x w in if f_lt (Fin c) y then Fin c else y)"
proof -
  obtain v where v: "x = Fin v" "representable v" "- C \<le> v" "v \<le> C"
    using assms(1) by (auto simp: score_in_cases)
  have lo: "f_le (Fin (- C)) (f_add x w)"
    using v assms by (simp add: f_add_nonneg_ge)
  have "f_ok (f_add x w)" by simp
  with lo show ?thesis
    using assms(4-6) by (cases "f_add x w") (auto simp: score_in_def Let_def f_le_def)
qed

lemma score_sub_in:
  assumes "score_in C x" and "f_le f_zero w" and "representable C" and "0 < c" "c \<le> C" "representable c"
  shows "score_in C (let y = f_sub x w in if f_lt y (f_neg (Fin c)) then f_neg (Fin c) else y)"
proof -
  obtain v where v: "x = Fin v" "representable v" "- C \<le> v" "v \<le> C"
    using assms(1) by (auto simp: score_in_cases)
  have hi: "f_le (f_sub x w) (Fin C)"
    using v assms by (simp add: f_sub_nonneg_le)
  have "f_ok (f_sub x w)" by simp
  with hi show ?thesis
    using assms(4-6) by (cases "f_sub x w") (auto simp: score_in_def Let_def f_le_def)
qed

text \<open>Decay moves a score towards zero and never past it.\<close>

theorem decay_score_toward_zero:
  assumes "representable v" and "f_lt f_zero step"
  shows "\<exists>u. decay_score step (Fin v) = Fin u \<and> representable u \<and>
           (0 \<le> v \<longrightarrow> 0 \<le> u \<and> u \<le> v) \<and> (v \<le> 0 \<longrightarrow> v \<le> u \<and> u \<le> 0)"
proof -
  consider "0 < v" | "v < 0" | "v = 0" by linarith
  then show ?thesis
  proof cases
    case 1
    have le: "f_le (f_sub (Fin v) step) (Fin v)"
      using assms by (simp add: f_sub_nonneg_le f_lt_imp_le)
    have "f_ok (f_sub (Fin v) step)" by simp
    with le 1 show ?thesis
      by (cases "f_sub (Fin v) step") (auto simp: decay_score_def Let_def f_le_def)
  next
    case 2
    have ge: "f_le (Fin v) (f_add (Fin v) step)"
      using assms by (simp add: f_add_nonneg_ge f_lt_imp_le)
    have "f_ok (f_add (Fin v) step)" by simp
    with ge 2 show ?thesis
      by (cases "f_add (Fin v) step") (auto simp: decay_score_def Let_def f_le_def)
  next
    case 3
    with assms(1) show ?thesis by (simp add: decay_score_def)
  qed
qed

lemma decay_score_in: "score_in C x \<Longrightarrow> f_lt f_zero step \<Longrightarrow> score_in C (decay_score step x)"
  using decay_score_toward_zero [of _ step]
  by (fastforce simp: score_in_cases)

subsection \<open>The invariant\<close>

text \<open>
  What the tuning must satisfy: a finite positive cap, and penalties, weight and step that are not
  negative and not NaN. \<open>Validate\<close> and \<open>FromConfig\<close> give it for every configuration without NaN,
  infinite cap or negative status penalty.
\<close>

definition cfg_inv :: "rat \<Rightarrow> sb_config \<Rightarrow> bool" where
  "cfg_inv C cfg \<longleftrightarrow>
     (\<exists>c. sc_score_cap cfg = Fin c \<and> 0 < c \<and> c \<le> C \<and> representable c) \<and>
     f_le f_zero (sc_success_weight cfg) \<and> f_le f_zero (sc_decay_step cfg) \<and>
     (\<forall>k. f_le f_zero (po_penalty (policy_of cfg k)))"

definition entries_inv :: "rat \<Rightarrow> entries \<Rightarrow> bool" where
  "entries_inv C es \<longleftrightarrow>
     no_empty_host es \<and> (\<forall>host uid e. entry_at es host uid = Some e \<longrightarrow> score_in C (en_score e))"

definition pool_view :: "scoreboard \<Rightarrow> bool" where
  "pool_view s \<longleftrightarrow>
     pool_wf (sb_pool s) \<and> sb_pool_entries s = Entries (sb_pool s) \<and>
     sb_pool_retry_cap s = RetryCap (sb_pool s) \<and> sb_pool_len s = pool_Len (sb_pool s)"

definition forces_inv :: "scoreboard \<Rightarrow> bool" where
  "forces_inv s \<longleftrightarrow>
     (\<forall>host f. fmlookup (sb_forces s) host = Some f \<longrightarrow> fo_upstream_id f \<in> set (PoolIDs s))"

definition sb_inv :: "rat \<Rightarrow> scoreboard \<Rightarrow> bool" where
  "sb_inv C s \<longleftrightarrow>
     representable C \<and> pool_view s \<and> cfg_inv C (sb_cfg s) \<and> entries_inv C (sb_entries s) \<and>
     forces_inv s \<and> (\<forall>r \<in> set (sb_rules s). rule_wf r)"

lemmas sb_inv_parts = sb_inv_def pool_view_def forces_inv_def PoolIDs_def

lemma HasUpstream_iff: "HasUpstream s uid \<longleftrightarrow> uid \<in> set (PoolIDs s)"
  by (auto simp: HasUpstream_def PoolIDs_def list_ex_iff)

lemma cfg_inv_C: "cfg_inv C cfg \<Longrightarrow> 0 \<le> C"
  by (auto simp: cfg_inv_def)

lemma sb_inv_C: "sb_inv C s \<Longrightarrow> 0 \<le> C"
  by (auto simp: sb_inv_def dest: cfg_inv_C)

lemma entries_inv_set:
  "entries_inv C es \<Longrightarrow> score_in C (en_score e) \<Longrightarrow> entries_inv C (set_entry host uid e es)"
  by (auto simp: entries_inv_def)

lemma entries_inv_drop: "entries_inv C es \<Longrightarrow> entries_inv C (fmdrop host es)"
  by (auto simp: entries_inv_def split: if_splits)

lemma found_entry_score:
  "entries_inv C es \<Longrightarrow> 0 \<le> C \<Longrightarrow> score_in C (en_score (found_entry es host uid))"
  by (auto simp: found_entry_def entries_inv_def new_entry_def score_in_zero split: option.splits)

subsection \<open>Every operation preserves it\<close>

lemma sb_inv_emit [simp]: "sb_inv C (emit m s) = sb_inv C s"
  by (simp add: emit_def sb_inv_parts)

lemma sb_inv_call_hook [simp]: "sb_inv C (call_hook k s) = sb_inv C s"
  by (simp add: call_hook_def sb_inv_parts)

lemma sb_inv_New [inv_intros]:
  assumes "sb_New (Some p) cfg rules m h = Inr s" and "pool_wf p" and "cfg_inv C cfg"
    and "representable C" and "\<forall>r \<in> set rules. rule_wf r"
  shows "sb_inv C s"
  using assms by (auto simp: sb_New_def sb_inv_parts entries_inv_def)

lemma sb_inv_ReplaceRules [inv_intros]:
  "sb_inv C s \<Longrightarrow> \<forall>r \<in> set rs. rule_wf r \<Longrightarrow> sb_inv C (ReplaceRules rs s)"
  by (auto simp: ReplaceRules_def sb_inv_parts)

lemma sb_inv_ReplacePool [inv_intros]:
  "sb_inv C s \<Longrightarrow> pool_wf p \<Longrightarrow> ReplacePool (Some p) s = Inr s' \<Longrightarrow> sb_inv C s'"
  by (auto simp: ReplacePool_def sb_inv_parts Let_def split: if_splits)

lemma cfg_inv_decay_interval [simp]: "cfg_inv C (cfg\<lparr>sc_decay_interval := d\<rparr>) = cfg_inv C cfg"
  by (simp add: cfg_inv_def policy_of_def)

lemma sb_inv_Reload [inv_intros]: "sb_inv C s \<Longrightarrow> cfg_inv C cfg \<Longrightarrow> sb_inv C (Reload cfg s)"
  by (auto simp: Reload_def sb_inv_parts)

lemma sb_inv_Start [inv_intros]: "sb_inv C s \<Longrightarrow> sb_inv C (sb_Start s)"
  by (auto simp: sb_Start_def sb_inv_parts)

lemma sb_inv_Stop [inv_intros]: "sb_inv C s \<Longrightarrow> sb_inv C (sb_Stop s)"
  by (auto simp: sb_Stop_def sb_inv_parts)

lemma sb_inv_decayTick [inv_intros]: "sb_inv C s \<Longrightarrow> sb_inv C (decayTick s)"
proof -
  assume inv: "sb_inv C s"
  let ?step = "sc_decay_step (sb_cfg s)"
  have nn: "f_le f_zero ?step" using inv by (simp add: sb_inv_def cfg_inv_def)
  show ?thesis
  proof (cases "f_le ?step f_zero")
    case False
    with nn have "f_lt f_zero ?step" by (cases ?step) (auto simp: f_le_def)
    then have "entries_inv C (sb_entries (decayTick s))"
      using inv False
      by (auto simp: decayTick_def sb_inv_def entries_inv_def Let_def intro!: decay_score_in)
    then show ?thesis using inv by (auto simp: decayTick_def sb_inv_parts Let_def)
  qed (use inv in \<open>simp add: decayTick_def\<close>)
qed

lemma RecordSuccess_entries:
  "sb_entries (RecordSuccess now host uid s) =
     set_entry host uid
       (let e = found_entry (sb_entries s) host uid in
        e\<lparr>en_score := (let y = f_add (en_score e) (sc_success_weight (sb_cfg s)) in
                        if f_lt (sc_score_cap (sb_cfg s)) y then sc_score_cap (sb_cfg s) else y),
          en_cooldown_until := zero_time, en_last_seen := now, en_success := en_success e + 1\<rparr>)
       (sb_entries s)"
  by (simp add: RecordSuccess_def Let_def case_prod_beta)

lemma sb_inv_RecordSuccess [inv_intros]: "sb_inv C s \<Longrightarrow> sb_inv C (RecordSuccess now host uid s)"
proof -
  assume inv: "sb_inv C s"
  then obtain c where c: "sc_score_cap (sb_cfg s) = Fin c" "0 < c" "c \<le> C" "representable c"
    by (auto simp: sb_inv_def cfg_inv_def)
  have "score_in C (en_score (found_entry (sb_entries s) host uid))"
    using inv sb_inv_C [OF inv] by (auto simp: sb_inv_def intro: found_entry_score)
  from score_add_in [OF this _ _ c(2-4), of "sc_success_weight (sb_cfg s)", folded c(1)]
  have "entries_inv C (sb_entries (RecordSuccess now host uid s))"
    unfolding RecordSuccess_entries Let_def [of "found_entry _ _ _"]
    using inv by (intro entries_inv_set) (auto simp: sb_inv_def cfg_inv_def)
  moreover have "sb_pool (RecordSuccess now host uid s) = sb_pool s \<and>
      sb_cfg (RecordSuccess now host uid s) = sb_cfg s \<and>
      sb_forces (RecordSuccess now host uid s) = sb_forces s"
    by (simp add: RecordSuccess_def Let_def case_prod_beta)
  ultimately show ?thesis
    using inv by (auto simp: RecordSuccess_def sb_inv_parts Let_def case_prod_beta)
qed

lemma penalize_score: "en_score (penalize cfg k ov now e) =
  (let y = f_sub (en_score e) (po_penalty (policy_of cfg k))
   in if f_lt y (f_neg (sc_score_cap cfg)) then f_neg (sc_score_cap cfg) else y)"
  by (simp add: penalize_def Let_def)

lemma sb_inv_RecordFailure [inv_intros]:
  "sb_inv C s \<Longrightarrow> sb_inv C (RecordFailure now host uid k ov s)"
proof -
  assume inv: "sb_inv C s"
  then obtain c where c: "sc_score_cap (sb_cfg s) = Fin c" "0 < c" "c \<le> C" "representable c"
    by (auto simp: sb_inv_def cfg_inv_def)
  have "score_in C (en_score (found_entry (sb_entries s) host uid))"
    using inv sb_inv_C [OF inv] by (auto simp: sb_inv_def intro: found_entry_score)
  from score_sub_in [OF this _ _ c(2-4), of "po_penalty (policy_of (sb_cfg s) k)", folded c(1)]
  have "entries_inv C (set_entry host uid
      (penalize (sb_cfg s) k ov now (found_entry (sb_entries s) host uid)) (sb_entries s))"
    using inv by (intro entries_inv_set) (auto simp: penalize_score sb_inv_def cfg_inv_def)
  then show ?thesis
    using inv by (auto simp: RecordFailure_def call_hook_def sb_inv_parts Let_def case_prod_beta)
qed

lemma sb_inv_TripCascade [inv_intros]: "sb_inv C s \<Longrightarrow> sb_inv C (TripCascade now host s)"
  by (auto simp: TripCascade_def Let_def) (auto simp: sb_inv_parts)

lemma sb_inv_Forget [inv_intros]: "sb_inv C s \<Longrightarrow> sb_inv C (snd (Forget host s))"
  by (auto simp: Forget_def sb_inv_parts entries_inv_drop)

lemma sb_inv_Force [inv_intros]: "sb_inv C s \<Longrightarrow> sb_inv C (snd (Force now host uid until s))"
  by (auto simp: Force_def sb_inv_parts list_ex_iff split: if_splits)

lemma sb_inv_ClearForce [inv_intros]: "sb_inv C s \<Longrightarrow> sb_inv C (snd (ClearForce host s))"
  by (auto simp: ClearForce_def sb_inv_parts split: option.splits if_splits)

lemma sb_inv_ForcedFor [inv_intros]: "sb_inv C s \<Longrightarrow> sb_inv C (snd (ForcedFor now host s))"
  by (auto simp: ForcedFor_def sb_inv_parts split: option.splits if_splits)

lemma sb_inv_ForceSnapshot [inv_intros]: "sb_inv C s \<Longrightarrow> sb_inv C (snd (ForceSnapshot now s))"
  by (auto simp: ForceSnapshot_def live_forces_def sb_inv_parts Let_def split: if_splits)

lemma pickForced_state: "snd (pickForced now host tried s) =
  s\<lparr>sb_forces := sb_forces (snd (pickForced now host tried s))\<rparr>"
  by (simp add: pickForced_def split: option.splits)

lemma sb_inv_pickForced [inv_intros]: "sb_inv C s \<Longrightarrow> sb_inv C (snd (pickForced now host tried s))"
  by (auto simp: pickForced_def sb_inv_parts split: option.splits if_splits)

lemma sb_inv_Pick [inv_intros]: "sb_inv C s \<Longrightarrow> sb_inv C (snd (Pick now d host tried s))"
  using sb_inv_pickForced [of C s now host tried]
  by (auto simp: Pick_def Let_def split: prod.splits option.splits)

lemma sb_inv_Reset [inv_intros]: "sb_inv C s \<Longrightarrow> sb_inv C (sb_Reset s)"
  by (auto simp: sb_Reset_def sb_inv_parts entries_inv_def)

end
