(* ===== verification/Picking.thy ===== *)
theory Picking
  imports SbInvariant
begin

text \<open>
  What \<open>Scoreboard.Pick\<close> promises: its result is an untried upstream of the pool, a live pin wins,
  a force rule confines the choice, otherwise the choice is the head of a stable sort by
  preference, score and priority, or, when everything cools, the first to warm up.
\<close>

lemma find_SomeD: "find P xs = Some x \<Longrightarrow> x \<in> set xs \<and> P x"
  by (induction xs) (auto split: if_splits)

subsection \<open>The order of the candidates\<close>

datatype rank_key = RankKey nat nat rat int

fun rank_key_less :: "rank_key \<Rightarrow> rank_key \<Rightarrow> bool" where
  "rank_key_less (RankKey c r s p) (RankKey c' r' s' p') \<longleftrightarrow>
     c < c' \<or> c = c' \<and> (r < r' \<or> r = r' \<and> (s < s' \<or> s = s' \<and> p < p'))"

instantiation rank_key :: linorder
begin

definition less_rank_key :: "rank_key \<Rightarrow> rank_key \<Rightarrow> bool" where
  "less_rank_key = rank_key_less"

definition less_eq_rank_key :: "rank_key \<Rightarrow> rank_key \<Rightarrow> bool" where
  "less_eq_rank_key a b \<longleftrightarrow> a = b \<or> rank_key_less a b"

instance
proof
  fix x y z :: rank_key
  show "x < y \<longleftrightarrow> x \<le> y \<and> \<not> y \<le> x"
    by (cases x; cases y) (auto simp: less_rank_key_def less_eq_rank_key_def)
  show "x \<le> x" by (simp add: less_eq_rank_key_def)
  show "x \<le> y \<Longrightarrow> y \<le> z \<Longrightarrow> x \<le> z"
    by (cases x; cases y; cases z) (auto simp: less_eq_rank_key_def)
  show "x \<le> y \<Longrightarrow> y \<le> x \<Longrightarrow> x = y"
    by (cases x; cases y) (auto simp: less_eq_rank_key_def)
  show "x \<le> y \<or> y \<le> x"
    by (cases x; cases y) (auto simp: less_eq_rank_key_def)
qed

end

text \<open>Preferred upstreams by position, then higher scores, then lower priority numbers.\<close>

definition rank_key :: "ranked \<Rightarrow> rank_key" where
  "rank_key r =
     RankKey (if rk_prefer_rank r = 0 then 1 else 0) (rk_prefer_rank r) (- f_val (rk_score r)) (rk_base_pri r)"

lemma rank_less_key:
  assumes "is_fin (rk_score a)" and "is_fin (rk_score b)"
  shows "rank_less a b \<longleftrightarrow> rank_key a < rank_key b"
proof -
  obtain x y where "rk_score a = Fin x" "rk_score b = Fin y"
    using assms by (metis is_fin_val)
  then show ?thesis
    by (auto simp: rank_less_def rank_key_def less_rank_key_def Let_def)
qed

lemma slice_sort_rank:
  "\<forall>r \<in> set rs. is_fin (rk_score r) \<Longrightarrow> slice_sort rank_less rs = sort_key rank_key rs"
  using slice_sort_cong [of rs rank_less "\<lambda>a b. rank_key a < rank_key b"]
  by (simp add: rank_less_key slice_sort_key)

lemma score_in_is_fin: "score_in C x \<Longrightarrow> is_fin x"
  by (auto simp: score_in_cases)

lemma rank_of_fin: "sb_inv C s \<Longrightarrow> is_fin (rk_score (rank_of s host pr now c))"
  by (auto simp: rank_of_def Let_def sb_inv_def entries_inv_def new_entry_def
      split: option.splits intro: score_in_is_fin)

subsection \<open>The candidates\<close>

definition matched_ranks :: "scoreboard \<Rightarrow> string \<Rightarrow> (string, nat) fmap" where
  "matched_ranks s host =
     (case rules_Match (sb_rules s) host of None \<Rightarrow> fmempty | Some r \<Rightarrow> ru_prefer_rank r)"

text \<open>An upstream id the request may use: in no attempt yet, and preferred where a rule forces that.\<close>

definition allowed :: "scoreboard \<Rightarrow> string \<Rightarrow> string list \<Rightarrow> string \<Rightarrow> bool" where
  "allowed s host tried uid \<longleftrightarrow>
     uid \<notin> set tried \<and>
     (case rules_Match (sb_rules s) host of
        None \<Rightarrow> True
      | Some r \<Rightarrow> ru_force r \<longrightarrow> uid \<in> set (ru_prefer r))"

lemma pick_pool_eq:
  assumes "\<forall>r \<in> set (sb_rules s). rule_wf r"
  shows "pick_pool s host tried now =
           map (rank_of s host (matched_ranks s host) now)
             (filter (\<lambda>c. allowed s host tried (pe_id c)) (sb_pool_entries s))"
proof -
  have dom: "fmlookup (ru_prefer_rank r) uid \<noteq> None \<longleftrightarrow> uid \<in> set (ru_prefer r)"
    if "rules_Match (sb_rules s) host = Some r" for r uid
  proof -
    have "rule_wf r" using assms rules_Match_in [OF that] by blast
    then show ?thesis by (auto simp: rule_wf_def fmlookup_None_iff)
  qed
  have "concat (map (\<lambda>c. if P c then [f c] else []) cs) = map f (filter P cs)"
    for P and f :: "pool_entry \<Rightarrow> ranked" and cs
    by (induction cs) auto
  then show ?thesis
    using dom
    by (auto simp: pick_pool_def matched_ranks_def allowed_def Let_def split: option.splits
        intro!: arg_cong [where f = "map _"] filter_cong)
qed

lemma rank_of_simps [simp]:
  "rk_up (rank_of s host pr now c) = pe_up c"
  "rk_base_pri (rank_of s host pr now c) = pe_priority c"
  by (simp_all add: rank_of_def Let_def)

lemma pick_pool_mem:
  assumes "\<forall>r \<in> set (sb_rules s). rule_wf r"
  shows "r \<in> set (pick_pool s host tried now) \<longleftrightarrow>
    (\<exists>c \<in> set (sb_pool_entries s). allowed s host tried (pe_id c) \<and>
       r = rank_of s host (matched_ranks s host) now c)"
  unfolding pick_pool_eq [OF assms] by auto

text \<open>A pin that decides: live, for an untried upstream of the pool.\<close>

definition pin_for :: "scoreboard \<Rightarrow> time \<Rightarrow> string \<Rightarrow> string list \<Rightarrow> string option" where
  "pin_for s now host tried =
     (case fmlookup (sb_forces s) host of
        None \<Rightarrow> None
      | Some f \<Rightarrow>
          if after (fo_until f) now \<and> fo_upstream_id f \<notin> set tried \<and> HasUpstream s (fo_upstream_id f)
          then Some (fo_upstream_id f) else None)"

lemma pickForced_result:
  "fst (pickForced now host tried s) =
     (case pin_for s now host tried of
        None \<Rightarrow> None
      | Some uid \<Rightarrow> map_option pe_up (find (\<lambda>c. pe_id c = uid) (sb_pool_entries s)))"
  by (auto simp: pickForced_def pin_for_def HasUpstream_def list_ex_iff find_None_iff
      split: option.splits)

lemma pin_for_found:
  assumes "pin_for s now host tried = Some uid"
  obtains c where "find (\<lambda>c. pe_id c = uid) (sb_pool_entries s) = Some c"
    "c \<in> set (sb_pool_entries s)" "pe_id c = uid"
proof -
  have "HasUpstream s uid" using assms by (auto simp: pin_for_def split: option.splits if_splits)
  then have "find (\<lambda>c. pe_id c = uid) (sb_pool_entries s) \<noteq> None"
    by (auto simp: HasUpstream_def list_ex_iff find_None_iff)
  then obtain c where "find (\<lambda>c. pe_id c = uid) (sb_pool_entries s) = Some c" by blast
  then show thesis using that find_SomeD [of "\<lambda>c. pe_id c = uid" "sb_pool_entries s" c] by blast
qed

text \<open>The state in which the candidates are ranked differs in the pins only.\<close>

definition unpinned :: "time \<Rightarrow> string \<Rightarrow> string list \<Rightarrow> scoreboard \<Rightarrow> scoreboard" where
  "unpinned now host tried s = snd (pickForced now host tried s)"

lemma unpinned_frame [simp]:
  "sb_pool_entries (unpinned now host tried s) = sb_pool_entries s"
  "sb_entries (unpinned now host tried s) = sb_entries s"
  "sb_rules (unpinned now host tried s) = sb_rules s"
  "sb_cfg (unpinned now host tried s) = sb_cfg s"
  "sb_cascade (unpinned now host tried s) = sb_cascade s"
  by (simp_all add: unpinned_def pickForced_def split: option.splits)

lemma rank_of_unpinned [simp]:
  "rank_of (unpinned now host tried s) h pr n c = rank_of s h pr n c"
  by (simp add: rank_of_def)

lemma pick_pool_unpinned [simp]:
  "pick_pool (unpinned now host tried s) h t n = pick_pool s h t n"
  unfolding pick_pool_def unpinned_frame rank_of_unpinned ..

lemma Pick_unfold:
  "Pick now d host tried s =
     (if cascadeActive s host now then (Inl (CascadeError host), s)
      else
        (case pin_for s now host tried of
           Some uid \<Rightarrow>
             (Inr (pe_up (the (find (\<lambda>c. pe_id c = uid) (sb_pool_entries s)))), unpinned now host tried s)
         | None \<Rightarrow>
             (let s1 = unpinned now host tried s;
                  pool = pick_pool s host tried now;
                  cooled = filter rk_cooled pool;
                  eligible = filter (\<lambda>r. \<not> rk_cooled r) pool
              in if pool = [] then (Inl (ErrLeaf ErrPoolExhausted None), s1)
                 else if eligible = [] then
                   (Inr (rk_up (hd (slice_sort (\<lambda>a b. rk_until a < rk_until b) cooled))), s1)
                 else
                   (let sorted = slice_sort rank_less eligible;
                        chance = sc_probe_chance (sb_cfg s)
                    in if 1 < length sorted \<and> f_lt f_zero chance \<and> probeRoll d chance then
                         (Inr (rk_up (sorted ! (1 + probePick d (length sorted - 1)))),
                          emit ObserveProbePick s1)
                       else (Inr (rk_up (sorted ! 0)), s1)))))"
proof -
  have s1: "snd (pickForced now host tried s) = unpinned now host tried s"
    by (simp add: unpinned_def)
  show ?thesis
  proof (cases "pin_for s now host tried")
    case None
    then have "pickForced now host tried s = (None, unpinned now host tried s)"
      using s1 by (simp add: pickForced_result prod_eq_iff)
    with None show ?thesis by (simp add: Pick_def Let_def)
  next
    case (Some uid)
    then obtain c where "find (\<lambda>c. pe_id c = uid) (sb_pool_entries s) = Some c"
      by (rule pin_for_found)
    with Some have "pickForced now host tried s = (Some (pe_up c), unpinned now host tried s)"
      using s1 by (simp add: pickForced_result prod_eq_iff)
    with Some \<open>find _ _ = Some c\<close> show ?thesis by (simp add: Pick_def)
  qed
qed

subsection \<open>The contract\<close>

lemma probe_index: "1 < n \<Longrightarrow> 1 + probePick d (n - 1) < n"
  by (simp add: probePick_def less_diff_conv2 [symmetric])
    (metis Suc_eq_plus1 add.commute less_diff_conv mod_less_divisor zero_less_diff)

theorem Pick_chooses:
  assumes "Pick now d host tried s = (Inr up, s')" and "pin_for s now host tried = None"
  shows "\<exists>r \<in> set (pick_pool s host tried now). up = rk_up r \<and>
           (rk_cooled r \<longrightarrow> (\<forall>q \<in> set (pick_pool s host tried now). rk_cooled q \<and> rk_until r \<le> rk_until q))"
proof -
  let ?pool = "pick_pool s host tried now"
  let ?el = "filter (\<lambda>r. \<not> rk_cooled r) ?pool"
  let ?sorted = "slice_sort rank_less ?el"
  have nc: "\<not> cascadeActive s host now" using assms(1) by (auto simp: Pick_def)
  have ne: "?pool \<noteq> []" using assms nc by (auto simp: Pick_unfold Let_def)
  show ?thesis
  proof (cases "?el = []")
    case True
    let ?c = "slice_sort (\<lambda>a b. rk_until a < rk_until b) (filter rk_cooled ?pool)"
    have all: "\<forall>q \<in> set ?pool. rk_cooled q" using True by (simp add: filter_empty_conv)
    then have f: "filter rk_cooled ?pool = ?pool" by (simp add: filter_id_conv)
    have up: "up = rk_up (hd ?c)"
      using assms nc ne True by (auto simp: Pick_unfold Let_def)
    have "hd ?c \<in> set ?c" using ne f by (intro hd_in_set) simp
    then have "hd ?c \<in> set ?pool" by simp
    moreover have "rk_until (hd ?c) \<le> rk_until q" if "q \<in> set ?pool" for q
      using slice_sort_hd_least [of "filter rk_cooled ?pool" q rk_until] ne that f by simp
    ultimately show ?thesis using up all by blast
  next
    case False
    then have len: "0 < length ?sorted" by simp
    have mem: "?sorted ! i \<in> set ?pool \<and> \<not> rk_cooled (?sorted ! i)" if "i < length ?sorted" for i
      using nth_mem [OF that] by simp
    have "\<exists>i < length ?sorted. up = rk_up (?sorted ! i)"
    proof (cases "1 < length ?sorted \<and> f_lt f_zero (sc_probe_chance (sb_cfg s)) \<and>
          probeRoll d (sc_probe_chance (sb_cfg s))")
      case True
      then have "up = rk_up (?sorted ! (1 + probePick d (length ?sorted - 1)))"
        using assms nc ne False by (auto simp: Pick_unfold Let_def)
      then show ?thesis using probe_index [of "length ?sorted" d] True by blast
    next
      case no: False
      then have "up = rk_up (?sorted ! 0)"
        using assms nc ne False by (auto simp: Pick_unfold Let_def split: if_splits)
      then show ?thesis using len by blast
    qed
    then show ?thesis using mem by blast
  qed
qed

lemma sb_inv_rules: "sb_inv C s \<Longrightarrow> \<forall>r \<in> set (sb_rules s). rule_wf r"
  by (simp add: sb_inv_def)

lemma Pick_pin_result:
  assumes "Pick now d host tried s = (Inr up, s')" and "pin_for s now host tried = Some uid"
  shows "up_id up = uid" and "uid \<in> set (PoolIDs s)" and "uid \<notin> set tried"
proof -
  have nc: "\<not> cascadeActive s host now" using assms(1) by (auto simp: Pick_def)
  obtain c where c: "find (\<lambda>c. pe_id c = uid) (sb_pool_entries s) = Some c"
    "c \<in> set (sb_pool_entries s)" "pe_id c = uid"
    using assms(2) by (rule pin_for_found)
  with assms nc show "up_id up = uid" by (auto simp: Pick_unfold)
  show "uid \<in> set (PoolIDs s)" using c by (auto simp: PoolIDs_def)
  show "uid \<notin> set tried" using assms(2) by (auto simp: pin_for_def split: option.splits if_splits)
qed

lemma Pick_allowed:
  assumes "\<forall>r \<in> set (sb_rules s). rule_wf r" and "Pick now d host tried s = (Inr up, s')"
  shows "up_id up \<in> set (PoolIDs s) \<and> up_id up \<notin> set tried \<and>
           (pin_for s now host tried = None \<longrightarrow> allowed s host tried (up_id up))"
proof (cases "pin_for s now host tried")
  case None
  obtain r where "r \<in> set (pick_pool s host tried now)" "up = rk_up r"
    using Pick_chooses [OF assms(2) None] by blast
  then obtain c where "c \<in> set (sb_pool_entries s)" "allowed s host tried (pe_id c)" "up = pe_up c"
    unfolding pick_pool_mem [OF assms(1)] by auto
  then show ?thesis by (auto simp: PoolIDs_def allowed_def)
next
  case (Some uid)
  then show ?thesis using Pick_pin_result [OF assms(2) Some] by simp
qed

lemma Pick_fails_iff:
  assumes "\<forall>r \<in> set (sb_rules s). rule_wf r"
  shows "fst (Pick now d host tried s) = Inl e \<longleftrightarrow>
           (if cascadeActive s host now then e = CascadeError host
            else pin_for s now host tried = None \<and>
                 (\<forall>uid \<in> set (PoolIDs s). \<not> allowed s host tried uid) \<and> e = ErrLeaf ErrPoolExhausted None)"
proof -
  have "pick_pool s host tried now = [] \<longleftrightarrow> (\<forall>uid \<in> set (PoolIDs s). \<not> allowed s host tried uid)"
    by (simp add: pick_pool_eq [OF assms] PoolIDs_def filter_empty_conv)
  then show ?thesis
    by (auto simp: Pick_unfold Let_def split: option.splits)
qed

text \<open>
  C1: the upstream \<open>Pick\<close> returns belongs to the live pool and is not in the tried set; unless a live
  pin decided, it also obeys a matching rule with \<open>force\<close>, so a forced host never leaves its prefer list.
\<close>

theorem Pick_sound:
  assumes "\<forall>r \<in> set (sb_rules s). rule_wf r" and "Pick now d host tried s = (Inr up, s')"
  shows "up_id up \<in> set (PoolIDs s) \<and> up_id up \<notin> set tried \<and>
           (pin_for s now host tried = None \<longrightarrow> allowed s host tried (up_id up))"
  using assms by (rule Pick_allowed)

text \<open>
  C3: the only errors of \<open>Pick\<close>: the cascade error exactly when the host's cascade is active, and
  \<open>ErrPoolExhausted\<close> exactly when no pin decides and no upstream of the pool is allowed any more.
\<close>

theorem Pick_error_iff:
  assumes "\<forall>r \<in> set (sb_rules s). rule_wf r"
  shows "fst (Pick now d host tried s) = Inl e \<longleftrightarrow>
           (if cascadeActive s host now then e = CascadeError host
            else pin_for s now host tried = None \<and>
                 (\<forall>uid \<in> set (PoolIDs s). \<not> allowed s host tried uid) \<and> e = ErrLeaf ErrPoolExhausted None)"
  using assms by (rule Pick_fails_iff)

text \<open>
  An operator's pin wins: while it is live and its upstream is in the pool and untried, \<open>Pick\<close>
  returns it, whatever the scores, cooldowns and rules say; only an active cascade comes first.
\<close>

theorem Pick_honours_pin:
  assumes "\<not> cascadeActive s host now" and "fmlookup (sb_forces s) host = Some f"
    and "after (fo_until f) now" and "fo_upstream_id f \<notin> set tried"
    and "fo_upstream_id f \<in> set (PoolIDs s)"
  shows "\<exists>up s'. Pick now d host tried s = (Inr up, s') \<and> up_id up = fo_upstream_id f"
proof -
  have p: "pin_for s now host tried = Some (fo_upstream_id f)"
    using assms by (simp add: pin_for_def HasUpstream_iff)
  then obtain up s' where r: "Pick now d host tried s = (Inr up, s')"
    using assms(1) by (simp add: Pick_unfold)
  then show ?thesis using Pick_pin_result(1) [OF r p] by blast
qed


text \<open>
  Cooldown is advisory: with a candidate left \<open>Pick\<close> always answers, and it returns a cooling
  upstream only when every candidate cools, and then one whose cooldown ends first.
\<close>

theorem Pick_cooling:
  assumes "\<forall>r \<in> set (sb_rules s). rule_wf r" and "Pick now d host tried s = (Inr up, s')"
    and "pin_for s now host tried = None"
  shows "\<exists>c \<in> set (sb_pool_entries s). pe_up c = up \<and> allowed s host tried (pe_id c) \<and>
           (let rank = rank_of s host (matched_ranks s host) now in
            rk_cooled (rank c) \<longrightarrow>
              (\<forall>c' \<in> set (sb_pool_entries s). allowed s host tried (pe_id c') \<longrightarrow>
                 rk_cooled (rank c') \<and> rk_until (rank c) \<le> rk_until (rank c')))"
  using Pick_chooses [OF assms(2,3)]
  by (auto simp: pick_pool_eq [OF assms(1)] Let_def)

end
