(* ===== verification/DialLoop.thy ===== *)
theory DialLoop
  imports Picking
begin

text \<open>
  \<open>Scoreboard.DialFor\<close>: pick, dial, record, advance on failure. Every attempt has its environment:
  the context, the clock, the random draws, the outcome of each dial, and what other goroutines do
  to the shared scoreboard between the loop's critical sections.
\<close>

record 'c attempt_env =
  ae_others :: "scoreboard \<Rightarrow> scoreboard"   \<comment> \<open>before the turn\<close>
  ae_ctx_before :: "goerr option"
  ae_pick_now :: time
  ae_draws :: draws
  ae_dial :: "upstream \<Rightarrow> goerr + 'c"
  ae_during :: "scoreboard \<Rightarrow> scoreboard"   \<comment> \<open>while the dial runs\<close>
  ae_latency :: duration
  ae_ctx_after :: "goerr option"
  ae_done_now :: time

text \<open>How the loop ends. Everything but the first is an error return.\<close>

datatype 'c dial_end =
    Connected 'c string
  | Cooling goerr
  | Bailed goerr
  | Exhausted goerr

definition observeDialSuccess :: "string \<Rightarrow> duration \<Rightarrow> scoreboard \<Rightarrow> scoreboard" where
  "observeDialSuccess uid latency s = emit (ObserveDial uid ''success'' latency) s"

definition observeDialFailure :: "string \<Rightarrow> kind \<Rightarrow> duration \<Rightarrow> scoreboard \<Rightarrow> scoreboard" where
  "observeDialFailure uid k latency s =
     emit (ObserveDial uid
       (if k = KindRefused then ''refused'' else if k = KindTimeout then ''timeout''
        else if k = KindProxyAuth then ''proxy_auth'' else ''other'') latency) s"

text \<open>The gate on scoring a dial failure.\<close>

definition scores_failure :: "goerr \<Rightarrow> scoreboard \<Rightarrow> bool" where
  "scores_failure dialErr s =
     (let k = ClassifyDialError (Some dialErr) in
      k \<noteq> [] \<and>
      (k \<noteq> KindRefused \<or> \<not> IsConnectionRefused (Some dialErr) \<or> sc_connection_refused (sb_cfg s)))"

definition record_dial_failure ::
    "'c attempt_env \<Rightarrow> string \<Rightarrow> upstream \<Rightarrow> goerr \<Rightarrow> scoreboard \<Rightarrow> scoreboard" where
  "record_dial_failure a host up dialErr s =
     (let k = ClassifyDialError (Some dialErr);
          s' = (if scores_failure dialErr s
                then RecordFailure (ae_done_now a) host (up_id up) k None s else s)
      in observeDialFailure (up_id up) k (ae_latency a) s')"

definition out_of_retries ::
    "time \<Rightarrow> string \<Rightarrow> goerr list \<Rightarrow> scoreboard \<Rightarrow> 'c dial_end \<times> string list \<times> scoreboard" where
  "out_of_retries tripNow host errs s =
     (Exhausted (errorf_w_opt ''scoreboard: all upstreams failed'' (errors_join errs)), [],
      TripCascade tripNow host s)"

text \<open>
  \<open>dial_loop env tripNow host k i tried errs s\<close>: \<open>k\<close> turns left, turn \<open>i\<close> next. The middle component of
  the result lists the upstreams dialled. The number of attempts is the length of \<open>tried\<close>.
\<close>

fun dial_loop ::
    "(nat \<Rightarrow> 'c attempt_env) \<Rightarrow> time \<Rightarrow> string \<Rightarrow> nat \<Rightarrow> nat \<Rightarrow> string list \<Rightarrow> goerr list \<Rightarrow>
     scoreboard \<Rightarrow> 'c dial_end \<times> string list \<times> scoreboard" where
  "dial_loop env tripNow host 0 i tried errs s = out_of_retries tripNow host errs s"
| "dial_loop env tripNow host (Suc k) i tried errs s =
     (let a = env i; s0 = ae_others a s in
      case ae_ctx_before a of
        Some err \<Rightarrow>
          (Bailed (if tried = [] then errorf_w ''scoreboard: context canceled'' err
                   else ErrJoin (errs @ [errorf_w ''context canceled'' err])), [], s0)
      | None \<Rightarrow>
          (case Pick (ae_pick_now a) (ae_draws a) host tried s0 of
             (Inl e, s1) \<Rightarrow>
               if errors_is e ErrCascadeCooling then (Cooling e, [], s1)
               else out_of_retries tripNow host errs s1
           | (Inr up, s1) \<Rightarrow>
               (let s2 = ae_during a s1 in
                case ae_dial a up of
                  Inr conn \<Rightarrow>
                    (Connected conn (up_id up), [up_id up],
                     observeDialSuccess (up_id up) (ae_latency a)
                       (RecordSuccess (ae_done_now a) host (up_id up) s2))
                | Inl dialErr \<Rightarrow>
                    (case ae_ctx_after a of
                       Some ctxErr \<Rightarrow>
                         (Bailed (ErrJoin (errs @ [errorf_w (up_id up) dialErr,
                            errorf_w ''context canceled'' ctxErr])), [up_id up], s2)
                     | None \<Rightarrow>
                         (let (r, dialled, s') =
                            dial_loop env tripNow host k (Suc i) (up_id up # tried)
                              (errs @ [errorf_w (up_id up) dialErr])
                              (record_dial_failure a host up dialErr s2)
                          in (r, up_id up # dialled, s'))))))"

definition dial_limit :: "scoreboard \<Rightarrow> nat" where
  "dial_limit s =
     nat (if int (sb_pool_len s) < sb_pool_retry_cap s then int (sb_pool_len s) else sb_pool_retry_cap s)"

definition DialFor ::
    "(nat \<Rightarrow> 'c attempt_env) \<Rightarrow> time \<Rightarrow> time \<Rightarrow> string \<Rightarrow> scoreboard \<Rightarrow>
     'c dial_end \<times> string list \<times> scoreboard" where
  "DialFor env startNow tripNow addr s =
     (let host = hostOnly addr in
      if cascadeActive s host startNow then (Cooling (CascadeError host), [], s)
      else dial_loop env tripNow host (dial_limit s) 0 [] [] s)"

subsection \<open>The loop invariant\<close>

text \<open>Other goroutines only run operations of the scoreboard, which keep its invariant.\<close>

definition fair_env :: "rat \<Rightarrow> (nat \<Rightarrow> 'c attempt_env) \<Rightarrow> bool" where
  "fair_env C env \<longleftrightarrow>
     (\<forall>i s. sb_inv C s \<longrightarrow> sb_inv C (ae_others (env i) s) \<and> sb_inv C (ae_during (env i) s))"

lemma fair_envD:
  "fair_env C env \<Longrightarrow> sb_inv C s \<Longrightarrow> sb_inv C (ae_others (env i) s)"
  "fair_env C env \<Longrightarrow> sb_inv C s \<Longrightarrow> sb_inv C (ae_during (env i) s)"
  by (auto simp: fair_env_def)

lemma sb_inv_observe [simp]:
  "sb_inv C (observeDialSuccess uid l s) = sb_inv C s"
  "sb_inv C (observeDialFailure uid k l s) = sb_inv C s"
  by (simp_all add: observeDialSuccess_def observeDialFailure_def)

lemma sb_inv_record_dial_failure [inv_intros]:
  "sb_inv C s \<Longrightarrow> sb_inv C (record_dial_failure a host up e s)"
  by (simp add: record_dial_failure_def Let_def inv_intros)

text \<open>The cases of one turn, over which the properties of the loop are proved.\<close>

lemma dial_loop_cases [consumes 1, case_names bailed cooling exhausted connected cut failed]:
  assumes "dial_loop env tripNow host (Suc k) i tried errs s = (r, dialled, s')"
  obtains
    err where "ae_ctx_before (env i) = Some err" "dialled = []" "s' = ae_others (env i) s"
      "\<exists>e. r = Bailed e"
  | e s1 where "ae_ctx_before (env i) = None"
      "Pick (ae_pick_now (env i)) (ae_draws (env i)) host tried (ae_others (env i) s) = (Inl e, s1)"
      "errors_is e ErrCascadeCooling" "r = Cooling e" "dialled = []" "s' = s1"
  | e s1 where "ae_ctx_before (env i) = None"
      "Pick (ae_pick_now (env i)) (ae_draws (env i)) host tried (ae_others (env i) s) = (Inl e, s1)"
      "\<not> errors_is e ErrCascadeCooling" "(r, dialled, s') = out_of_retries tripNow host errs s1"
  | up s1 conn where "ae_ctx_before (env i) = None"
      "Pick (ae_pick_now (env i)) (ae_draws (env i)) host tried (ae_others (env i) s) = (Inr up, s1)"
      "ae_dial (env i) up = Inr conn" "r = Connected conn (up_id up)" "dialled = [up_id up]"
      "s' = observeDialSuccess (up_id up) (ae_latency (env i))
              (RecordSuccess (ae_done_now (env i)) host (up_id up) (ae_during (env i) s1))"
  | up s1 dialErr ctxErr where "ae_ctx_before (env i) = None"
      "Pick (ae_pick_now (env i)) (ae_draws (env i)) host tried (ae_others (env i) s) = (Inr up, s1)"
      "ae_dial (env i) up = Inl dialErr" "ae_ctx_after (env i) = Some ctxErr"
      "\<exists>e. r = Bailed e" "dialled = [up_id up]" "s' = ae_during (env i) s1"
  | up s1 dialErr rest where "ae_ctx_before (env i) = None"
      "Pick (ae_pick_now (env i)) (ae_draws (env i)) host tried (ae_others (env i) s) = (Inr up, s1)"
      "ae_dial (env i) up = Inl dialErr" "ae_ctx_after (env i) = None"
      "dialled = up_id up # rest"
      "dial_loop env tripNow host k (Suc i) (up_id up # tried) (errs @ [errorf_w (up_id up) dialErr])
         (record_dial_failure (env i) host up dialErr (ae_during (env i) s1)) = (r, rest, s')"
  using assms
  by (auto simp: Let_def split: option.splits prod.splits sum.splits if_splits)

lemma Pick_step:
  assumes "sb_inv C s" and "Pick now d host tried s = (r, s')"
  shows "sb_inv C s'" and "r = Inr up \<Longrightarrow> up_id up \<notin> set tried"
  using assms sb_inv_Pick [of C s now d host tried] Pick_allowed [OF sb_inv_rules [OF assms(1)]]
  by auto

lemma sb_inv_out_of_retries:
  "sb_inv C s \<Longrightarrow> (r, dialled, s') = out_of_retries tripNow host errs s \<Longrightarrow> sb_inv C s' \<and> dialled = []"
  by (simp add: out_of_retries_def inv_intros)

lemma dial_loop_safe:
  assumes "fair_env C env" and "sb_inv C s"
    and "dial_loop env tripNow host k i tried errs s = (r, dialled, s')"
  shows "sb_inv C s' \<and> length dialled \<le> k \<and> distinct dialled \<and> set dialled \<inter> set tried = {}"
  using assms(2,3)
proof (induction k arbitrary: i tried errs s dialled)
  case 0
  then show ?case using sb_inv_out_of_retries [of C s r dialled s' tripNow host errs] by auto
next
  case (Suc k)
  note others = fair_envD(1) [OF assms(1) Suc.prems(1), of i]
  note during = fair_envD(2) [OF assms(1), of _ i]
  from Suc.prems(2) show ?case
  proof (cases rule: dial_loop_cases)
    case (bailed err)
    then show ?thesis using others by simp
  next
    case (cooling e s1)
    then show ?thesis using Pick_step(1) [OF others cooling(2)] by simp
  next
    case (exhausted e s1)
    then show ?thesis
      using Pick_step(1) [OF others exhausted(2)] sb_inv_out_of_retries [of C s1] by fastforce
  next
    case (connected up s1 conn)
    then show ?thesis
      using Pick_step [OF others connected(2)] during by (simp add: inv_intros)
  next
    case (cut up s1 dialErr ctxErr)
    then show ?thesis
      using Pick_step [OF others cut(2)] during by simp
  next
    case (failed up s1 dialErr rest)
    have "sb_inv C (record_dial_failure (env i) host up dialErr (ae_during (env i) s1))"
      using Pick_step(1) [OF others failed(2)] during by (simp add: inv_intros)
    from Suc.IH [OF this failed(6)] failed(5) Pick_step(2) [OF others failed(2) refl]
    show ?thesis by auto
  qed
qed


subsection \<open>How it ends, when no one interferes\<close>

definition alone :: "(nat \<Rightarrow> 'c attempt_env) \<Rightarrow> bool" where
  "alone env \<longleftrightarrow> (\<forall>i s. ae_others (env i) s = s \<and> ae_during (env i) s = s)"

lemma alone_simps [simp]:
  "alone env \<Longrightarrow> ae_others (env i) s = s"
  "alone env \<Longrightarrow> ae_during (env i) s = s"
  unfolding alone_def by blast+

lemma alone_fair: "alone env \<Longrightarrow> fair_env C env"
  unfolding alone_def fair_env_def by metis

text \<open>Operations that leave the cascade table alone, and the tuning.\<close>

lemma emit_frame [simp]:
  "sb_cascade (emit m s) = sb_cascade s" "sb_cfg (emit m s) = sb_cfg s"
  "sb_entries (emit m s) = sb_entries s" "sb_forces (emit m s) = sb_forces s"
  "sb_pool_entries (emit m s) = sb_pool_entries s" "sb_rules (emit m s) = sb_rules s"
  by (simp_all add: emit_def)

lemma call_hook_frame [simp]:
  "sb_cascade (call_hook k s) = sb_cascade s" "sb_cfg (call_hook k s) = sb_cfg s"
  "sb_entries (call_hook k s) = sb_entries s" "sb_forces (call_hook k s) = sb_forces s"
  "sb_pool_entries (call_hook k s) = sb_pool_entries s" "sb_rules (call_hook k s) = sb_rules s"
  by (simp_all add: call_hook_def)

lemma RecordFailure_frame [simp]:
  "sb_cascade (RecordFailure now h u k ov s) = sb_cascade s"
  "sb_cfg (RecordFailure now h u k ov s) = sb_cfg s"
  "sb_forces (RecordFailure now h u k ov s) = sb_forces s"
  "sb_pool_entries (RecordFailure now h u k ov s) = sb_pool_entries s"
  "sb_rules (RecordFailure now h u k ov s) = sb_rules s"
  by (simp_all add: RecordFailure_def Let_def case_prod_beta)

lemma record_dial_failure_frame [simp]:
  "sb_cascade (record_dial_failure a host up e s) = sb_cascade s"
  "sb_cfg (record_dial_failure a host up e s) = sb_cfg s"
  "sb_forces (record_dial_failure a host up e s) = sb_forces s"
  "sb_pool_entries (record_dial_failure a host up e s) = sb_pool_entries s"
  "sb_rules (record_dial_failure a host up e s) = sb_rules s"
  by (simp_all add: record_dial_failure_def observeDialFailure_def Let_def)

lemma Pick_frame:
  assumes "Pick now d host tried s = (r, s')"
  shows "sb_cascade s' = sb_cascade s" and "sb_cfg s' = sb_cfg s" and "sb_entries s' = sb_entries s"
    and "sb_pool_entries s' = sb_pool_entries s" and "sb_rules s' = sb_rules s"
  using assms
  by (auto simp: Pick_unfold Let_def split: if_splits option.splits)

lemma RecordSuccess_cascade [simp]:
  "sb_cascade (RecordSuccess now host uid s) = fmdrop host (sb_cascade s)"
  by (simp add: RecordSuccess_def Let_def case_prod_beta)

lemma observe_frame [simp]:
  "sb_cascade (observeDialSuccess uid l s) = sb_cascade s"
  "sb_entries (observeDialSuccess uid l s) = sb_entries s"
  by (simp_all add: observeDialSuccess_def)

text \<open>The cascade table after a request, by how the request ended.\<close>

definition cascade_after :: "'c dial_end \<Rightarrow> time \<Rightarrow> string \<Rightarrow> scoreboard \<Rightarrow> (string, time) fmap" where
  "cascade_after r tripNow host s =
     (case r of
        Connected _ _ \<Rightarrow> fmdrop host (sb_cascade s)
      | Exhausted _ \<Rightarrow>
          (if 0 < sc_cascade_ttl (sb_cfg s)
           then fmupd host (time_add tripNow (sc_cascade_ttl (sb_cfg s))) (sb_cascade s)
           else sb_cascade s)
      | _ \<Rightarrow> sb_cascade s)"

lemma cascade_after_cong:
  "sb_cascade s = sb_cascade s' \<Longrightarrow> sb_cfg s = sb_cfg s' \<Longrightarrow>
     cascade_after r t host s = cascade_after r t host s'"
  by (simp add: cascade_after_def split: dial_end.splits)

lemma out_of_retries_cascade:
  "(r, dialled, s') = out_of_retries tripNow host errs s \<Longrightarrow>
     sb_cascade s' = cascade_after r tripNow host s"
  by (auto simp: out_of_retries_def cascade_after_def TripCascade_def Let_def)

lemma dial_loop_cascade:
  assumes "alone env"
    and "dial_loop env tripNow host k i tried errs s = (r, dialled, s')"
  shows "sb_cascade s' = cascade_after r tripNow host s"
  using assms(2)
proof (induction k arbitrary: i tried errs s dialled)
  case 0
  then show ?case by (intro out_of_retries_cascade [of r dialled s' tripNow host errs s]) simp
next
  case (Suc k)
  from Suc.prems show ?case
  proof (cases rule: dial_loop_cases)
    case (exhausted e s1)
    have "cascade_after r tripNow host s1 = cascade_after r tripNow host s"
      using Pick_frame [OF exhausted(2)] assms(1) by (intro cascade_after_cong) auto
    then show ?thesis using out_of_retries_cascade [OF exhausted(4)] by simp
  next
    case (failed up s1 dialErr rest)
    have "cascade_after r tripNow host (record_dial_failure (env i) host up dialErr s1) =
        cascade_after r tripNow host s"
      using Pick_frame [OF failed(2)] assms(1) by (intro cascade_after_cong) auto
    then show ?thesis using Suc.IH [OF failed(6)] assms(1) by simp
  qed (use assms(1) Pick_frame in \<open>auto simp: cascade_after_def\<close>)
qed


text \<open>
  C11: only a request that ran out of upstreams trips the cascade of its host (when \<open>cascade_ttl\<close> is
  positive), for exactly that time from the clock; a success clears it; a request whose context
  ended, or that met a cascade, leaves every cascade as it was.
\<close>

theorem DialFor_cascade:
  assumes "alone env" and "DialFor env startNow tripNow addr s = (r, dialled, s')"
  shows "sb_cascade s' = cascade_after r tripNow (hostOnly addr) s"
  using assms(2) dial_loop_cascade [OF assms(1), of tripNow "hostOnly addr" "dial_limit s" 0 "[]" "[]" s]
  by (auto simp: DialFor_def Let_def cascade_after_def split: if_splits)

lemma dial_loop_bailed:
  assumes "\<forall>i. ae_ctx_before (env i) = None \<and> ae_ctx_after (env i) = None"
    and "dial_loop env tripNow host k i tried errs s = (r, dialled, s')"
  shows "r \<noteq> Bailed e"
  using assms(2)
proof (induction k arbitrary: i tried errs s dialled)
  case 0
  then show ?case by (auto simp: out_of_retries_def)
next
  case (Suc k)
  from Suc.prems show ?case
  proof (cases rule: dial_loop_cases)
    case (exhausted e s1)
    then show ?thesis by (auto simp: out_of_retries_def)
  qed (use assms(1) Suc.IH in auto)
qed

text \<open>What is still allowed depends on the rules only.\<close>

lemma allowed_cong:
  "sb_rules s = sb_rules s' \<Longrightarrow> set tried = set tried' \<Longrightarrow>
     allowed s host tried uid = allowed s' host tried' uid"
  by (simp add: allowed_def)

lemma dial_loop_exhausted:
  assumes "alone env" and "\<forall>r \<in> set (sb_rules s). rule_wf r"
    and "dial_loop env tripNow host k i tried errs s = (Exhausted e, dialled, s')"
  shows "length dialled = k \<or> (\<forall>uid \<in> set (PoolIDs s). \<not> allowed s host (dialled @ tried) uid)"
  using assms(2,3)
proof (induction k arbitrary: i tried errs s dialled)
  case 0
  then show ?case by (auto simp: out_of_retries_def)
next
  case (Suc k)
  from Suc.prems(2) show ?case
  proof (cases rule: dial_loop_cases)
    case (exhausted e' s1)
    then have d: "dialled = []" by (simp add: out_of_retries_def)
    have "e' \<noteq> CascadeError host"
      using exhausted(3) by (auto simp: CascadeError_def)
    moreover have "fst (Pick (ae_pick_now (env i)) (ae_draws (env i)) host tried s) = Inl e'"
      using exhausted(2) assms(1) by simp
    ultimately show ?thesis
      using d unfolding Pick_fails_iff [OF Suc.prems(1)] by (auto split: if_splits)
  next
    case (failed up s1 dialErr rest)
    let ?s1 = "record_dial_failure (env i) host up dialErr (ae_during (env i) s1)"
    have fr: "sb_rules ?s1 = sb_rules s" "sb_pool_entries ?s1 = sb_pool_entries s"
      using Pick_frame [OF failed(2)] assms(1) by simp_all
    have "length rest = k \<or> (\<forall>uid \<in> set (PoolIDs ?s1). \<not> allowed ?s1 host (rest @ up_id up # tried) uid)"
      using Suc.IH [OF _ failed(6)] Suc.prems(1) fr by simp
    moreover have "allowed ?s1 host (rest @ up_id up # tried) uid = allowed s host (dialled @ tried) uid"
      for uid using fr failed(5) by (intro allowed_cong) auto
    ultimately show ?thesis using fr failed(5) by (auto simp: PoolIDs_def)
  qed auto
qed


text \<open>The upstreams that were dialled before the one that answered all failed.\<close>

lemma dial_loop_connected:
  assumes "dial_loop env tripNow host k i tried errs s = (Connected conn uid, dialled, s')"
  shows "dialled \<noteq> [] \<and> last dialled = uid \<and>
         (\<exists>up. up_id up = uid \<and> ae_dial (env (i + length dialled - 1)) up = Inr conn) \<and>
         (\<exists>e. entry_at (sb_entries s') host uid = Some e \<and> en_cooldown_until e = zero_time \<and>
            en_last_seen e = ae_done_now (env (i + length dialled - 1))) \<and>
         fmlookup (sb_cascade s') host = None"
  using assms
proof (induction k arbitrary: i tried errs s dialled)
  case 0
  then show ?case by (simp add: out_of_retries_def)
next
  case (Suc k)
  from Suc.prems show ?case
  proof (cases rule: dial_loop_cases)
    case (exhausted e s1)
    then show ?thesis by (simp add: out_of_retries_def)
  next
    case (connected up s1 conn')
    then show ?thesis by (auto simp: RecordSuccess_entries Let_def)
  next
    case (failed up s1 dialErr rest)
    from Suc.IH [OF failed(6)] failed(5) show ?thesis by (cases rest) auto
  qed auto
qed


text \<open>
  The connection \<open>DialFor\<close> hands out is the one the last dialled upstream returned, reported under
  that upstream's id, and its success is on the scoreboard: no cooldown for the pair, seen at the
  time the dial ended, and no cascade for the host.
\<close>

theorem DialFor_connected:
  assumes "DialFor env startNow tripNow addr s = (Connected conn uid, dialled, s')"
  shows "dialled \<noteq> [] \<and> last dialled = uid \<and>
         (\<exists>up. up_id up = uid \<and> ae_dial (env (length dialled - 1)) up = Inr conn) \<and>
         (\<exists>e. entry_at (sb_entries s') (hostOnly addr) uid = Some e \<and>
            en_cooldown_until e = zero_time \<and> en_last_seen e = ae_done_now (env (length dialled - 1))) \<and>
         fmlookup (sb_cascade s') (hostOnly addr) = None"
  using assms dial_loop_connected [of env tripNow "hostOnly addr" "dial_limit s" 0 "[]" "[]" s conn uid dialled s']
  by (auto simp: DialFor_def Let_def split: if_splits)

end
