(* ===== verification/GoText.thy ===== *)
theory GoText
  imports GoStd
begin

text \<open>
  More of Go's text functions, used by the listeners and the control endpoint: \<open>strings.Split\<close>,
  \<open>ContainsAny\<close>, \<open>EqualFold\<close>, \<open>bufio.Scanner\<close> lines, \<open>strconv.Atoi\<close>, \<open>url.URL.Hostname\<close>, and adding to,
  copying and stripping headers.
\<close>

text \<open>\<open>strings.Split(s, sep)\<close> for a one-byte separator: always at least one part.\<close>

fun split_char :: "char \<Rightarrow> string \<Rightarrow> string list" where
  "split_char sep [] = [[]]"
| "split_char sep (c # cs) =
     (if c = sep then [] # split_char sep cs
      else (case split_char sep cs of [] \<Rightarrow> [[c]] | p # ps \<Rightarrow> (c # p) # ps))"

lemma split_char_nonempty [simp]: "split_char sep s \<noteq> []"
  by (induction s) (auto split: list.splits)

lemma split_char_plain: "sep \<notin> set s \<Longrightarrow> split_char sep s = [s]"
  by (induction s) auto

lemma split_char_append:
  "sep \<notin> set p \<Longrightarrow> split_char sep (p @ sep # s) = p # split_char sep s"
  by (induction p) auto

lemma split_char_parts: "p \<in> set (split_char sep s) \<Longrightarrow> sep \<notin> set p"
  by (induction s arbitrary: p) (auto split: list.splits if_splits)

definition contains_any :: "string \<Rightarrow> string \<Rightarrow> bool" where
  "contains_any s chars \<longleftrightarrow> list_ex (\<lambda>c. c \<in> set chars) s"

text \<open>The white space of the three token checks: \<open>" \t\r\n\v\f"\<close>.\<close>

definition token_space :: string where
  "token_space = [CHR 0x20, CHR 0x09, CHR 0x0D, CHR 0x0A, CHR 0x0B, CHR 0x0C]"

lemma contains_token_space: "contains_any s token_space \<longleftrightarrow> list_ex is_space s"
proof -
  have eq: "c = d \<longleftrightarrow> (of_char c :: nat) = of_char d" for c d :: char
    by (simp add: of_char_eq_iff)
  have "c \<in> set token_space \<longleftrightarrow> (of_char c :: nat) \<in> {32, 9, 13, 10, 11, 12}" for c
    unfolding token_space_def set_simps insert_iff empty_iff eq by simp
  moreover have "n \<in> {32, 9, 13, 10, 11, 12} \<longleftrightarrow> n = 32 \<or> (9 \<le> n \<and> n \<le> 13)" for n :: nat
    by force
  ultimately have "c \<in> set token_space \<longleftrightarrow> is_space c" for c
    unfolding is_space_def by metis
  then show ?thesis by (simp add: contains_any_def)
qed

definition equal_fold :: "string \<Rightarrow> string \<Rightarrow> bool" where
  "equal_fold a b \<longleftrightarrow> to_lower a = to_lower b"

definition trim_suffix :: "string \<Rightarrow> string \<Rightarrow> string" where
  "trim_suffix s suf = (if has_prefix (rev s) (rev suf) then take (length s - length suf) s else s)"

definition trim_prefix :: "string \<Rightarrow> string \<Rightarrow> string" where
  "trim_prefix s pre = (if has_prefix s pre then drop (length pre) s else s)"

definition has_suffix :: "string \<Rightarrow> string \<Rightarrow> bool" where
  "has_suffix s suf = has_prefix (rev s) (rev suf)"

text \<open>
  \<open>bufio.Scanner\<close> with \<open>ScanLines\<close>: lines without their newline, from which \<open>drop_cr\<close> takes one carriage
  return; a last line without newline counts unless it is empty.
\<close>

definition drop_cr :: "string \<Rightarrow> string" where
  "drop_cr s = trim_suffix s [CHR 0x0D]"

definition scan_lines :: "string \<Rightarrow> string list" where
  "scan_lines s =
     (let ps = split_char (CHR 0x0A) s
      in if last ps = [] then butlast ps else ps)"

subsection \<open>net/url\<close>

definition valid_optional_port :: "string \<Rightarrow> bool" where
  "valid_optional_port p \<longleftrightarrow> (case p of [] \<Rightarrow> True | c # cs \<Rightarrow> c = CHR '':'' \<and> list_all is_digit cs)"

text \<open>\<open>URL.Hostname\<close>: the port goes when it is a valid one, then the brackets of an IPv6 literal.\<close>

definition strip_port :: "string \<Rightarrow> string" where
  "strip_port hp =
     (let r = rev hp; port = takeWhile (\<lambda>c. c \<noteq> CHR '':'') r
      in if CHR '':'' \<in> set hp \<and> valid_optional_port (CHR '':'' # rev port)
         then rev (drop (Suc (length port)) r) else hp)"

definition url_hostname :: "string \<Rightarrow> string" where
  "url_hostname hp =
     (let h = strip_port hp
      in if has_prefix h ''['' \<and> has_suffix h '']'' then take (length h - 2) (drop 1 h) else h)"

lemma url_hostname_examples:
  "url_hostname ''a.example:8080'' = ''a.example''" "url_hostname ''[::1]:80'' = ''::1''"
  "url_hostname ''a.example'' = ''a.example''" "url_hostname '':80'' = ''''"
  by code_simp+

subsection \<open>Headers\<close>

definition header_add :: "header \<Rightarrow> string \<Rightarrow> string \<Rightarrow> header" where
  "header_add h k v = fmupd (canonical_key k) (header_values h k @ [v]) h"

definition copy_values :: "string \<Rightarrow> string list \<Rightarrow> header \<Rightarrow> header" where
  "copy_values k vs w = fold (\<lambda>v w. header_add w k v) vs w"

text \<open>The nested loop that copies a header; keys that differ are canonical, so their order is immaterial.\<close>

definition copy_headers :: "header \<Rightarrow> header \<Rightarrow> header" where
  "copy_headers h w =
     fold (\<lambda>k w. copy_values k (case fmlookup h k of Some vs \<Rightarrow> vs | None \<Rightarrow> []) w)
       (sorted_list_of_fset (fmdom h)) w"

lemma header_values_add [simp]:
  "header_values (header_add h k v) j =
     (if canonical_key j = canonical_key k then header_values h j @ [v] else header_values h j)"
  by (auto simp: header_values_def header_add_def)

lemma header_values_copy:
  "header_values (copy_values k vs w) j =
     (if canonical_key j = canonical_key k then header_values w j @ vs else header_values w j)"
  by (induction vs arbitrary: w) (auto simp: copy_values_def)

text \<open>Every field name of a parsed header is canonical.\<close>

definition canonical_header :: "header \<Rightarrow> bool" where
  "canonical_header h \<longleftrightarrow> (\<forall>k \<in> fset (fmdom h). canonical_key k = k)"

lemma header_values_copy_headers:
  assumes "canonical_header h"
  shows "header_values (copy_headers h w) j = header_values w j @ header_values h j"
proof -
  have "header_values (fold (\<lambda>k w. copy_values k (case fmlookup h k of Some vs \<Rightarrow> vs | None \<Rightarrow> []) w) ks w) j =
      header_values w j @ (if canonical_key j \<in> set ks then header_values h j else [])"
    if "distinct ks" "set ks \<subseteq> fset (fmdom h)" for ks
    using that
  proof (induction ks arbitrary: w)
    case (Cons k ks)
    have k: "canonical_key k = k" using assms Cons.prems by (simp add: canonical_header_def)
    let ?vs = "case fmlookup h k of Some vs \<Rightarrow> vs | None \<Rightarrow> []"
    have "header_values h j = ?vs" if "canonical_key j = k"
      using that by (simp add: header_values_def)
    then show ?case
      using Cons.IH [of "copy_values k ?vs w"] Cons.prems k
      by (simp add: header_values_copy)
  qed simp
  then have "header_values (copy_headers h w) j =
      header_values w j @ (if canonical_key j \<in> fset (fmdom h) then header_values h j else [])"
    unfolding copy_headers_def by (simp add: sorted_list_of_fset.rep_eq)
  moreover have "header_values h j = []" if "canonical_key j \<notin> fset (fmdom h)"
    using that by (simp add: header_values_def fmdom_notD)
  ultimately show ?thesis by simp
qed

end
