(* ===== verification/HttpListener.thy ===== *)
theory HttpListener
  imports DialLoop Rules GoText
begin

text \<open>
  The HTTP listener of \<open>internal/listener/http.go\<close>: its reloadable knobs, the cache of transports pinned
  to upstreams, the retry loop of the plain-HTTP forward path, and the CONNECT path. The parsed request,
  the outcome of each round trip, the client's context, the clock, and what other goroutines do
  to the scoreboard and the listener between critical sections are the environment of each attempt.
\<close>

subsection \<open>State\<close>

datatype listener_metric =
    LDial string string duration
  | LStatusFailure string string
  | LOutcome string

record http_server =
  hl_detector :: "status_detector option"
  hl_retry_cap :: int
  hl_rules :: rule_set
  hl_body_buffer_bytes :: int
  hl_connection_refused :: bool
  hl_transports :: "(string, upstream) fmap"   \<comment> \<open>upstream id to the upstream its transport dials through\<close>
  hl_tunnels :: "nat fset"
  hl_metrics :: "listener_metric list option"

datatype http_option =
    WithHTTPMetrics bool
  | WithHTTPRules rule_set
  | WithHTTPBodyBufferKB int
  | WithHTTPConnectionRefused bool

definition body_bytes :: "int \<Rightarrow> int" where
  "body_bytes kb = wrap64 ((if kb < 0 then 0 else kb) * 1024)"

definition apply_option :: "http_option \<Rightarrow> http_server \<Rightarrow> http_server" where
  "apply_option opt h =
     (case opt of
        WithHTTPMetrics m \<Rightarrow> h\<lparr>hl_metrics := if m then Some [] else None\<rparr>
      | WithHTTPRules rs \<Rightarrow> h\<lparr>hl_rules := rs\<rparr>
      | WithHTTPBodyBufferKB kb \<Rightarrow> h\<lparr>hl_body_buffer_bytes := body_bytes kb\<rparr>
      | WithHTTPConnectionRefused v \<Rightarrow> h\<lparr>hl_connection_refused := v\<rparr>)"

text \<open>A nil scoreboard is the flag \<open>haveSb = False\<close>.\<close>

definition NewHTTP ::
    "bool \<Rightarrow> status_detector option \<Rightarrow> int \<Rightarrow> http_option list \<Rightarrow> goerr + http_server" where
  "NewHTTP haveSb detector retryCap opts =
     (if \<not> haveSb then Inl (errorf ''listener.NewHTTP: scoreboard is nil'')
      else if retryCap < 1 then Inl (errorf ''listener.NewHTTP: retryCap must be >= 1'')
      else Inr (fold apply_option opts
        \<lparr>hl_detector = detector, hl_retry_cap = retryCap, hl_rules = [], hl_body_buffer_bytes = 0,
         hl_connection_refused = True, hl_transports = fmempty, hl_tunnels = {||}, hl_metrics = None\<rparr>))"

definition http_Reload :: "status_detector option \<Rightarrow> int \<Rightarrow> http_server \<Rightarrow> http_server" where
  "http_Reload detector retryCap h =
     (if retryCap < 1 then h else h\<lparr>hl_detector := detector, hl_retry_cap := retryCap\<rparr>)"

definition ReloadRules :: "rule_set \<Rightarrow> http_server \<Rightarrow> http_server" where
  "ReloadRules rs h = h\<lparr>hl_rules := rs\<rparr>"

definition ReloadBodyBufferKB :: "int \<Rightarrow> http_server \<Rightarrow> http_server" where
  "ReloadBodyBufferKB kb h = h\<lparr>hl_body_buffer_bytes := body_bytes kb\<rparr>"

definition ReloadConnectionRefused :: "bool \<Rightarrow> http_server \<Rightarrow> http_server" where
  "ReloadConnectionRefused v h = h\<lparr>hl_connection_refused := v\<rparr>"

definition CloseTransportsExcept :: "string set \<Rightarrow> http_server \<Rightarrow> http_server" where
  "CloseTransportsExcept keep h =
     h\<lparr>hl_transports := fmfilter (\<lambda>uid. uid \<in> keep) (hl_transports h)\<rparr>"

text \<open>\<open>transportFor\<close>: the upstream the returned transport dials through.\<close>

definition transportFor :: "upstream \<Rightarrow> http_server \<Rightarrow> upstream \<times> http_server" where
  "transportFor up h =
     (case fmlookup (hl_transports h) (up_id up) of
        Some pinned \<Rightarrow> (pinned, h)
      | None \<Rightarrow> (up, h\<lparr>hl_transports := fmupd (up_id up) up (hl_transports h)\<rparr>))"

definition registerTunnel :: "nat \<Rightarrow> http_server \<Rightarrow> http_server" where
  "registerTunnel t h = h\<lparr>hl_tunnels := finsert t (hl_tunnels h)\<rparr>"

definition unregisterTunnel :: "nat \<Rightarrow> http_server \<Rightarrow> http_server" where
  "unregisterTunnel t h = h\<lparr>hl_tunnels := hl_tunnels h |-| {|t|}\<rparr>"

definition http_observe :: "listener_metric \<Rightarrow> http_server \<Rightarrow> http_server" where
  "http_observe m h = h\<lparr>hl_metrics := map_option (\<lambda>ms. ms @ [m]) (hl_metrics h)\<rparr>"

definition observeForwardDial :: "string \<Rightarrow> string \<Rightarrow> duration \<Rightarrow> http_server \<Rightarrow> http_server" where
  "observeForwardDial uid outcome latency h = http_observe (LDial uid outcome latency) h"

definition observeStatusFailure :: "string \<Rightarrow> int \<Rightarrow> http_server \<Rightarrow> http_server" where
  "observeStatusFailure uid code h = http_observe (LStatusFailure uid (itoa code)) h"

definition observeOutcome :: "string \<Rightarrow> http_server \<Rightarrow> http_server" where
  "observeOutcome outcome h = http_observe (LOutcome outcome) h"

definition forwardDialOutcome :: "kind \<Rightarrow> string" where
  "forwardDialOutcome k =
     (if k = KindRefused then ''refused'' else if k = KindTimeout then ''timeout'' else ''other'')"

definition connectOutcome :: "goerr \<Rightarrow> string" where
  "connectOutcome err = (if errors_is err ErrCascadeCooling then ''cascade'' else ''exhausted'')"

subsection \<open>Requests, responses and their headers\<close>

definition maxBufferedRequestBody :: int where "maxBufferedRequestBody = 8 * 2 ^ 20"

record fwd_request =
  rq_method :: string
  rq_scheme :: string
  rq_url_host :: string
  rq_host :: string
  rq_header :: header
  rq_content_length :: int
  rq_body :: "body option"

record out_request =
  or_method :: string
  or_scheme :: string
  or_url_host :: string
  or_host :: string
  or_header :: header
  or_content_length :: int
  or_body :: string

record response =
  rs_status :: int
  rs_header :: header
  rs_body :: body

definition hopHeaders :: "string list" where
  "hopHeaders = [''Connection'', ''Keep-Alive'', ''Proxy-Authenticate'', ''Proxy-Authorization'',
     ''Proxy-Connection'', ''Te'', ''Trailer'', ''Transfer-Encoding'', ''Upgrade'']"

definition stripHopHeaders :: "header \<Rightarrow> header" where
  "stripHopHeaders h =
     (let c = header_get h ''Connection'';
          listed = filter (\<lambda>n. n \<noteq> []) (map trim_space (split_char (CHR '','') c));
          h1 = (if c \<noteq> [] then fold (\<lambda>n h. header_del h n) listed h else h)
      in fold (\<lambda>k h. header_del h k) hopHeaders h1)"

definition stripProxyHeaders :: "header \<Rightarrow> header" where
  "stripProxyHeaders h =
     header_del (header_del (header_del h ''Proxy-Connection'') ''Proxy-Authenticate'') ''Proxy-Authorization''"

text \<open>Every key with the prefix is deleted, through its canonical form.\<close>

definition stripTunnelsmithHeaders :: "header \<Rightarrow> header" where
  "stripTunnelsmithHeaders h =
     fold (\<lambda>k h. if has_prefix k ''X-Tunnelsmith-'' then header_del h k else h)
       (sorted_list_of_fset (fmdom h)) h"

definition newOutReq :: "fwd_request \<Rightarrow> string \<Rightarrow> out_request" where
  "newOutReq r body =
     \<lparr>or_method = rq_method r, or_scheme = rq_scheme r, or_url_host = rq_url_host r,
      or_host = rq_url_host r, or_header = stripProxyHeaders (stripHopHeaders (rq_header r)),
      or_content_length = int (length body), or_body = body\<rparr>"

text \<open>\<open>readBoundedBody\<close>: the bytes read and whether there were more than \<open>limit\<close>.\<close>

definition readBoundedBody :: "body option \<Rightarrow> int \<Rightarrow> goerr + string \<times> bool" where
  "readBoundedBody body limit =
     (case body of
        None \<Rightarrow> Inr ([], False)
      | Some b \<Rightarrow>
          (let (buf, cs, k) = read_limit (nat (limit + 1)) (bd_chunks b)
           in case (if k = 0 then None else bd_end b) of
                Some err \<Rightarrow> Inl err
              | None \<Rightarrow> Inr (buf, limit < int (length buf))))"

text \<open>What the client gets: an error page, a torn-down connection, or a streamed response.\<close>

datatype fwd_reply =
    ErrorPage int header
  | Aborted
  | Streamed int header replay_body

definition writeForwardSuccess :: "response \<Rightarrow> replay_body \<Rightarrow> string \<Rightarrow> nat \<Rightarrow> fwd_reply" where
  "writeForwardSuccess resp body upID retries =
     (let h = stripTunnelsmithHeaders (stripHopHeaders (rs_header resp));
          w = copy_headers h fmempty
      in Streamed (rs_status resp)
           (header_set (header_set w ''X-Tunnelsmith-Upstream'' upID)
              ''X-Tunnelsmith-Retries'' (itoa (int retries))) body)"

subsection \<open>The retry loop\<close>

text \<open>
  The environment of one attempt. \<open>fe_others\<close>, \<open>fe_between\<close> and \<open>fe_during\<close> are what other goroutines do to
  the scoreboard and the listener before the attempt, between \<open>Pick\<close> and \<open>transportFor\<close>, and while the
  round trip runs. \<open>fe_round_trip\<close> answers for the upstream the transport dials through.
\<close>

record forward_env =
  fe_others :: "scoreboard \<times> http_server \<Rightarrow> scoreboard \<times> http_server"
  fe_ctx_before :: "goerr option"
  fe_pick_now :: time
  fe_draws :: draws
  fe_between :: "scoreboard \<times> http_server \<Rightarrow> scoreboard \<times> http_server"
  fe_round_trip :: "upstream \<Rightarrow> out_request \<Rightarrow> goerr + response"
  fe_during :: "scoreboard \<times> http_server \<Rightarrow> scoreboard \<times> http_server"
  fe_latency :: duration
  fe_ctx_after :: "goerr option"
  fe_detect_now :: time
  fe_done_now :: time

text \<open>What a request fixes when it starts: host, outgoing request, detector, patterns, buffer.\<close>

record forward_params =
  fp_host :: string
  fp_out :: out_request
  fp_detector :: "status_detector option"
  fp_patterns :: "pattern option list"
  fp_body_limit :: int

text \<open>The kind of a round-trip error that is attributed to the upstream; empty for any other.\<close>

definition round_trip_kind :: "goerr \<Rightarrow> kind" where
  "round_trip_kind e =
     (if IsTimeout (Some e) then KindTimeout
      else if IsConnectionRefused (Some e) then KindRefused
      else [])"

datatype verdict =
    Serve replay_body
  | StatusFailure detection
  | BodyMatch string
  | BodyError goerr

definition inspect_response ::
    "(string \<Rightarrow> time option) \<Rightarrow> time \<Rightarrow> forward_params \<Rightarrow> response \<Rightarrow> verdict" where
  "inspect_response parseTime now p resp =
     (case Detect parseTime (fp_detector p) now (rs_status resp) (rs_header resp) of
        Some det \<Rightarrow> StatusFailure det
      | None \<Rightarrow>
          if fp_patterns p \<noteq> [] then
            (case BufferAndDecide (Some (rs_body resp)) (header_get (rs_header resp) ''Content-Encoding'')
                    (fp_body_limit p) (fp_patterns p) of
               Inl (e, _) \<Rightarrow> BodyError e
             | Inr dec \<Rightarrow> if bi_matched dec then BodyMatch (bi_pattern dec) else Serve (bi_replay dec))
          else Serve (Passthrough (rs_body resp)))"

text \<open>The bookkeeping of an attempt that failed: on the scoreboard, and in the listener's counters.\<close>

definition record_round_trip_error ::
    "forward_env \<Rightarrow> string \<Rightarrow> string \<Rightarrow> goerr \<Rightarrow> scoreboard \<times> http_server \<Rightarrow> scoreboard \<times> http_server" where
  "record_round_trip_error a host uid e w =
     (let (s, h) = w; k = round_trip_kind e;
          s' = (if k \<noteq> [] \<and> (k \<noteq> KindRefused \<or> hl_connection_refused h)
                then RecordFailure (fe_done_now a) host uid k None s else s)
      in (s', observeForwardDial uid (forwardDialOutcome k) (fe_latency a) h))"

definition record_verdict ::
    "forward_env \<Rightarrow> string \<Rightarrow> string \<Rightarrow> int \<Rightarrow> verdict \<Rightarrow> scoreboard \<times> http_server \<Rightarrow> scoreboard \<times> http_server" where
  "record_verdict a host uid status v w =
     (let (s, h) = w; h' = observeForwardDial uid ''success'' (fe_latency a) h in
      case v of
        Serve _ \<Rightarrow> (RecordSuccess (fe_done_now a) host uid s, h')
      | StatusFailure det \<Rightarrow>
          (RecordFailure (fe_done_now a) host uid (dt_kind det) (dt_cooldown_override det) s,
           observeStatusFailure uid status h')
      | BodyMatch _ \<Rightarrow> (RecordFailure (fe_done_now a) host uid KindBodyMatch None s, h')
      | BodyError _ \<Rightarrow> (s, h'))"

definition forward_exhausted ::
    "time \<Rightarrow> string \<Rightarrow> bool \<Rightarrow> nat \<Rightarrow> scoreboard \<times> http_server \<Rightarrow>
     fwd_reply \<times> string list \<times> scoreboard \<times> http_server" where
  "forward_exhausted tripNow host cascadeAlready retries w =
     (let (s, h) = w in
      (ErrorPage 502 (header_set (header_set fmempty ''X-Tunnelsmith-Cascade'' host)
         ''X-Tunnelsmith-Retries'' (itoa (int retries))), [],
       if cascadeAlready then s else TripCascade tripNow host s,
       observeOutcome (if cascadeAlready then ''cascade'' else ''exhausted'') h))"

text \<open>The transport of the picked upstream, and the shared state when its round trip is over.\<close>

definition forward_dial ::
    "forward_env \<Rightarrow> upstream \<Rightarrow> scoreboard \<times> http_server \<Rightarrow> upstream \<times> scoreboard \<times> http_server" where
  "forward_dial a up w =
     (let (s, h) = fe_between a w; (pinned, h') = transportFor up h
      in (pinned, fe_during a (s, h')))"

text \<open>
  \<open>k\<close> turns left, turn \<open>i\<close> next; the second component lists the upstreams that were attempted.
\<close>

fun forward_loop ::
    "(nat \<Rightarrow> forward_env) \<Rightarrow> (string \<Rightarrow> time option) \<Rightarrow> time \<Rightarrow> forward_params \<Rightarrow> nat \<Rightarrow> nat \<Rightarrow>
     string list \<Rightarrow> nat \<Rightarrow> scoreboard \<times> http_server \<Rightarrow> fwd_reply \<times> string list \<times> scoreboard \<times> http_server" where
  "forward_loop env parseTime tripNow p 0 i tried retries w =
     forward_exhausted tripNow (fp_host p) False retries w"
| "forward_loop env parseTime tripNow p (Suc k) i tried retries w =
     (let a = env i; (s0, h0) = fe_others a w in
      case fe_ctx_before a of
        Some _ \<Rightarrow> (Aborted, [], s0, h0)
      | None \<Rightarrow>
          (case Pick (fe_pick_now a) (fe_draws a) (fp_host p) tried s0 of
             (Inl e, s1) \<Rightarrow>
               forward_exhausted tripNow (fp_host p) (errors_is e ErrCascadeCooling) retries (s1, h0)
           | (Inr up, s1) \<Rightarrow>
               (let (pinned, w4) = forward_dial a up (s1, h0);
                    retry = (\<lambda>w'. let (r, ids, w'') =
                               forward_loop env parseTime tripNow p k (Suc i) (up_id up # tried) (Suc retries) w'
                             in (r, up_id up # ids, w''))
                in case fe_round_trip a pinned (fp_out p) of
                     Inl e \<Rightarrow>
                       (case fe_ctx_after a of
                          Some _ \<Rightarrow> (Aborted, [up_id up], w4)
                        | None \<Rightarrow> retry (record_round_trip_error a (fp_host p) (up_id up) e w4))
                   | Inr resp \<Rightarrow>
                       (let v = inspect_response parseTime (fe_detect_now a) p resp;
                            w5 = record_verdict a (fp_host p) (up_id up) (rs_status resp) v w4
                        in case v of
                             Serve body \<Rightarrow>
                               (writeForwardSuccess resp body (up_id up) retries, [up_id up],
                                fst w5, observeOutcome ''success'' (snd w5))
                           | _ \<Rightarrow> retry w5))))"

definition handleForward ::
    "(nat \<Rightarrow> forward_env) \<Rightarrow> (string \<Rightarrow> time option) \<Rightarrow> time \<Rightarrow> fwd_request \<Rightarrow> scoreboard \<times> http_server \<Rightarrow>
     fwd_reply \<times> string list \<times> scoreboard \<times> http_server" where
  "handleForward env parseTime tripNow r w =
     (let (s, h) = w; scheme = to_lower (rq_scheme r); host = url_hostname (rq_url_host r) in
      if rq_scheme r = [] then (ErrorPage 400 fmempty, [], w)
      else if scheme \<noteq> ''http'' \<and> scheme \<noteq> ''https'' then (ErrorPage 400 fmempty, [], w)
      else if host = [] then (ErrorPage 400 fmempty, [], w)
      else if maxBufferedRequestBody < rq_content_length r then (ErrorPage 413 fmempty, [], w)
      else (case readBoundedBody (rq_body r) maxBufferedRequestBody of
              Inl _ \<Rightarrow> (ErrorPage 502 fmempty, [], w)
            | Inr (_, True) \<Rightarrow> (ErrorPage 413 fmempty, [], w)
            | Inr (body, False) \<Rightarrow>
                (let p = \<lparr>fp_host = host, fp_out = newOutReq r body, fp_detector = hl_detector h,
                       fp_patterns = (if 0 < hl_body_buffer_bytes h
                                      then Patterns (rules_Match (hl_rules h) host) else []),
                       fp_body_limit = hl_body_buffer_bytes h\<rparr>
                 in forward_loop env parseTime tripNow p (nat (hl_retry_cap h)) 0 [] 0 w)))"

subsection \<open>CONNECT\<close>

text \<open>
  \<open>buildConnectResponse\<close>; \<open>valid\<close> is \<open>httpguts.ValidHeaderFieldValue\<close>.
\<close>

definition crlf :: string where "crlf = [CHR 0x0D, CHR 0x0A]"

definition validHeaderFieldValue :: "(string \<Rightarrow> bool) \<Rightarrow> string \<Rightarrow> bool" where
  "validHeaderFieldValue valid v = (if v = [] then False else valid v)"

definition buildConnectResponse :: "(string \<Rightarrow> bool) \<Rightarrow> string \<Rightarrow> string" where
  "buildConnectResponse valid upID =
     (if \<not> validHeaderFieldValue valid upID then ''HTTP/1.1 200 Connection Established'' @ crlf @ crlf
      else ''HTTP/1.1 200 Connection Established'' @ crlf @ ''X-Tunnelsmith-Upstream: '' @ upID @ crlf @ crlf)"

text \<open>
  The client side of a CONNECT: whether the connection can be taken over, and the outcomes of doing so,
  of writing the answer and of flushing. \<open>hj_id\<close> names the tunnel.
\<close>

record hijack_env =
  hj_supported :: bool
  hj_error :: "goerr option"
  hj_write :: "goerr option"
  hj_flush :: "goerr option"
  hj_id :: nat

datatype connect_event =
    CErrorPage int
  | CWrite string
  | CRegister nat
  | CPump
  | CUnregister nat
  | CCloseUp
  | CCloseClient

text \<open>\<open>run\<close> pumps both ways until either side ends and closes both connections.\<close>

definition tunnel_run :: "connect_event list" where
  "tunnel_run = [CPump, CCloseUp, CCloseClient]"

definition handleConnect ::
    "(string \<Rightarrow> bool) \<Rightarrow> (nat \<Rightarrow> 'c attempt_env) \<Rightarrow> time \<Rightarrow> time \<Rightarrow> hijack_env \<Rightarrow> string \<Rightarrow>
     scoreboard \<times> http_server \<Rightarrow> connect_event list \<times> string list \<times> scoreboard \<times> http_server" where
  "handleConnect valid env startNow tripNow hj host w =
     (let (s, h) = w; (res, dialled, s') = DialFor env startNow tripNow host s;
          fail = (\<lambda>e. ([CErrorPage 502], dialled, s', observeOutcome (connectOutcome e) h))
      in case res of
           Cooling e \<Rightarrow> fail e
         | Bailed e \<Rightarrow> fail e
         | Exhausted e \<Rightarrow> fail e
         | Connected conn upID \<Rightarrow>
             if \<not> hj_supported hj then ([CCloseUp, CErrorPage 500], dialled, s', h)
             else if hj_error hj \<noteq> None then ([CCloseUp], dialled, s', h)
             else if hj_write hj \<noteq> None then
               ([CWrite (buildConnectResponse valid upID), CCloseClient, CCloseUp], dialled, s', h)
             else if hj_flush hj \<noteq> None then
               ([CWrite (buildConnectResponse valid upID), CCloseClient, CCloseUp], dialled, s', h)
             else
               ([CWrite (buildConnectResponse valid upID), CRegister (hj_id hj)] @ tunnel_run @ [CUnregister (hj_id hj)],
                dialled, s',
                observeOutcome ''success'' (unregisterTunnel (hj_id hj) (registerTunnel (hj_id hj) h))))"

subsection \<open>The cases of one turn\<close>

lemma forward_loop_cases [consumes 1, case_names early exhausted cut served retried]:
  assumes "forward_loop env parseTime tripNow p (Suc k) i tried retries w = (reply, ids, w')"
  obtains
    err where "fe_ctx_before (env i) = Some err" "reply = Aborted" "ids = []" "w' = fe_others (env i) w"
  | e s1 where "fe_ctx_before (env i) = None"
      "Pick (fe_pick_now (env i)) (fe_draws (env i)) (fp_host p) tried (fst (fe_others (env i) w)) = (Inl e, s1)"
      "(reply, ids, w') = forward_exhausted tripNow (fp_host p) (errors_is e ErrCascadeCooling) retries
         (s1, snd (fe_others (env i) w))"
  | up s1 pinned w4 e err where "fe_ctx_before (env i) = None"
      "Pick (fe_pick_now (env i)) (fe_draws (env i)) (fp_host p) tried (fst (fe_others (env i) w)) = (Inr up, s1)"
      "forward_dial (env i) up (s1, snd (fe_others (env i) w)) = (pinned, w4)"
      "fe_round_trip (env i) pinned (fp_out p) = Inl e" "fe_ctx_after (env i) = Some err"
      "reply = Aborted" "ids = [up_id up]" "w' = w4"
  | up s1 pinned w4 resp body where "fe_ctx_before (env i) = None"
      "Pick (fe_pick_now (env i)) (fe_draws (env i)) (fp_host p) tried (fst (fe_others (env i) w)) = (Inr up, s1)"
      "forward_dial (env i) up (s1, snd (fe_others (env i) w)) = (pinned, w4)"
      "fe_round_trip (env i) pinned (fp_out p) = Inr resp"
      "inspect_response parseTime (fe_detect_now (env i)) p resp = Serve body"
      "reply = writeForwardSuccess resp body (up_id up) retries" "ids = [up_id up]"
      "w' = (RecordSuccess (fe_done_now (env i)) (fp_host p) (up_id up) (fst w4),
             observeOutcome ''success'' (observeForwardDial (up_id up) ''success'' (fe_latency (env i)) (snd w4)))"
  | up s1 pinned w4 w5 rest where "fe_ctx_before (env i) = None"
      "Pick (fe_pick_now (env i)) (fe_draws (env i)) (fp_host p) tried (fst (fe_others (env i) w)) = (Inr up, s1)"
      "forward_dial (env i) up (s1, snd (fe_others (env i) w)) = (pinned, w4)"
      "(\<exists>e. fe_round_trip (env i) pinned (fp_out p) = Inl e \<and> fe_ctx_after (env i) = None \<and>
           w5 = record_round_trip_error (env i) (fp_host p) (up_id up) e w4) \<or>
       (\<exists>resp v. fe_round_trip (env i) pinned (fp_out p) = Inr resp \<and>
           inspect_response parseTime (fe_detect_now (env i)) p resp = v \<and> (\<forall>b. v \<noteq> Serve b) \<and>
           w5 = record_verdict (env i) (fp_host p) (up_id up) (rs_status resp) v w4)"
      "ids = up_id up # rest"
      "forward_loop env parseTime tripNow p k (Suc i) (up_id up # tried) (Suc retries) w5 = (reply, rest, w')"
proof -
  obtain s0 h0 where o: "fe_others (env i) w = (s0, h0)" by fastforce
  show ?thesis
  proof (cases "fe_ctx_before (env i)")
    case (Some err)
    with assms o show ?thesis by (intro that(1)) (auto simp: Let_def)
  next
    case None
    obtain r s1 where pk: "Pick (fe_pick_now (env i)) (fe_draws (env i)) (fp_host p) tried s0 = (r, s1)" by fastforce
    show ?thesis
    proof (cases r)
      case (Inl e)
      with assms o None pk show ?thesis by (intro that(2)) (auto simp: Let_def)
    next
      case (Inr up)
      obtain pinned w4 where fd: "forward_dial (env i) up (s1, h0) = (pinned, w4)"
        by (cases "forward_dial (env i) up (s1, h0)") blast
      note known = o None pk Inr fd
      show ?thesis
      proof (cases "fe_round_trip (env i) pinned (fp_out p)")
        case rt: (Inl e)
        show ?thesis
        proof (cases "fe_ctx_after (env i)")
          case None
          let ?w5 = "record_round_trip_error (env i) (fp_host p) (up_id up) e w4"
          obtain r2 rest w2 where "forward_loop env parseTime tripNow p k (Suc i) (up_id up # tried)
              (Suc retries) ?w5 = (r2, rest, w2)"
            by (cases "forward_loop env parseTime tripNow p k (Suc i) (up_id up # tried) (Suc retries) ?w5") blast
          with assms known rt None show ?thesis
            by (intro that(5) [of up s1 pinned w4 ?w5 rest]) (auto simp: Let_def)
        next
          case (Some err)
          with assms known rt show ?thesis by (intro that(3)) (auto simp: Let_def)
        qed
      next
        case rt: (Inr resp)
        show ?thesis
        proof (cases "\<exists>b. inspect_response parseTime (fe_detect_now (env i)) p resp = Serve b")
          case True
          then obtain b where "inspect_response parseTime (fe_detect_now (env i)) p resp = Serve b" by blast
          with assms known rt show ?thesis
            by (intro that(4)) (auto simp: Let_def record_verdict_def case_prod_unfold)
        next
          case False
          let ?v = "inspect_response parseTime (fe_detect_now (env i)) p resp"
          let ?w5 = "record_verdict (env i) (fp_host p) (up_id up) (rs_status resp) ?v w4"
          obtain r2 rest w2 where "forward_loop env parseTime tripNow p k (Suc i) (up_id up # tried)
              (Suc retries) ?w5 = (r2, rest, w2)"
            by (cases "forward_loop env parseTime tripNow p k (Suc i) (up_id up # tried) (Suc retries) ?w5") blast
          with assms known rt False show ?thesis
            by (intro that(5) [of up s1 pinned w4 ?w5 rest]) (auto simp: Let_def split: verdict.splits)
        qed
      qed
    qed
  qed
qed

end
