(* ===== verification/HealDriver.thy ===== *)
theory HealDriver
  imports Failure Systems
begin

text \<open>
  The auto-heal drivers of \<open>cmd/tunnelsmith/healdriver.go\<close>: one driver per upstream pool that counts
  credential failures (407 answers) in a sliding window, gates on a cooldown, and runs at most one heal
  at a time. \<open>bump\<close> is the code's critical section; the goroutine it starts ends in \<open>heal_done\<close>, the
  deferred function of \<open>runHeal\<close>. The heal itself, a vendor RPC, is a parameter in \<open>Composer\<close>.
\<close>

definition authHealThreshold :: int where "authHealThreshold = 3"
definition authHealWindow :: duration where "authHealWindow = 30 * second"
definition authHealCooldown :: duration where "authHealCooldown = 60 * second"

text \<open>The context a heal derives from: the default one, or the one that a signal cancels.\<close>

datatype heal_ctx = BackgroundCtx | ShutdownCtx

record heal_driver =
  hd_id_prefix :: string
  hd_threshold :: int
  hd_window :: duration
  hd_cooldown :: duration
  hd_composer :: bool      \<comment> \<open>whether the composer is wired\<close>
  hd_parent :: heal_ctx
  hd_events :: "time list"
  hd_last_heal :: time
  hd_in_flight :: bool

definition newAuthHealDriver :: "string \<Rightarrow> heal_driver" where
  "newAuthHealDriver idPrefix =
     \<lparr>hd_id_prefix = idPrefix, hd_threshold = authHealThreshold, hd_window = authHealWindow,
      hd_cooldown = authHealCooldown, hd_composer = False, hd_parent = BackgroundCtx,
      hd_events = [], hd_last_heal = zero_time, hd_in_flight = False\<rparr>"

definition setComposer :: "bool \<Rightarrow> heal_driver \<Rightarrow> heal_driver" where
  "setComposer c d = d\<lparr>hd_composer := c\<rparr>"

text \<open>None is a nil context.\<close>

definition setParentContext :: "heal_ctx option \<Rightarrow> heal_driver \<Rightarrow> heal_driver" where
  "setParentContext ctx d = d\<lparr>hd_parent := (case ctx of None \<Rightarrow> BackgroundCtx | Some c \<Rightarrow> c)\<rparr>"

text \<open>\<open>bump\<close>: the trimmed window, then the gates. The flag says whether a heal was started.\<close>

definition trim_events :: "time \<Rightarrow> heal_driver \<Rightarrow> time list" where
  "trim_events now d =
     (let cutoff = time_add now (- hd_window d);
          keep = filter (\<lambda>t. after t cutoff) (hd_events d) @ [now]
      in if hd_threshold d < int (length keep)
         then drop (nat (int (length keep) - hd_threshold d)) keep else keep)"

definition bump :: "time \<Rightarrow> heal_driver \<Rightarrow> bool \<times> heal_driver" where
  "bump now d =
     (let d1 = d\<lparr>hd_events := trim_events now d\<rparr>
      in if int (length (hd_events d1)) < hd_threshold d1 then (False, d1)
         else if hd_in_flight d1 then (False, d1)
         else if \<not> is_zero_time (hd_last_heal d1) \<and>
                 time_sub now (hd_last_heal d1) < hd_cooldown d1 then (False, d1)
         else if \<not> hd_composer d1 then (False, d1)
         else (True, d1\<lparr>hd_in_flight := True, hd_events := []\<rparr>))"

definition heal_matches :: "heal_driver \<Rightarrow> string \<Rightarrow> kind \<Rightarrow> bool" where
  "heal_matches d upstreamID k \<longleftrightarrow>
     k = KindProxyAuth \<and> has_prefix upstreamID (hd_id_prefix d @ ''-'')"

definition Observe :: "time \<Rightarrow> string \<Rightarrow> string \<Rightarrow> kind \<Rightarrow> heal_driver \<Rightarrow> bool \<times> heal_driver" where
  "Observe now host upstreamID k d =
     (if k \<noteq> KindProxyAuth then (False, d)
      else if \<not> has_prefix upstreamID (hd_id_prefix d @ ''-'') then (False, d)
      else bump now d)"

definition heal_done :: "time \<Rightarrow> heal_driver \<Rightarrow> heal_driver" where
  "heal_done now d = d\<lparr>hd_in_flight := False, hd_last_heal := now\<rparr>"

text \<open>
  The hook of the scoreboard: every driver sees every event. Driver \<open>i\<close> reads its clock as \<open>now i\<close>;
  no hook is registered when there is no driver.
\<close>

definition fanoutFailureHook ::
    "heal_driver list \<Rightarrow> ((nat \<Rightarrow> time) \<Rightarrow> string \<Rightarrow> string \<Rightarrow> kind \<Rightarrow> heal_driver list \<Rightarrow> (bool \<times> heal_driver) list) option" where
  "fanoutFailureHook drivers =
     (if drivers = [] then None
      else Some (\<lambda>now host upstreamID k ds.
        map (\<lambda>(i, d). Observe (now i) host upstreamID k d) (List.enumerate 0 ds)))"

text \<open>Pool blocks as id prefixes, with whether their expander implements \<open>Healer\<close>.\<close>

definition buildAuthHealDrivers :: "(string \<times> bool) list \<Rightarrow> heal_driver list" where
  "buildAuthHealDrivers blocks = [newAuthHealDriver p. (p, healer) \<leftarrow> blocks, healer]"

definition connectAuthHealDriversToComposer :: "heal_driver list \<Rightarrow> heal_ctx option \<Rightarrow> heal_driver list" where
  "connectAuthHealDriversToComposer ds parent = map (setComposer True \<circ> setParentContext parent) ds"

datatype collision = StaticCollision string string | PoolCollision string string

fun static_collision :: "heal_driver list \<Rightarrow> string list \<Rightarrow> collision option" where
  "static_collision [] static = None"
| "static_collision (d # ds) static =
     (case find (\<lambda>uid. has_prefix uid (hd_id_prefix d @ ''-'')) static of
        Some uid \<Rightarrow> Some (StaticCollision uid (hd_id_prefix d))
      | None \<Rightarrow> static_collision ds static)"

fun pool_collision :: "heal_driver list \<Rightarrow> string list \<Rightarrow> collision option" where
  "pool_collision [] prefixes = None"
| "pool_collision (d # ds) prefixes =
     (case find (\<lambda>p. p \<noteq> hd_id_prefix d \<and> has_prefix (p @ ''-'') (hd_id_prefix d @ ''-'')) prefixes of
        Some p \<Rightarrow> Some (PoolCollision (hd_id_prefix d) p)
      | None \<Rightarrow> pool_collision ds prefixes)"

definition validateNoPoolPrefixCollision ::
    "string list \<Rightarrow> heal_driver list \<Rightarrow> string list \<Rightarrow> collision option" where
  "validateNoPoolPrefixCollision static drivers prefixes =
     (case static_collision drivers static of
        Some c \<Rightarrow> Some c | None \<Rightarrow> pool_collision drivers prefixes)"

subsection \<open>Routing of events\<close>

lemma static_collision_None:
  "static_collision ds static = None \<longleftrightarrow>
     (\<forall>d \<in> set ds. \<forall>uid \<in> set static. \<not> has_prefix uid (hd_id_prefix d @ ''-''))"
  by (induction ds static rule: static_collision.induct)
    (auto simp: find_None_iff find_Some_iff split: option.splits)

lemma pool_collision_None:
  "pool_collision ds prefixes = None \<longleftrightarrow>
     (\<forall>d \<in> set ds. \<forall>p \<in> set prefixes. p = hd_id_prefix d \<or>
        \<not> has_prefix (p @ ''-'') (hd_id_prefix d @ ''-''))"
  by (induction ds prefixes rule: pool_collision.induct)
    (auto simp: find_None_iff find_Some_iff split: option.splits)

lemma no_collision_iff:
  "validateNoPoolPrefixCollision static ds prefixes = None \<longleftrightarrow>
     static_collision ds static = None \<and> pool_collision ds prefixes = None"
  by (simp add: validateNoPoolPrefixCollision_def split: option.splits)

lemma Observe_iff: "Observe now host uid k d = (if heal_matches d uid k then bump now d else (False, d))"
  by (simp add: Observe_def heal_matches_def)

text \<open>
  With the start-up check passed, a credential failure of an upstream from a pool that can heal
  moves exactly the driver of that pool, and one of a static upstream moves no driver; every other
  kind of failure moves none.
\<close>

theorem heal_routing:
  assumes "validateNoPoolPrefixCollision static (buildAuthHealDrivers blocks) (map fst blocks) = None"
    and "d \<in> set (buildAuthHealDrivers blocks)"
  shows "(\<forall>uid \<in> set static. Observe now host uid k d = (False, d)) \<and>
         (\<forall>p x. (p, True) \<in> set blocks \<longrightarrow>
            Observe now host (p @ ''-'' @ x) KindProxyAuth d =
              (if p = hd_id_prefix d then bump now d else (False, d))) \<and>
         (\<forall>uid. k \<noteq> KindProxyAuth \<longrightarrow> Observe now host uid k d = (False, d))"
proof -
  let ?ds = "buildAuthHealDrivers blocks"
  have st: "\<not> has_prefix uid (hd_id_prefix e @ ''-'')" if "e \<in> set ?ds" "uid \<in> set static" for e uid
    using assms(1) that by (auto simp: no_collision_iff static_collision_None)
  have pl: "p = hd_id_prefix e \<or> \<not> has_prefix (p @ ''-'') (hd_id_prefix e @ ''-'')"
    if "e \<in> set ?ds" "p \<in> fst ` set blocks" for e p
    using assms(1) that by (auto simp: no_collision_iff pool_collision_None)
  have d: "(hd_id_prefix d, True) \<in> set blocks"
    using assms(2) by (auto simp: buildAuthHealDrivers_def newAuthHealDriver_def split: if_splits)
  have "has_prefix (p @ ''-'' @ x) (hd_id_prefix d @ ''-'') \<longleftrightarrow> p = hd_id_prefix d"
    if "(p, True) \<in> set blocks" for p x
  proof
    assume h: "has_prefix (p @ ''-'' @ x) (hd_id_prefix d @ ''-'')"
    have "newAuthHealDriver p \<in> set ?ds"
      using that by (force simp: buildAuthHealDrivers_def)
    from pl [OF this, of "hd_id_prefix d"] have "hd_id_prefix d = p \<or> \<not> has_prefix (hd_id_prefix d @ ''-'') (p @ ''-'')"
      using d by (force simp: newAuthHealDriver_def)
    moreover have "p = hd_id_prefix d \<or> \<not> has_prefix (p @ ''-'') (hd_id_prefix d @ ''-'')"
      using pl [OF assms(2)] that by force
    moreover have "has_prefix (p @ ''-'' @ x) (p @ ''-'')"
      using has_prefix_append [of "p @ ''-''" x] by simp
    ultimately show "p = hd_id_prefix d" using has_prefix_linear [OF h] by metis
  next
    assume "p = hd_id_prefix d"
    then show "has_prefix (p @ ''-'' @ x) (hd_id_prefix d @ ''-'')"
      using has_prefix_append [of "p @ ''-''" x] by simp
  qed
  then show ?thesis
    using st [OF assms(2)] by (auto simp: Observe_def)
qed

text \<open>
  The start-up check is one-sided: a pool that cannot heal, with id prefix \<open>mv\<close>, passes beside a
  pool with a healer and prefix \<open>mv-us\<close>, although a failure of \<open>mv-us-nyc\<close> of the first moves the
  driver of the second.
\<close>

theorem collision_check_one_sided:
  "\<exists>d. buildAuthHealDrivers [(''mv'', False), (''mv-us'', True)] = [d] \<and>
     validateNoPoolPrefixCollision [] [d] [''mv'', ''mv-us''] = None \<and>
     hd_events (snd (Observe 5 ''h'' (''mv'' @ ''-'' @ ''us-nyc'') KindProxyAuth d)) = [5]"
  by (simp add: buildAuthHealDrivers_def newAuthHealDriver_def Observe_def bump_def trim_events_def
      authHealThreshold_def Let_def no_collision_iff static_collision_None pool_collision_None)

subsection \<open>Bursts, gates and the life of a heal\<close>

lemma trim_events_bound: "0 < hd_threshold d \<Longrightarrow> int (length (trim_events now d)) \<le> hd_threshold d"
  by (auto simp: trim_events_def Let_def)

lemma trim_events_set:
  "t \<in> set (trim_events now d) \<Longrightarrow> t = now \<or> t \<in> set (hd_events d) \<and> after t (time_add now (- hd_window d))"
  by (auto simp: trim_events_def Let_def split: if_splits dest: in_set_dropD)

lemma trim_events_subset:
  "mset (trim_events now d) \<subseteq># add_mset now (filter_mset (\<lambda>t. after t (time_add now (- hd_window d))) (mset (hd_events d)))"
proof -
  let ?keep = "filter (\<lambda>t. after t (time_add now (- hd_window d))) (hd_events d) @ [now]"
  have "mset (drop n xs) \<subseteq># mset xs" for n and xs :: "time list"
    by (metis append_take_drop_id mset_append mset_subset_eq_add_right)
  then have "mset (trim_events now d) \<subseteq># mset ?keep"
    unfolding trim_events_def Let_def by (simp only: split: if_splits) simp
  then show ?thesis by simp
qed

lemma bump_fires_iff:
  "fst (bump now d) \<longleftrightarrow>
     hd_threshold d \<le> int (length (trim_events now d)) \<and> \<not> hd_in_flight d \<and>
     (is_zero_time (hd_last_heal d) \<or> hd_cooldown d \<le> time_sub now (hd_last_heal d)) \<and> hd_composer d"
  by (auto simp: bump_def Let_def)

lemma bump_fields [simp]:
  "hd_id_prefix (snd (bump now d)) = hd_id_prefix d" "hd_threshold (snd (bump now d)) = hd_threshold d"
  "hd_window (snd (bump now d)) = hd_window d" "hd_cooldown (snd (bump now d)) = hd_cooldown d"
  "hd_composer (snd (bump now d)) = hd_composer d" "hd_parent (snd (bump now d)) = hd_parent d"
  "hd_last_heal (snd (bump now d)) = hd_last_heal d"
  "hd_in_flight (snd (bump now d)) = (hd_in_flight d \<or> fst (bump now d))"
  "hd_events (snd (bump now d)) = (if fst (bump now d) then [] else trim_events now d)"
  by (auto simp: bump_def Let_def)

text \<open>
  The system: a driver, the number of heal goroutines alive, and a log, newest first. A goroutine can
  end only if one is alive; the wiring and the clock are free.
\<close>

datatype heal_log = Seen time | Dispatched time heal_ctx | Completed time

record heal_system =
  hs_driver :: heal_driver
  hs_running :: nat
  hs_log :: "heal_log list"

inductive heal_step :: "heal_system \<Rightarrow> heal_system \<Rightarrow> bool" where
  heal_event:
    "heal_matches (hs_driver s) uid k \<Longrightarrow> bump now (hs_driver s) = (False, d') \<Longrightarrow>
     heal_step s (s\<lparr>hs_driver := d', hs_log := Seen now # hs_log s\<rparr>)"
| heal_dispatch:
    "heal_matches (hs_driver s) uid k \<Longrightarrow> bump now (hs_driver s) = (True, d') \<Longrightarrow>
     heal_step s (s\<lparr>hs_driver := d', hs_running := Suc (hs_running s),
                    hs_log := Dispatched now (hd_parent d') # Seen now # hs_log s\<rparr>)"
| heal_complete:
    "0 < hs_running s \<Longrightarrow>
     heal_step s (s\<lparr>hs_driver := heal_done now (hs_driver s), hs_running := hs_running s - 1,
                    hs_log := Completed now # hs_log s\<rparr>)"
| heal_wire_parent:
    "heal_step s (s\<lparr>hs_driver := setParentContext (Some ShutdownCtx) (hs_driver s)\<rparr>)"
| heal_wire_composer:
    "hd_parent (hs_driver s) = ShutdownCtx \<Longrightarrow>
     heal_step s (s\<lparr>hs_driver := setComposer True (hs_driver s)\<rparr>)"

inductive_cases heal_stepE: "heal_step s s'"

definition heal_init :: "heal_system \<Rightarrow> bool" where
  "heal_init s \<longleftrightarrow>
     (\<exists>p. hs_driver s = newAuthHealDriver p) \<and> hs_running s = 0 \<and> hs_log s = []"

text \<open>What the log says of the state: the events since the last dispatch and the last completion.\<close>

fun seen_since :: "heal_log list \<Rightarrow> time list" where
  "seen_since [] = []"
| "seen_since (Seen t # l) = t # seen_since l"
| "seen_since (Dispatched t c # l) = []"
| "seen_since (Completed t # l) = seen_since l"

fun heal_open :: "heal_log list \<Rightarrow> bool" where
  "heal_open [] = False"
| "heal_open (Seen t # l) = heal_open l"
| "heal_open (Dispatched t c # l) = True"
| "heal_open (Completed t # l) = False"

fun last_completed :: "heal_log list \<Rightarrow> time" where
  "last_completed [] = zero_time"
| "last_completed (Completed t # l) = t"
| "last_completed (_ # l) = last_completed l"

definition burst_in :: "duration \<Rightarrow> time \<Rightarrow> heal_log list \<Rightarrow> nat" where
  "burst_in win t l = length (filter (\<lambda>e. e = t \<or> after e (time_add t (- win))) (seen_since l))"

text \<open>Every dispatch of a log was justified at its time, by what the log held then.\<close>

fun heal_log_ok :: "heal_log list \<Rightarrow> bool" where
  "heal_log_ok [] = True"
| "heal_log_ok (Dispatched t c # l) =
     (heal_log_ok l \<and> \<not> heal_open l \<and> c = ShutdownCtx \<and>
      authHealThreshold \<le> int (burst_in authHealWindow t l) \<and>
      (is_zero_time (last_completed l) \<or> authHealCooldown \<le> time_sub t (last_completed l)))"
| "heal_log_ok (Completed t # l) = (heal_log_ok l \<and> heal_open l)"
| "heal_log_ok (Seen t # l) = heal_log_ok l"

definition heal_inv :: "heal_system \<Rightarrow> bool" where
  "heal_inv s \<longleftrightarrow>
     (let d = hs_driver s in
      hd_threshold d = authHealThreshold \<and> hd_window d = authHealWindow \<and> hd_cooldown d = authHealCooldown \<and>
      (hd_composer d \<longrightarrow> hd_parent d = ShutdownCtx) \<and>
      hs_running s = (if hd_in_flight d then 1 else 0) \<and>
      hd_in_flight d = heal_open (hs_log s) \<and> hd_last_heal d = last_completed (hs_log s) \<and>
      int (length (hd_events d)) \<le> hd_threshold d \<and>
      mset (hd_events d) \<subseteq># mset (seen_since (hs_log s)) \<and> heal_log_ok (hs_log s))"

lemma heal_init_inv: "heal_init s \<Longrightarrow> heal_inv s"
  by (auto simp: heal_init_def heal_inv_def newAuthHealDriver_def authHealThreshold_def)

lemma trim_events_seen:
  assumes "mset (hd_events d) \<subseteq># mset xs"
  shows "mset (trim_events now d) \<subseteq># add_mset now (mset xs)"
  using trim_events_subset [of now d] assms multiset_filter_subset [of "\<lambda>t. after t (time_add now (- hd_window d))" "mset (hd_events d)"]
  by (meson mset_subset_eq_add_mset_cancel subset_mset.order_trans)

lemma trim_events_burst:
  assumes "mset (hd_events d) \<subseteq># mset (seen_since l)"
  shows "length (trim_events now d) \<le> burst_in (hd_window d) now (Seen now # l)"
proof -
  let ?P = "\<lambda>e. e = now \<or> after e (time_add now (- hd_window d))"
  have "filter_mset ?P (mset (trim_events now d)) = mset (trim_events now d)"
    using trim_events_set by (subst filter_mset_eq_conv) auto
  then have "mset (trim_events now d) \<subseteq># filter_mset ?P (mset (seen_since (Seen now # l)))"
    using multiset_filter_mono [OF trim_events_seen [OF assms], of ?P now] by simp
  then show ?thesis
    unfolding burst_in_def by (metis mset_filter size_mset size_mset_mono)
qed

lemma heal_step_inv:
  assumes "heal_step s s'" and "heal_inv s"
  shows "heal_inv s'"
  using assms
proof (cases rule: heal_step.cases)
  case (heal_event uid k now d')
  let ?d = "hs_driver s"
  have d': "d' = snd (bump now ?d)" "\<not> fst (bump now ?d)" using heal_event(3) by simp_all
  show ?thesis
    using assms(2) d' heal_event(1) trim_events_bound [of ?d now] trim_events_seen [of ?d "seen_since (hs_log s)" now]
    by (auto simp: heal_inv_def Let_def authHealThreshold_def)
next
  case (heal_dispatch uid k now d')
  let ?d = "hs_driver s"
  have d': "d' = snd (bump now ?d)" "fst (bump now ?d)" using heal_dispatch(3) by simp_all
  have "int (length (trim_events now ?d)) \<le> int (burst_in (hd_window ?d) now (Seen now # hs_log s))"
    using assms(2) trim_events_burst [of ?d "hs_log s" now] by (simp add: heal_inv_def Let_def)
  then show ?thesis
    using assms(2) d' heal_dispatch(1)
    by (auto simp: heal_inv_def Let_def bump_fires_iff authHealThreshold_def)
next
  case (heal_complete now)
  then show ?thesis
    using assms(2) by (auto simp: heal_inv_def Let_def heal_done_def split: if_splits)
next
  case heal_wire_parent
  then show ?thesis using assms(2) by (simp add: heal_inv_def Let_def setParentContext_def)
next
  case heal_wire_composer
  then show ?thesis using assms(2) by (simp add: heal_inv_def Let_def setComposer_def)
qed

interpretation heal: invariant_system heal_init heal_step heal_inv
  by unfold_locales (auto intro: heal_init_inv heal_step_inv)

text \<open>
  C20: along every run of a driver, at most one heal is alive; every heal was started under the
  shutdown-aware context, after at least three matching failures since the previous one and inside 30
  seconds, with no other heal alive, and at least 60 seconds after the end of the previous one; and
  the driver never remembers more than three events.
\<close>

theorem heal_run_sound:
  assumes "heal_init s0" and "heal_step\<^sup>*\<^sup>* s0 s"
  shows "hs_running s \<le> 1 \<and> length (hd_events (hs_driver s)) \<le> 3 \<and>
         (\<forall>later t c earlier. hs_log s = later @ Dispatched t c # earlier \<longrightarrow>
            c = ShutdownCtx \<and> \<not> heal_open earlier \<and> 3 \<le> burst_in authHealWindow t earlier \<and>
            (last_completed earlier = zero_time \<or> authHealCooldown \<le> time_sub t (last_completed earlier)))"
proof -
  have inv: "heal_inv s" using heal.steps_inv [OF assms(2)] heal.init_inv [OF assms(1)] by blast
  have suffix: "heal_log_ok (later @ l) \<Longrightarrow> heal_log_ok l" for later l
    by (induction later rule: heal_log_ok.induct) auto
  have "heal_log_ok (hs_log s)" using inv by (simp add: heal_inv_def Let_def)
  then have "heal_log_ok (Dispatched t c # earlier)" if "hs_log s = later @ Dispatched t c # earlier"
    for later t c earlier
    using suffix [of later "Dispatched t c # earlier"] that by (simp del: heal_log_ok.simps)
  then show ?thesis
    using inv by (fastforce simp: heal_inv_def Let_def authHealThreshold_def is_zero_time_def)
qed

text \<open>Trimming keeps the newest events that are still in the window.\<close>

lemma trim_keeps_tail:
  assumes "hd_events d = xs @ ys" and "\<forall>t \<in> set ys. after t (time_add now (- hd_window d))"
    and "int (length ys) < hd_threshold d"
  shows "\<exists>zs. trim_events now d = zs @ ys @ [now]"
proof -
  let ?P = "\<lambda>t. after t (time_add now (- hd_window d))"
  have keep: "filter ?P (hd_events d) @ [now] = filter ?P xs @ ys @ [now]"
    using assms(1,2) by (simp add: filter_True)
  have "drop n (filter ?P xs @ ys @ [now]) = drop n (filter ?P xs) @ ys @ [now]"
    if "n \<le> length (filter ?P xs)" for n
    using that by simp
  moreover have "nat (int (length (filter ?P xs @ ys @ [now])) - hd_threshold d) \<le> length (filter ?P xs)"
    using assms(3) by simp
  ultimately show ?thesis
    unfolding trim_events_def Let_def keep by (auto split: if_splits)
qed

text \<open>
  A burst is not lost while the driver waits for its composer: the failures of the window stay
  buffered, none starts a heal or uses up the cooldown, and the first failure after the wiring starts
  the heal, unless one is running or cooling down.
\<close>

theorem heal_after_wiring:
  assumes "hd_threshold d = authHealThreshold" and "hd_window d = authHealWindow"
    and "\<not> hd_composer d" and "t1 \<le> t2" and "t2 \<le> t3" and "t3 - t1 < authHealWindow"
  shows "let d1 = snd (bump t1 d); d2 = snd (bump t2 d1) in
         \<not> fst (bump t1 d) \<and> \<not> fst (bump t2 d1) \<and> hd_last_heal d2 = hd_last_heal d \<and>
         (fst (bump t3 (setComposer True d2)) \<longleftrightarrow>
            \<not> hd_in_flight d \<and>
            (hd_last_heal d = zero_time \<or> hd_cooldown d \<le> time_sub t3 (hd_last_heal d)))"
proof -
  define d1 where "d1 = snd (bump t1 d)"
  define d2 where "d2 = snd (bump t2 d1)"
  note d = d1_def d2_def
  have no: "\<not> fst (bump t1 d)" "\<not> fst (bump t2 d1)"
    using assms(3) by (auto simp: d bump_fires_iff)
  have thr: "hd_threshold d1 = 3" "hd_window d1 = authHealWindow" "hd_threshold d2 = 3" "hd_window d2 = authHealWindow"
    using assms(1,2) by (simp_all add: d authHealThreshold_def)
  obtain xs where e1: "hd_events d1 = xs @ [t1]"
    using trim_keeps_tail [of d "hd_events d" "[]" t1] no assms(1) by (auto simp: d authHealThreshold_def)
  have "after t1 (time_add t2 (- authHealWindow))"
    using assms(4-6) by (auto simp: time_defs)
  then obtain ys where e2: "hd_events d2 = ys @ [t1, t2]"
    using trim_keeps_tail [OF e1, of t2] no thr by (auto simp: d)
  let ?d = "setComposer True d2"
  have "\<forall>t \<in> set [t1, t2]. after t (time_add t3 (- hd_window ?d))"
    using assms(4-6) thr by (auto simp: setComposer_def time_defs)
  then obtain zs where "trim_events t3 ?d = zs @ [t1, t2] @ [t3]"
    using trim_keeps_tail [of ?d ys "[t1, t2]" t3] e2 thr by (auto simp: setComposer_def)
  then have "hd_threshold ?d \<le> int (length (trim_events t3 ?d))"
    using thr by (simp add: setComposer_def)
  moreover have "hd_composer ?d" "hd_in_flight ?d = hd_in_flight d" "hd_last_heal ?d = hd_last_heal d"
      "hd_cooldown ?d = hd_cooldown d"
    using no by (auto simp: d setComposer_def)
  ultimately have "fst (bump t3 ?d) \<longleftrightarrow> \<not> hd_in_flight d \<and>
      (hd_last_heal d = zero_time \<or> hd_cooldown d \<le> time_sub t3 (hd_last_heal d))"
    by (auto simp: bump_fires_iff is_zero_time_def)
  moreover have "hd_last_heal d2 = hd_last_heal d" by (simp add: d)
  ultimately show ?thesis using no unfolding d Let_def by blast
qed

end
