(* ===== verification/Tokens.thy ===== *)
theory Tokens
  imports Config GoText
begin

text \<open>
  Bearer tokens of the control endpoint, \<open>internal/control/auth.go\<close>: the token set and its snapshots, the
  Authorization header, the token file and the merge of inline and file tokens. A token is a string;
  \<open>subtle.ConstantTimeCompare\<close> is equality.
\<close>

text \<open>\<open>tokenSnapshot\<close>, a frozen view, and \<open>tokenSet\<close>, which holds the live one.\<close>

type_synonym token_snapshot = "string list"

definition snap_Enabled :: "token_snapshot \<Rightarrow> bool" where
  "snap_Enabled s \<longleftrightarrow> 0 < length s"

definition snap_Allow :: "token_snapshot \<Rightarrow> string \<Rightarrow> bool" where
  "snap_Allow s input =
     (if length s = 0 then True
      else if input = [] then False
      else fold (\<lambda>t ok. ok \<or> t = input) s False)"

record token_set = ts_tokens :: "string list option"

definition NewTokenSet :: "string list \<Rightarrow> token_set" where
  "NewTokenSet tokens = \<lparr>ts_tokens = Some tokens\<rparr>"

definition tokens_Replace :: "string list \<Rightarrow> token_set \<Rightarrow> token_set" where
  "tokens_Replace tokens ts = ts\<lparr>ts_tokens := Some tokens\<rparr>"

definition tokens_Snapshot :: "token_set \<Rightarrow> token_snapshot" where
  "tokens_Snapshot ts = (case ts_tokens ts of None \<Rightarrow> [] | Some s \<Rightarrow> s)"

datatype auth_status = authPresent | authMissing | authMalformed

definition bearer_prefix :: string where "bearer_prefix = ''Bearer ''"

definition extractBearer :: "header \<Rightarrow> string \<times> auth_status" where
  "extractBearer hdr =
     (case header_values hdr ''Authorization'' of
        [] \<Rightarrow> ([], authMissing)
      | h # h' # _ \<Rightarrow> ([], authMalformed)
      | [h] \<Rightarrow>
          if length h \<le> length bearer_prefix then ([], authMalformed)
          else if \<not> equal_fold (take (length bearer_prefix) h) bearer_prefix then ([], authMalformed)
          else (let t = trim_space (drop (length bearer_prefix) h)
                in if t = [] then ([], authMalformed)
                   else if contains_any t token_space then ([], authMalformed)
                   else (t, authPresent)))"

subsection \<open>The token file\<close>

text \<open>A file is what opening it and reading it gives: bytes, and an error that ended the reading.\<close>

type_synonym token_file = "goerr + string \<times> goerr option"

definition maxTokenLine :: nat where "maxTokenLine = 4 * 1024 * 1024"

definition blank_or_tab :: "char \<Rightarrow> bool" where
  "blank_or_tab c \<longleftrightarrow> c = CHR 0x20 \<or> c = CHR 0x09"

definition token_line :: "string \<Rightarrow> string" where
  "token_line text = trim_left blank_or_tab (trim_right (\<lambda>c. blank_or_tab c \<or> c = CHR 0x0D) text)"

text \<open>
  The scan loop: the lines left, the tokens so far, the number of the last line. A line that fills the
  scanner's buffer ends the scan with an error on the next line, and so does a read error.
\<close>

datatype file_error = TokenWhitespace nat | ScanFailed nat

fun scan_tokens :: "string list \<Rightarrow> goerr option \<Rightarrow> string list \<Rightarrow> nat \<Rightarrow> file_error + string list" where
  "scan_tokens [] err out n = (case err of None \<Rightarrow> Inr out | Some _ \<Rightarrow> Inl (ScanFailed (Suc n)))"
| "scan_tokens (l # ls) err out n =
     (if maxTokenLine \<le> length l then Inl (ScanFailed (Suc n))
      else (let t = token_line (drop_cr l) in
            if t = [] \<or> has_prefix t ''#'' then scan_tokens ls err out (Suc n)
            else if contains_any t token_space then Inl (TokenWhitespace (Suc n))
            else if t \<in> set out then scan_tokens ls err out (Suc n)
            else scan_tokens ls err (out @ [t]) (Suc n)))"

datatype load_error = OpenFailed goerr | FileFailed file_error

definition LoadTokensFile :: "string \<Rightarrow> (string \<Rightarrow> token_file) \<Rightarrow> load_error + string list" where
  "LoadTokensFile path fs =
     (if path = [] then Inr []
      else (case fs path of
              Inl e \<Rightarrow> Inl (OpenFailed e)
            | Inr (content, err) \<Rightarrow>
                (case scan_tokens (scan_lines content) err [] 0 of
                   Inl e \<Rightarrow> Inl (FileFailed e) | Inr ts \<Rightarrow> Inr ts)))"

definition add_token :: "string \<Rightarrow> string list \<Rightarrow> string list" where
  "add_token t out = (if t = [] then out else if t \<in> set out then out else out @ [t])"

definition MergeTokens :: "string list \<Rightarrow> string list \<Rightarrow> string list" where
  "MergeTokens inline fromFile =
     (if length inline = 0 \<and> length fromFile = 0 then []
      else fold add_token fromFile (fold add_token inline []))"

subsection \<open>The decision\<close>

text \<open>\<open>checkAuth\<close> on one snapshot: the reject reason, or None when the caller may go on.\<close>

definition checkAuth :: "header \<Rightarrow> token_snapshot \<Rightarrow> string option" where
  "checkAuth hdr snap =
     (case extractBearer hdr of
        (_, authMissing) \<Rightarrow> Some ''auth_missing''
      | (_, authMalformed) \<Rightarrow> Some ''auth_failed''
      | (token, authPresent) \<Rightarrow> if \<not> snap_Allow snap token then Some ''auth_failed'' else None)"

lemma snap_Allow_iff: "snap_Allow s t \<longleftrightarrow> s = [] \<or> (t \<noteq> [] \<and> t \<in> set s)"
proof -
  have "fold (\<lambda>x ok. ok \<or> x = t) xs b \<longleftrightarrow> b \<or> t \<in> set xs" for xs b
    by (induction xs arbitrary: b) auto
  then show ?thesis by (auto simp: snap_Allow_def)
qed

lemma token_ok_iff: "token_ok t \<longleftrightarrow> t \<noteq> [] \<and> \<not> list_ex is_space t"
  by (simp add: token_ok_def list_ex_iff list_all_iff)

lemma trim_space_none: "\<not> list_ex is_space t \<Longrightarrow> trim_space t = t"
proof -
  assume "\<not> list_ex is_space t"
  then have n: "\<forall>c \<in> set t. \<not> is_space c" by (simp add: list_ex_iff)
  have "dropWhile is_space xs = xs" if "\<forall>c \<in> set xs. \<not> is_space c" for xs
    using that by (cases xs) auto
  from this [of t] this [of "rev t"] show ?thesis
    using n by (simp add: trim_space_def trim_left_def trim_right_def)
qed

lemma extractBearer_present:
  "extractBearer hdr = (t, authPresent) \<Longrightarrow> token_ok t"
  by (auto simp: extractBearer_def token_ok_iff contains_token_space Let_def
      split: list.splits if_splits)

lemma extractBearer_roundtrip:
  assumes "header_values hdr ''Authorization'' = [''Bearer '' @ t]" and "token_ok t"
  shows "extractBearer hdr = (t, authPresent)"
  using assms
  by (simp add: extractBearer_def bearer_prefix_def token_ok_iff trim_space_none
      contains_token_space equal_fold_def Let_def)

lemma scan_tokens_sound:
  assumes "scan_tokens ls err out n = Inr ts" and "distinct out" and "list_all token_ok out"
  shows "distinct ts \<and> list_all token_ok ts \<and>
         set ts = set out \<union> {t. \<exists>l \<in> set ls. t = token_line (drop_cr l) \<and> t \<noteq> [] \<and> \<not> has_prefix t ''#''}"
  using assms
proof (induction ls err out n rule: scan_tokens.induct)
  case (1 err out n)
  then show ?case by (simp split: option.splits)
next
  case (2 l ls err out n)
  let ?t = "token_line (drop_cr l)"
  show ?case
  proof (cases "?t = [] \<or> has_prefix ?t ''#''")
    case True
    then show ?thesis using 2 by (auto simp: Let_def split: if_splits)
  next
    case False
    then have b: "token_ok ?t" "\<not> maxTokenLine \<le> length l"
      using 2(4) by (auto simp: Let_def token_ok_iff contains_token_space split: if_splits)
    show ?thesis
    proof (cases "?t \<in> set out")
      case True
      then have "scan_tokens ls err out (Suc n) = Inr ts"
        using 2(4) False b by (auto simp: Let_def split: if_splits)
      with 2(2) [OF b(2) refl False _ True] 2(5,6) b False True show ?thesis
        by (auto simp: token_ok_iff contains_token_space)
    next
      case new: False
      then have "scan_tokens ls err (out @ [?t]) (Suc n) = Inr ts"
        using 2(4) False b by (auto simp: Let_def split: if_splits)
      with 2(3) [OF b(2) refl False _ new] 2(5,6) b False new show ?thesis
        by (auto simp: token_ok_iff contains_token_space)
    qed
  qed
qed

lemma MergeTokens_set:
  "set (MergeTokens a b) = (set a \<union> set b) - {[]} \<and> distinct (MergeTokens a b)"
proof -
  have "set (fold add_token xs out) = (set out \<union> set xs) - ({[]} - set out) \<and> distinct (fold add_token xs out)"
    if "distinct out" for xs out
    using that by (induction xs arbitrary: out) (auto simp: add_token_def)
  from this [of "[]" a] this [of "fold add_token a []" b] show ?thesis
    by (auto simp: MergeTokens_def)
qed

end
