(* ===== verification/Control.thy ===== *)
theory Control
  imports Tokens Failure Upstream SbInvariant
begin

text \<open>
  The control endpoint, \<open>internal/control/handlers.go\<close>, \<open>providers.go\<close> and \<open>server.go\<close>: outcome reports
  of applications, which feed the scoreboard like the proxy's own observations, the health check, and the
  refresh of vendor pools. JSON decoding, \<open>net.ParseIP\<close>, the vendor APIs and the network are parameters.
\<close>

subsection \<open>Host normalisation\<close>

text \<open>\<open>parse_ip h\<close> is the canonical text of the address \<open>h\<close> denotes, if it denotes one.\<close>

type_synonym ip_parser = "string \<Rightarrow> string option"

definition label_char :: "char \<Rightarrow> bool" where
  "label_char c \<longleftrightarrow> is_digit c \<or> (97 \<le> (of_char c :: nat) \<and> (of_char c :: nat) \<le> 122)"

text \<open>The expression \<open>^[a-z0-9](?:[a-z0-9-]{0,61}[a-z0-9])?$\<close>.\<close>

definition hostLabelRe :: "string \<Rightarrow> bool" where
  "hostLabelRe l \<longleftrightarrow>
     l \<noteq> [] \<and> length l \<le> 63 \<and> label_char (hd l) \<and> label_char (last l) \<and>
     list_all (\<lambda>c. label_char c \<or> c = CHR ''-'') l"

fun contains_dots :: "string \<Rightarrow> bool" where
  "contains_dots (a # b # s) = (a = CHR ''.'' \<and> b = CHR ''.'' \<or> contains_dots (b # s))"
| "contains_dots _ = False"

datatype host_error = HostEmpty | HasDelimiters | NotHostPort | BadHostname | BadLabel string | BadPort

definition strip_brackets :: "string \<Rightarrow> string" where
  "strip_brackets h =
     (if has_prefix h ''['' \<and> has_suffix h '']'' then trim_prefix (trim_suffix h '']'') ''['' else h)"

definition normalizeReportHostPart :: "ip_parser \<Rightarrow> string \<Rightarrow> host_error + string" where
  "normalizeReportHostPart parse_ip host0 =
     (let host = strip_brackets host0 in
      if host = [] then Inl HostEmpty
      else (case parse_ip host of
              Some ip \<Rightarrow> Inr ip
            | None \<Rightarrow>
                (let h = to_lower host in
                 if has_prefix h ''.'' \<or> has_suffix h ''.'' \<or> contains_dots h then Inl BadHostname
                 else (case find (\<lambda>l. \<not> hostLabelRe l) (split_char (CHR ''.'') h) of
                         Some l \<Rightarrow> Inl (BadLabel l)
                       | None \<Rightarrow> Inr h))))"

definition validateReportPort :: "string \<Rightarrow> bool" where
  "validateReportPort port = (case parse_int port of None \<Rightarrow> False | Some p \<Rightarrow> \<not> (p < 1 \<or> 65535 < p))"

definition normalizeReportHost :: "ip_parser \<Rightarrow> string \<Rightarrow> host_error + string" where
  "normalizeReportHost parse_ip host0 =
     (let host = trim_space host0 in
      if host = [] then Inl HostEmpty
      else if contains_any host ''/?#'' then Inl HasDelimiters
      else (case split_host_port host of
              Inr (h, port) \<Rightarrow>
                (case normalizeReportHostPart parse_ip h of
                   Inl e \<Rightarrow> Inl e
                 | Inr n \<Rightarrow>
                     if \<not> validateReportPort port then Inl BadPort else Inr (join_host_port n port))
            | Inl _ \<Rightarrow>
                if parse_ip (trim_suffix (trim_prefix host ''['') '']'') \<noteq> None then
                  normalizeReportHostPart parse_ip host
                else if CHR '':'' \<in> set host then Inl NotHostPort
                else normalizeReportHostPart parse_ip host))"

definition scoreboardHostKey :: "string \<Rightarrow> string" where
  "scoreboardHostKey host = (case split_host_port host of Inr (h, _) \<Rightarrow> h | Inl _ \<Rightarrow> host)"

subsection \<open>Reports\<close>

definition outcomeOK :: string where "outcomeOK = ''ok''"

definition outcomeMap :: "string \<Rightarrow> kind option" where
  "outcomeMap = map_of
     [(''rate_limited'', KindRateLimit), (''forbidden'', KindForbidden), (''legal_block'', KindLegalBlock),
      (''geo_block'', KindBodyMatch), (''timeout'', KindTimeout), (''refused'', KindRefused)]"

record report_request =
  rr_host :: string
  rr_upstream :: string
  rr_outcome :: string
  rr_http_status :: "int option"

definition resolveOutcome :: "string \<Rightarrow> kind option" where
  "resolveOutcome outcome = (if outcome = outcomeOK then Some [] else outcomeMap outcome)"

definition missingFields :: "report_request \<Rightarrow> string" where
  "missingFields r =
     (if rr_host r = [] then ''host'' else if rr_upstream r = [] then ''upstream''
      else if rr_outcome r = [] then ''outcome'' else [])"

definition maxReportBytes :: int where "maxReportBytes = 4 * 1024"

text \<open>The interface \<open>Backend\<close>; a nil one is None.\<close>

record 's backend =
  be_HasUpstream :: "'s \<Rightarrow> string \<Rightarrow> bool"
  be_RecordSuccess :: "time \<Rightarrow> string \<Rightarrow> string \<Rightarrow> 's \<Rightarrow> 's"
  be_RecordFailure :: "time \<Rightarrow> string \<Rightarrow> string \<Rightarrow> kind \<Rightarrow> duration option \<Rightarrow> 's \<Rightarrow> 's"

datatype report_metric = ReportReceived string string | ReportRejected string

record control_request =
  cq_method :: string
  cq_path :: string
  cq_query_plan :: string
  cq_header :: header
  cq_body :: body

text \<open>
  The JSON decoder: an error, or the first value with whether only white space follows it.
\<close>

type_synonym report_decoder = "string \<Rightarrow> goerr + report_request \<times> bool"

text \<open>The auth gate at the head of a handler; a nil token source is None.\<close>

definition auth_gate :: "header \<Rightarrow> token_set option \<Rightarrow> string option" where
  "auth_gate hdr tokens =
     (case tokens of
        None \<Rightarrow> None
      | Some ts \<Rightarrow>
          (let snap = tokens_Snapshot ts in if snap_Enabled snap then checkAuth hdr snap else None))"

text \<open>\<open>handleReport\<close>: the status, the counters that tick, and the backend's state.\<close>

definition handleReport ::
    "'s backend option \<Rightarrow> report_decoder \<Rightarrow> ip_parser \<Rightarrow> token_set option \<Rightarrow> time \<Rightarrow> control_request \<Rightarrow> 's \<Rightarrow>
     int \<times> report_metric list \<times> 's" where
  "handleReport backend decode parse_ip tokens now r s =
     (let reject = (\<lambda>reason status. (status, [ReportRejected reason], s)) in
      if cq_method r \<noteq> ''POST'' then (405, [], s)
      else (case auth_gate (cq_header r) tokens of
        Some reason \<Rightarrow> reject reason 401
      | None \<Rightarrow>
        (let (body, cs, k) = read_limit (nat (maxReportBytes + 1)) (bd_chunks (cq_body r)) in
         if k \<noteq> 0 \<and> bd_end (cq_body r) \<noteq> None then reject ''bad_json'' 400
         else if maxReportBytes < int (length body) then reject ''bad_json'' 413
         else (case decode body of
           Inl _ \<Rightarrow> reject ''bad_json'' 400
         | Inr (req, eof) \<Rightarrow>
           if \<not> eof then reject ''bad_json'' 400
           else (case backend of
             None \<Rightarrow> reject ''scoreboard_unavailable'' 503
           | Some be \<Rightarrow>
             if missingFields req \<noteq> [] then reject ''missing_field'' 400
             else (case normalizeReportHost parse_ip (rr_host req) of
               Inl _ \<Rightarrow> reject ''bad_json'' 400
             | Inr normalizedHost \<Rightarrow>
               (case resolveOutcome (rr_outcome req) of
                 None \<Rightarrow> reject ''unknown_outcome'' 400
               | Some kind \<Rightarrow>
                 if \<not> be_HasUpstream be s (rr_upstream req) then reject ''unknown_upstream'' 404
                 else
                   (204, [ReportReceived (rr_outcome req) (rr_upstream req)],
                    if rr_outcome req = outcomeOK
                    then be_RecordSuccess be now (scoreboardHostKey normalizedHost) (rr_upstream req) s
                    else be_RecordFailure be now (scoreboardHostKey normalizedHost) (rr_upstream req) kind None s))))))))"

definition handleHealthz :: "bool \<Rightarrow> token_set option \<Rightarrow> control_request \<Rightarrow> int" where
  "handleHealthz gateHealthz tokens r =
     (if gateHealthz \<and> auth_gate (cq_header r) tokens \<noteq> None then 401 else 200)"

subsection \<open>Vendor pools\<close>

record provider_binding =
  pb_id_prefix :: string
  pb_provider :: string
  pb_has_api :: bool

type_synonym provider_registry = "provider_binding list"

definition NewProviderRegistry :: "provider_binding list \<Rightarrow> provider_registry" where
  "NewProviderRegistry bindings = bindings"

definition registry_Lookup :: "provider_registry \<Rightarrow> string \<Rightarrow> provider_binding option" where
  "registry_Lookup reg idPrefix = find (\<lambda>b. pb_id_prefix b = idPrefix) reg"

definition registry_List :: "provider_registry \<Rightarrow> provider_binding list" where
  "registry_List reg = slice_sort (\<lambda>a b. pb_id_prefix a < pb_id_prefix b) reg"

datatype provider_reply =
    PlainError int
  | ListReply "(string \<times> string \<times> bool) list"
  | RefreshError int string string string
  | RefreshAccepted string string

definition handleProvidersList :: "provider_registry \<Rightarrow> token_set option \<Rightarrow> control_request \<Rightarrow> provider_reply" where
  "handleProvidersList reg tokens r =
     (if cq_method r \<noteq> ''GET'' then PlainError 405
      else (case auth_gate (cq_header r) tokens of
              Some _ \<Rightarrow> PlainError 401
            | None \<Rightarrow>
                ListReply (map (\<lambda>b. (pb_id_prefix b, pb_provider b, pb_has_api b)) (registry_List reg))))"

definition classifyProviderError :: "goerr \<Rightarrow> int \<times> string" where
  "classifyProviderError err =
     (if errors_is err DeadlineExceeded then (504, ''upstream timeout'')
      else if errors_is err ErrAPIRateLimited then (429, ''vendor rate limited'')
      else (502, ''refresh failed''))"

text \<open>
  \<open>api prefix plan\<close> is the outcome of the binding's \<open>RefreshProxyList\<close>; the second component lists the calls.
\<close>

definition handleProviderRefresh ::
    "provider_registry \<Rightarrow> (string \<Rightarrow> string \<Rightarrow> goerr option) \<Rightarrow> string \<Rightarrow> token_set option \<Rightarrow> control_request \<Rightarrow>
     provider_reply \<times> (string \<times> string) list" where
  "handleProviderRefresh reg api idPrefix tokens r =
     (if cq_method r \<noteq> ''POST'' then (PlainError 405, [])
      else (case auth_gate (cq_header r) tokens of
              Some _ \<Rightarrow> (PlainError 401, [])
            | None \<Rightarrow>
                (case registry_Lookup reg idPrefix of
                   None \<Rightarrow> (PlainError 404, [])
                 | Some b \<Rightarrow>
                     if \<not> pb_has_api b then
                       (RefreshError 501 (pb_id_prefix b) (pb_provider b) ''provider has no API surface'', [])
                     else
                       (case api idPrefix (cq_query_plan r) of
                          Some err \<Rightarrow>
                            (let (status, msg) = classifyProviderError err
                             in RefreshError status (pb_id_prefix b) (pb_provider b) msg)
                        | None \<Rightarrow> RefreshAccepted idPrefix (pb_provider b),
                        [(idPrefix, cq_query_plan r)]))))"

definition providers_path :: "string \<Rightarrow> (string \<times> string) option" where
  "providers_path path =
     (case split_char (CHR ''/'') (trim_prefix path ''/v1/providers/'') of
        [a, b] \<Rightarrow> if a = [] \<or> b = [] then None else Some (a, b)
      | _ \<Rightarrow> None)"

definition providers_route ::
    "provider_registry \<Rightarrow> (string \<Rightarrow> string \<Rightarrow> goerr option) \<Rightarrow> token_set option \<Rightarrow> control_request \<Rightarrow>
     provider_reply \<times> (string \<times> string) list" where
  "providers_route reg api tokens r =
     (case providers_path (cq_path r) of
        None \<Rightarrow> (PlainError 404, [])
      | Some (idPrefix, action) \<Rightarrow>
          if action = ''refresh'' then handleProviderRefresh reg api idPrefix tokens r
          else (PlainError 404, []))"

subsection \<open>The server\<close>

record control_options =
  co_tokens :: "string list"
  co_gate_healthz :: bool
  co_providers :: "provider_registry option"
  co_tls_cert :: string
  co_tls_key :: string

record control_server =
  cs_tokens :: token_set
  cs_gate_healthz :: bool
  cs_providers :: "provider_registry option"
  cs_tls_cert :: string
  cs_tls_key :: string

definition NewServer :: "control_options \<Rightarrow> control_server" where
  "NewServer opts =
     \<lparr>cs_tokens = NewTokenSet (co_tokens opts), cs_gate_healthz = co_gate_healthz opts,
      cs_providers = co_providers opts, cs_tls_cert = co_tls_cert opts, cs_tls_key = co_tls_key opts\<rparr>"

text \<open>A nil server is None.\<close>

definition ReplaceTokens :: "string list \<Rightarrow> control_server option \<Rightarrow> control_server option" where
  "ReplaceTokens tokens s = map_option (\<lambda>c. c\<lparr>cs_tokens := tokens_Replace tokens (cs_tokens c)\<rparr>) s"

definition TLSEnabled :: "control_server option \<Rightarrow> bool" where
  "TLSEnabled s = (case s of None \<Rightarrow> False | Some c \<Rightarrow> cs_tls_cert c \<noteq> [] \<and> cs_tls_key c \<noteq> [])"

datatype serve_end = BindRefused goerr | ServedTLS | ServedPlain

text \<open>\<open>keypair\<close> and \<open>bind\<close> are the outcomes of loading the key pair and of listening.\<close>

definition control_Serve :: "goerr option \<Rightarrow> goerr option \<Rightarrow> control_server \<Rightarrow> serve_end" where
  "control_Serve keypair bind c =
     (if (cs_tls_cert c = []) \<noteq> (cs_tls_key c = []) then
        BindRefused (errorf ''control serve: tls_cert_file and tls_key_file must be both set or both empty'')
      else if TLSEnabled (Some c) \<and> keypair \<noteq> None then
        BindRefused (errorf_w ''control serve: load tls keypair'' (the keypair))
      else (case bind of
              Some e \<Rightarrow> BindRefused (errorf_w ''control listen'' e)
            | None \<Rightarrow> if TLSEnabled (Some c) then ServedTLS else ServedPlain))"

text \<open>The routes that \<open>NewServer\<close> mounts.\<close>

definition control_status ::
    "'s backend option \<Rightarrow> report_decoder \<Rightarrow> ip_parser \<Rightarrow> (string \<Rightarrow> string \<Rightarrow> goerr option) \<Rightarrow> control_server \<Rightarrow>
     time \<Rightarrow> control_request \<Rightarrow> 's \<Rightarrow> int \<times> 's" where
  "control_status backend decode parse_ip api c now r s =
     (let code = (\<lambda>p. case p of PlainError n \<Rightarrow> n | ListReply _ \<Rightarrow> 200 | RefreshError n _ _ _ \<Rightarrow> n
                       | RefreshAccepted _ _ \<Rightarrow> 202)
      in if cq_path r = ''/healthz'' then (handleHealthz (cs_gate_healthz c) (Some (cs_tokens c)) r, s)
         else if cq_path r = ''/v1/report'' then
           (let (status, _, s') = handleReport backend decode parse_ip (Some (cs_tokens c)) now r s in (status, s'))
         else (case cs_providers c of
                 None \<Rightarrow> (404, s)
               | Some reg \<Rightarrow>
                   if cq_path r = ''/v1/providers'' then (code (handleProvidersList reg (Some (cs_tokens c)) r), s)
                   else if has_prefix (cq_path r) ''/v1/providers/'' then
                     (code (fst (providers_route reg api (Some (cs_tokens c)) r)), s)
                   else (404, s)))"

subsection \<open>The decision, end to end\<close>


subsection \<open>Reports reach the backend only when every check passed\<close>

text \<open>What \<open>handleReport\<close> demands of a request before it applies the report.\<close>

definition report_body :: "control_request \<Rightarrow> string option" where
  "report_body r =
     (let (body, cs, k) = read_limit (nat (maxReportBytes + 1)) (bd_chunks (cq_body r))
      in if k \<noteq> 0 \<and> bd_end (cq_body r) \<noteq> None \<or> maxReportBytes < int (length body) then None else Some body)"

definition report_accepted ::
    "(string \<Rightarrow> bool) \<Rightarrow> report_decoder \<Rightarrow> ip_parser \<Rightarrow> token_set option \<Rightarrow> control_request \<Rightarrow>
     (report_request \<times> string \<times> kind) option" where
  "report_accepted has decode parse_ip tokens r =
     (if cq_method r \<noteq> ''POST'' \<or> auth_gate (cq_header r) tokens \<noteq> None then None
      else (case report_body r of None \<Rightarrow> None | Some body \<Rightarrow>
        (case decode body of
           Inr (req, True) \<Rightarrow>
             (case (normalizeReportHost parse_ip (rr_host req), resolveOutcome (rr_outcome req)) of
                (Inr n, Some k) \<Rightarrow>
                  if missingFields req = [] \<and> has (rr_upstream req) then Some (req, scoreboardHostKey n, k) else None
              | _ \<Rightarrow> None)
         | _ \<Rightarrow> None)))"

lemma handleReport_cases:
  "case report_accepted (be_HasUpstream be s) decode parse_ip tokens r of
     Some (req, key, k) \<Rightarrow>
       handleReport (Some be) decode parse_ip tokens now r s =
         (204, [ReportReceived (rr_outcome req) (rr_upstream req)],
          if rr_outcome req = outcomeOK then be_RecordSuccess be now key (rr_upstream req) s
          else be_RecordFailure be now key (rr_upstream req) k None s)
   | None \<Rightarrow>
       (\<exists>status obs. handleReport (Some be) decode parse_ip tokens now r s = (status, obs, s) \<and> status \<noteq> 204 \<and>
          (status = 405 \<and> obs = [] \<or> status \<noteq> 405 \<and> (\<exists>reason. obs = [ReportRejected reason])))"
  by (auto simp: handleReport_def report_accepted_def report_body_def Let_def
      split: option.splits sum.splits prod.splits bool.splits if_splits)

text \<open>The laws a backend promises, and what reports then keep.\<close>

locale report_backend =
  fixes be :: "'s backend" and inv :: "'s \<Rightarrow> bool"
  assumes success_inv: "inv s \<Longrightarrow> inv (be_RecordSuccess be now host uid s)"
    and failure_inv: "inv s \<Longrightarrow> inv (be_RecordFailure be now host uid k ov s)"
    and success_has: "be_HasUpstream be (be_RecordSuccess be now host uid s) = be_HasUpstream be s"
    and failure_has: "be_HasUpstream be (be_RecordFailure be now host uid k ov s) = be_HasUpstream be s"
begin

lemma report_inv:
  assumes "inv s" and "handleReport (Some be) decode parse_ip tokens now r s = (status, obs, s')"
  shows "inv s' \<and> be_HasUpstream be s' = be_HasUpstream be s"
  using handleReport_cases [where be = be and s = s and decode = decode and parse_ip = parse_ip and tokens = tokens
      and r = r and now = now] assms success_inv failure_inv
    success_has failure_has
  by (auto split: option.splits prod.splits if_splits)

text \<open>Any sequence of requests, each with its own time, tokens and decoder outcome.\<close>

lemma reports_inv:
  assumes "inv s"
  shows "inv (fold (\<lambda>(now, tokens, r) s. snd (snd (handleReport (Some be) decode parse_ip tokens now r s))) rs s) \<and>
         be_HasUpstream be (fold (\<lambda>(now, tokens, r) s. snd (snd (handleReport (Some be) decode parse_ip tokens now r s))) rs s) =
           be_HasUpstream be s"
  using assms
proof (induction rs arbitrary: s)
  case (Cons x rs)
  obtain now tokens r where x: "x = (now, tokens, r)" by (cases x) auto
  obtain status obs s' where h: "handleReport (Some be) decode parse_ip tokens now r s = (status, obs, s')"
    by (cases "handleReport (Some be) decode parse_ip tokens now r s") auto
  from report_inv [OF Cons.prems h] Cons.IH [of s'] x h show ?case by simp
qed simp

end

text \<open>The scoreboard as a backend.\<close>

definition scoreboard_backend :: "scoreboard backend" where
  "scoreboard_backend =
     \<lparr>be_HasUpstream = HasUpstream, be_RecordSuccess = RecordSuccess, be_RecordFailure = RecordFailure\<rparr>"

lemma HasUpstream_record [simp]:
  "HasUpstream (RecordSuccess now host uid s) = HasUpstream s"
  "HasUpstream (RecordFailure now host uid k ov s) = HasUpstream s"
  by (auto simp: fun_eq_iff HasUpstream_def RecordSuccess_def RecordFailure_def penalize_def call_hook_def emit_def Let_def
      split: prod.splits if_splits option.splits)

interpretation sb_backend: report_backend scoreboard_backend "sb_inv C" for C
  by unfold_locales (simp_all add: scoreboard_backend_def inv_intros)

text \<open>
  C28: a report changes the scoreboard exactly when it is answered 204, and then by the one bookkeeping
  step the proxy itself would take; any other answer counts one rejection (none for a wrong method) and
  changes nothing; and no sequence of reports breaks the scoreboard's invariant or its pool.
\<close>

theorem handleReport_effect:
  assumes "sb_inv C s" and "handleReport (Some scoreboard_backend) decode parse_ip tokens now r s = (status, obs, s')"
  shows "(case report_accepted (HasUpstream s) decode parse_ip tokens r of
            None \<Rightarrow> status \<noteq> 204 \<and> s' = s \<and> length obs = (if status = 405 then 0 else 1)
          | Some (req, key, k) \<Rightarrow>
              status = 204 \<and> rr_upstream req \<in> set (PoolIDs s) \<and>
              s' = (if rr_outcome req = outcomeOK then RecordSuccess now key (rr_upstream req) s
                    else RecordFailure now key (rr_upstream req) k None s)) \<and>
         sb_inv C s' \<and> PoolIDs s' = PoolIDs s"
proof -
  have "sb_inv C s'" using sb_backend.report_inv [OF assms] by blast
  moreover have "PoolIDs (RecordSuccess now h u s) = PoolIDs s" "PoolIDs (RecordFailure now h u k ov s) = PoolIDs s" for h u k ov
    by (simp_all add: PoolIDs_def RecordSuccess_def RecordFailure_def penalize_def call_hook_def emit_def Let_def
        split: prod.splits if_splits option.splits)
  moreover have "rr_upstream req \<in> set (PoolIDs s)"
    if "report_accepted (HasUpstream s) decode parse_ip tokens r = Some (req, key, k)" for req key k
    using that
    by (force simp: report_accepted_def HasUpstream_def PoolIDs_def list_ex_iff
        split: option.splits sum.splits prod.splits bool.splits if_splits)
  ultimately show ?thesis
    using handleReport_cases [where be = scoreboard_backend and s = s and decode = decode and parse_ip = parse_ip
      and tokens = tokens and r = r and now = now] assms(2)
    by (auto simp: scoreboard_backend_def split: option.splits prod.splits)
qed

subsection \<open>Reports and traffic meet on the same entry\<close>

lemma hostLabelRe_chars: "hostLabelRe l \<Longrightarrow> c \<in> set l \<Longrightarrow> label_char c \<or> c = CHR ''-''"
  by (auto simp: hostLabelRe_def list_all_iff)

definition host_char :: "char \<Rightarrow> bool" where
  "host_char c \<longleftrightarrow> label_char c \<or> c = CHR ''-'' \<or> c = CHR ''.''"

lemma host_char_plain:
  "host_char c \<Longrightarrow> c \<noteq> CHR '':'' \<and> c \<noteq> CHR ''['' \<and> c \<noteq> CHR '']'' \<and> c \<notin> set ''/?#''"
  by (auto simp: host_char_def label_char_def is_digit_def digit_val_def)

lemma split_char_cover:
  "c \<in> set s \<Longrightarrow> c = sep \<or> (\<exists>p \<in> set (split_char sep s). c \<in> set p)"
  by (induction s) (auto split: list.splits if_splits)

lemma normalized_hostname:
  assumes "normalizeReportHostPart parse_ip h = Inr n" and "parse_ip (strip_brackets h) = None"
  shows "n = to_lower (strip_brackets h)" and "\<forall>c \<in> set n. host_char c"
proof -
  show n: "n = to_lower (strip_brackets h)"
    using assms by (auto simp: normalizeReportHostPart_def Let_def split: if_splits option.splits)
  have "find (\<lambda>l. \<not> hostLabelRe l) (split_char (CHR ''.'') n) = None"
    using assms n by (auto simp: normalizeReportHostPart_def Let_def split: if_splits option.splits)
  then have "\<forall>l \<in> set (split_char (CHR ''.'') n). hostLabelRe l" by (simp add: find_None_iff)
  then show "\<forall>c \<in> set n. host_char c"
    using split_char_cover [of _ n "CHR ''.''"] hostLabelRe_chars unfolding host_char_def by blast
qed

lemma hostname_plain: "\<forall>c \<in> set n. host_char c \<Longrightarrow> plain_host n \<and> CHR '':'' \<notin> set n"
  using host_char_plain by (auto simp: plain_host_def)

lemma port_plain:
  assumes "parse_int port = Some v" shows "plain_port port"
proof -
  have d: "plain_port cs" if "parse_digits cs = Some n" for cs n
    using that is_digit_not_special
    by (auto simp: parse_digits_def plain_port_def list_all_iff split: if_splits)
  from assms obtain c cs where p: "port = c # cs" by (cases port) (auto simp: parse_int_def)
  show ?thesis
  proof (cases "c = CHR ''-'' \<or> c = CHR ''+''")
    case True
    then have "plain_port cs" using assms p d by (auto simp: parse_int_def split: option.splits if_splits)
    then show ?thesis using True p by (auto simp: plain_port_def)
  next
    case False
    then show ?thesis using assms p d by (auto simp: parse_int_def split: option.splits if_splits)
  qed
qed

text \<open>
  A report for a host name that is no IP literal, with or without a port, updates the entry whose
  key is the host name in lower case and without the port: the one that the proxy's own dial path
  uses for that name and port when the client writes it in lower case; a port outside 1 to 65535 is refused.
\<close>

theorem report_meets_traffic:
  assumes "\<forall>c \<in> set name. host_char (lower_char c)" and "parse_ip name = None"
    and "normalizeReportHost parse_ip (join_host_port name port) = Inr n" and "name \<noteq> []"
    and "\<forall>c \<in> set (join_host_port name port). \<not> is_space c"
    and "plain_port port"
  shows "scoreboardHostKey n = to_lower name \<and> to_lower name = hostOnly (to_lower name @ '':'' @ port) \<and>
         (\<exists>v. parse_int port = Some v \<and> 1 \<le> v \<and> v \<le> 65535)"
proof -
  have low: "c = CHR '':'' \<or> c = CHR ''['' \<or> c = CHR '']'' \<Longrightarrow> lower_char c = c" for c
    by (auto simp: lower_char_def is_upper_def)
  have name: "plain_host name" "CHR '':'' \<notin> set name"
    using assms(1) host_char_plain low unfolding plain_host_def by metis+
  then have br: "strip_brackets name = name"
    by (cases name) (auto simp: strip_brackets_def plain_host_def)
  have t: "trim_space (join_host_port name port) = join_host_port name port"
    using assms(5) trim_space_none by (simp add: list_ex_iff)
  from assms(3) obtain m where m: "normalizeReportHostPart parse_ip name = Inr m"
      "n = join_host_port m port" "validateReportPort port"
    using split_join_host_port [OF name(1) assms(6)] t
    by (auto simp: normalizeReportHost_def Let_def split: if_splits sum.splits)
  have low_name: "m = to_lower name" and "\<forall>c \<in> set m. host_char c"
    using normalized_hostname [OF m(1)] br assms(2) by simp_all
  then have h: "plain_host m" "CHR '':'' \<notin> set m" using hostname_plain by blast+
  have "scoreboardHostKey n = m"
    using split_join_host_port [OF h(1) assms(6)] m(2) by (simp add: scoreboardHostKey_def)
  moreover have "hostOnly (m @ '':'' @ port) = m"
    using hostOnly_join [OF h(1) assms(6)] h(2) by (simp add: join_host_port_def)
  ultimately show ?thesis
    using m(3) low_name by (auto simp: validateReportPort_def split: option.splits)
qed

subsection \<open>Vendor refresh\<close>

lemma find_same_key: "find (\<lambda>b. key b = k) xs = Some b \<Longrightarrow> key b = k \<and> b \<in> set xs"
  by (auto simp: find_Some_iff)

lemma handleProviderRefresh_calls:
  "snd (handleProviderRefresh reg api prefix tokens r) =
     (case registry_Lookup reg prefix of
        Some b \<Rightarrow>
          if cq_method r = ''POST'' \<and> auth_gate (cq_header r) tokens = None \<and> pb_has_api b
          then [(prefix, cq_query_plan r)] else []
      | None \<Rightarrow> [])"
  by (auto simp: handleProviderRefresh_def split: option.splits)

lemma handleProviderRefresh_accepted:
  "fst (handleProviderRefresh reg api prefix tokens r) = RefreshAccepted p q \<Longrightarrow>
     p = prefix \<and> snd (handleProviderRefresh reg api prefix tokens r) \<noteq> [] \<and> api p (cq_query_plan r) = None"
  by (auto simp: handleProviderRefresh_def case_prod_unfold Let_def split: option.splits if_splits)

text \<open>
  The vendor API is called only by an authorised POST to the refresh route of a configured pool
  whose provider has an API, exactly once and with that pool's prefix; and the listing shows every
  pool once, by prefix, and only to authorised callers.
\<close>

theorem provider_refresh_guarded:
  assumes "providers_route reg api tokens r = (reply, calls)"
  shows "(calls = [] \<or>
          (\<exists>b plan. calls = [(pb_id_prefix b, plan)] \<and> b \<in> set reg \<and> pb_has_api b \<and>
             providers_path (cq_path r) = Some (pb_id_prefix b, ''refresh'') \<and>
             cq_method r = ''POST'' \<and> auth_gate (cq_header r) tokens = None)) \<and>
         (reply = RefreshAccepted p q \<longrightarrow> calls \<noteq> [] \<and> api p (cq_query_plan r) = None) \<and>
         (\<forall>entries. handleProvidersList reg tokens r = ListReply entries \<longrightarrow>
            auth_gate (cq_header r) tokens = None \<and> sorted (map fst entries) \<and>
            mset entries = mset (map (\<lambda>b. (pb_id_prefix b, pb_provider b, pb_has_api b)) reg))"
proof -
  have l: "slice_sort (\<lambda>a b. pb_id_prefix a < pb_id_prefix b) reg = sort_key pb_id_prefix reg"
    by (simp add: slice_sort_key)
  have "sorted (map fst entries) \<and> mset entries = mset (map (\<lambda>b. (pb_id_prefix b, pb_provider b, pb_has_api b)) reg) \<and>
      auth_gate (cq_header r) tokens = None"
    if "handleProvidersList reg tokens r = ListReply entries" for entries
    using that by (auto simp: handleProvidersList_def registry_List_def l comp_def split: if_splits option.splits)
  moreover have "(calls = [] \<or>
          (\<exists>b plan. calls = [(pb_id_prefix b, plan)] \<and> b \<in> set reg \<and> pb_has_api b \<and>
             providers_path (cq_path r) = Some (pb_id_prefix b, ''refresh'') \<and>
             cq_method r = ''POST'' \<and> auth_gate (cq_header r) tokens = None)) \<and>
      (reply = RefreshAccepted p q \<longrightarrow> calls \<noteq> [] \<and> api p (cq_query_plan r) = None)"
  proof (cases "\<exists>prefix. providers_path (cq_path r) = Some (prefix, ''refresh'')")
    case False
    then have "reply = PlainError 404 \<and> calls = []"
      using assms by (auto simp: providers_route_def split: option.splits if_splits)
    then show ?thesis by simp
  next
    case True
    then obtain prefix where path: "providers_path (cq_path r) = Some (prefix, ''refresh'')" by blast
    then have h: "handleProviderRefresh reg api prefix tokens r = (reply, calls)"
      using assms by (simp add: providers_route_def)
    have c: "calls = (case registry_Lookup reg prefix of
        Some b \<Rightarrow>
          if cq_method r = ''POST'' \<and> auth_gate (cq_header r) tokens = None \<and> pb_has_api b
          then [(prefix, cq_query_plan r)] else []
      | None \<Rightarrow> [])"
      using handleProviderRefresh_calls [of reg api prefix tokens r] h by simp
    have acc: "reply = RefreshAccepted p q \<Longrightarrow> calls \<noteq> [] \<and> api p (cq_query_plan r) = None"
      using handleProviderRefresh_accepted [of reg api prefix tokens r p q] h by auto
    show ?thesis
    proof (cases "registry_Lookup reg prefix")
      case None
      with c acc show ?thesis by auto
    next
      case (Some b)
      then have "pb_id_prefix b = prefix" "b \<in> set reg"
        using find_same_key [of pb_id_prefix prefix reg b] by (simp_all add: registry_Lookup_def)
      with c acc Some path show ?thesis by (cases "calls = []") (auto split: if_splits)
    qed
  qed
  ultimately show ?thesis by blast
qed

end
