(* ===== verification/Persist.thy ===== *)
theory Persist
  imports Picking
begin

text \<open>
  \<open>internal/scoreboard/persist.go\<close>: snapshots of the scoreboard, their file format, the atomic write
  as a sequence of file-system states, pruning, and the persistence loop. The gob codec is a
  parameter; the order in which a Go map is ranged over is one too.
\<close>

subsection \<open>Snapshots\<close>

record entry_snapshot =
  es_upstream_id :: string
  es_score :: f64
  es_cooldown_until :: time
  es_last_seen :: time
  es_success :: "64 word"
  es_failure :: "64 word"

record host_snapshot =
  hs_host :: string
  hs_entries :: "entry_snapshot list"

record snapshot_file =
  sf_written_at :: time
  sf_hosts :: "host_snapshot list"
  sf_cascade :: "(string \<times> time) list"

text \<open>
  The order of one \<open>range\<close> loop: the loop's name, the keys, and the order in which it visits them.
\<close>

type_synonym range_order = "string list \<Rightarrow> string fset \<Rightarrow> string list"

definition range_ok :: "range_order \<Rightarrow> bool" where
  "range_ok ord \<longleftrightarrow> (\<forall>loop keys. set (ord loop keys) = fset keys \<and> distinct (ord loop keys))"

definition entry_to_snapshot :: "string \<Rightarrow> entry \<Rightarrow> entry_snapshot" where
  "entry_to_snapshot uid e =
     \<lparr>es_upstream_id = uid, es_score = en_score e, es_cooldown_until = en_cooldown_until e,
      es_last_seen = en_last_seen e, es_success = en_success e, es_failure = en_failure e\<rparr>"

definition snapshot_to_entry :: "entry_snapshot \<Rightarrow> entry" where
  "snapshot_to_entry e =
     \<lparr>en_score = es_score e, en_cooldown_until = es_cooldown_until e, en_last_seen = es_last_seen e,
      en_success = es_success e, en_failure = es_failure e\<rparr>"

definition buildSnapshot :: "range_order \<Rightarrow> time \<Rightarrow> scoreboard \<Rightarrow> snapshot_file" where
  "buildSnapshot ord now s =
     \<lparr>sf_written_at = now,
      sf_hosts =
        map (\<lambda>host.
               let perUp = the (fmlookup (sb_entries s) host) in
               \<lparr>hs_host = host,
                hs_entries = map (\<lambda>uid. entry_to_snapshot uid (the (fmlookup perUp uid)))
                               (ord [''entries'', host] (fmdom perUp))\<rparr>)
          (ord [''hosts''] (fmdom (sb_entries s))),
      sf_cascade =
        [(host, the (fmlookup (sb_cascade s) host)).
           host \<leftarrow> ord [''cascade''] (fmdom (sb_cascade s)),
           after (the (fmlookup (sb_cascade s) host)) now]\<rparr>"

definition load_entries :: "entry_snapshot list \<Rightarrow> (string, entry) fmap" where
  "load_entries es = fold (\<lambda>e. fmupd (es_upstream_id e) (snapshot_to_entry e)) es fmempty"

definition load_host :: "host_snapshot \<Rightarrow> entries \<Rightarrow> entries" where
  "load_host h m =
     (let perUp = load_entries (hs_entries h) in
      if perUp \<noteq> fmempty then fmupd (hs_host h) perUp m else m)"

definition applySnapshot :: "snapshot_file \<Rightarrow> scoreboard \<Rightarrow> scoreboard" where
  "applySnapshot snap s =
     s\<lparr>sb_entries := fold load_host (sf_hosts snap) fmempty,
       sb_cascade := fold (\<lambda>(host, until). fmupd host until) (sf_cascade snap) fmempty\<rparr>"

subsection \<open>The file\<close>

type_synonym bytes = "nat list"
type_synonym fs = "(string, bytes) fmap"

definition persistMagic :: bytes where
  "persistMagic = bytes_of ''TSB1''"

definition persistVersion :: nat where "persistVersion = 1"

text \<open>\<open>binary.BigEndian\<close> on 32 bits.\<close>

definition put_uint32 :: "nat \<Rightarrow> bytes" where
  "put_uint32 n = [n div 2 ^ 24 mod 256, n div 2 ^ 16 mod 256, n div 2 ^ 8 mod 256, n mod 256]"

definition get_uint32 :: "bytes \<Rightarrow> nat" where
  "get_uint32 bs = foldl (\<lambda>n b. n * 256 + b) 0 bs"

text \<open>The errors the file operations of one \<open>SaveSnapshot\<close> return, None for success.\<close>

record save_env =
  se_tmp :: string
  se_create :: "goerr option"
  se_magic :: "goerr option"
  se_version :: "goerr option"
  se_encode :: "goerr option"
  se_sync :: "goerr option"
  se_close :: "goerr option"
  se_rename :: "goerr option"
  se_syncdir :: "goerr option"

definition write_tmp :: "string \<Rightarrow> bytes \<Rightarrow> fs \<Rightarrow> fs" where
  "write_tmp tmp bs m = fmupd tmp ((case fmlookup m tmp of Some old \<Rightarrow> old | None \<Rightarrow> []) @ bs) m"

definition rename_file :: "string \<Rightarrow> string \<Rightarrow> fs \<Rightarrow> fs" where
  "rename_file a b m = (case fmlookup m a of Some bs \<Rightarrow> fmupd b bs (fmdrop a m) | None \<Rightarrow> m)"

text \<open>
  \<open>SaveSnapshot\<close>: the error, and the file system after each of its operations, the last one being
  the state it leaves. A failed write or encode leaves the temporary file to \<open>cleanup\<close>.
\<close>

definition SaveSnapshot ::
    "(snapshot_file \<Rightarrow> bytes) \<Rightarrow> range_order \<Rightarrow> save_env \<Rightarrow> string \<Rightarrow> time \<Rightarrow> scoreboard \<Rightarrow> fs \<Rightarrow>
     goerr option \<times> fs list" where
  "SaveSnapshot enc ord env path now s m =
     (if path = [] then (Some (errorf ''scoreboard: SaveSnapshot called with empty path''), [m])
      else
        (let snap = buildSnapshot ord now s;
             tmp = se_tmp env;
             m1 = fmupd tmp [] m;
             m2 = write_tmp tmp persistMagic m1;
             m3 = write_tmp tmp (put_uint32 persistVersion) m2;
             m4 = write_tmp tmp (enc snap) m3
         in case se_create env of Some e \<Rightarrow> (Some (errorf_w ''create temp snapshot'' e), [m])
         | None \<Rightarrow> (case se_magic env of Some e \<Rightarrow> (Some (errorf_w ''write magic'' e), [m1, fmdrop tmp m1])
         | None \<Rightarrow> (case se_version env of Some e \<Rightarrow> (Some (errorf_w ''write version'' e), [m1, m2, fmdrop tmp m2])
         | None \<Rightarrow> (case se_encode env of Some e \<Rightarrow> (Some (errorf_w ''encode snapshot'' e), [m1, m2, m3, fmdrop tmp m3])
         | None \<Rightarrow> (case se_sync env of Some e \<Rightarrow> (Some (errorf_w ''fsync snapshot'' e), [m1, m2, m3, m4, fmdrop tmp m4])
         | None \<Rightarrow> (case se_close env of Some e \<Rightarrow> (Some (errorf_w ''close snapshot tmp'' e), [m1, m2, m3, m4, fmdrop tmp m4])
         | None \<Rightarrow> (case se_rename env of Some e \<Rightarrow> (Some (errorf_w ''rename snapshot'' e), [m1, m2, m3, m4, fmdrop tmp m4])
         | None \<Rightarrow> (map_option (errorf_w ''sync snapshot dir'') (se_syncdir env),
                     [m1, m2, m3, m4, rename_file tmp path m4])))))))))"

text \<open>\<open>LoadSnapshot\<close>; a missing file is not an error.\<close>

definition LoadSnapshot ::
    "(bytes \<Rightarrow> goerr + snapshot_file) \<Rightarrow> string \<Rightarrow> fs \<Rightarrow> scoreboard \<Rightarrow> goerr + scoreboard" where
  "LoadSnapshot dec path m s =
     (if path = [] then Inl (errorf ''scoreboard: LoadSnapshot called with empty path'')
      else
        (case fmlookup m path of
           None \<Rightarrow> Inr s
         | Some bs \<Rightarrow>
             if length bs < 8 then Inl (errorf ''read snapshot header'')
             else if take 4 bs \<noteq> persistMagic then Inl (errorf ''magic mismatch'')
             else if get_uint32 (take 4 (drop 4 bs)) \<noteq> persistVersion then Inl (errorf ''version unsupported'')
             else (case dec (drop 8 bs) of
                     Inl e \<Rightarrow> Inl (errorf_w ''decode snapshot'' e)
                   | Inr snap \<Rightarrow> Inr (applySnapshot snap s))))"

subsection \<open>Round trips\<close>

lemma fold_fmupd_lookup:
  "fmlookup (fold (\<lambda>k. fmupd k (f k)) ks m) x = (if x \<in> set ks then Some (f x) else fmlookup m x)"
  by (induction ks arbitrary: m) auto

lemma snapshot_to_entry_inverse [simp]: "snapshot_to_entry (entry_to_snapshot uid e) = e"
  by (simp add: snapshot_to_entry_def entry_to_snapshot_def)

lemma entry_to_snapshot_id [simp]: "es_upstream_id (entry_to_snapshot uid e) = uid"
  by (simp add: entry_to_snapshot_def)

lemma load_entries_of:
  assumes "set ks = fset (fmdom m)"
  shows "load_entries (map (\<lambda>uid. entry_to_snapshot uid (the (fmlookup m uid))) ks) = m"
proof -
  have "load_entries (map (\<lambda>uid. entry_to_snapshot uid (the (fmlookup m uid))) ks) =
      fold (\<lambda>uid. fmupd uid (the (fmlookup m uid))) ks fmempty"
    by (simp add: load_entries_def fold_map comp_def)
  also have "\<dots> = m"
    using assms by (intro fmap_ext) (auto simp: fold_fmupd_lookup fmlookup_dom_iff)
  finally show ?thesis .
qed

lemma fold_load_host:
  assumes "\<And>h. h \<in> set hs \<Longrightarrow> load_entries (hs_entries (f h)) = g h \<and> hs_host (f h) = h \<and> g h \<noteq> fmempty"
  shows "fold load_host (map f hs) m = fold (\<lambda>h. fmupd h (g h)) hs m"
  using assms by (induction hs arbitrary: m) (auto simp: load_host_def Let_def)

lemma fold_pairs:
  "fold (\<lambda>(k, v). fmupd k v) (map (\<lambda>k. (k, f k)) ks) m = fold (\<lambda>k. fmupd k (f k)) ks m"
  by (induction ks arbitrary: m) auto

definition live_cascade :: "time \<Rightarrow> (string, time) fmap \<Rightarrow> (string, time) fmap" where
  "live_cascade now m =
     fmfilter (\<lambda>host. case fmlookup m host of Some until \<Rightarrow> after until now | None \<Rightarrow> False) m"

lemma live_cascade_lookup:
  "fmlookup (live_cascade now m) host =
     (case fmlookup m host of Some until \<Rightarrow> if after until now then Some until else None | None \<Rightarrow> None)"
  by (auto simp: live_cascade_def split: option.splits)

lemma applySnapshot_build:
  assumes "range_ok ord" and "no_empty_host (sb_entries s)"
  shows "applySnapshot (buildSnapshot ord now s) s0 =
           s0\<lparr>sb_entries := sb_entries s, sb_cascade := live_cascade now (sb_cascade s)\<rparr>"
proof -
  let ?es = "sb_entries s" and ?hs = "ord [''hosts''] (fmdom (sb_entries s))"
  let ?cs = "filter (\<lambda>h. after (the (fmlookup (sb_cascade s) h)) now) (ord [''cascade''] (fmdom (sb_cascade s)))"
  have set: "set (ord l k) = fset k" for l k using assms(1) by (simp add: range_ok_def)
  have "fold load_host (sf_hosts (buildSnapshot ord now s)) fmempty =
      fold (\<lambda>h. fmupd h (the (fmlookup ?es h))) ?hs fmempty"
    unfolding buildSnapshot_def Let_def snapshot_file.simps
  proof (rule fold_load_host)
    fix h assume "h \<in> set ?hs"
    then obtain m where "fmlookup ?es h = Some m" using set by (auto simp: fmlookup_dom_iff)
    then show "load_entries (hs_entries
          \<lparr>hs_host = h,
           hs_entries = map (\<lambda>uid. entry_to_snapshot uid (the (fmlookup (the (fmlookup ?es h)) uid)))
             (ord [''entries'', h] (fmdom (the (fmlookup ?es h))))\<rparr>) = the (fmlookup ?es h) \<and>
        hs_host
          \<lparr>hs_host = h,
           hs_entries = map (\<lambda>uid. entry_to_snapshot uid (the (fmlookup (the (fmlookup ?es h)) uid)))
             (ord [''entries'', h] (fmdom (the (fmlookup ?es h))))\<rparr> = h \<and>
        the (fmlookup ?es h) \<noteq> fmempty"
      using assms(2) set by (simp add: load_entries_of no_empty_host_def)
  qed
  also have "\<dots> = ?es"
    using set by (intro fmap_ext) (auto simp: fold_fmupd_lookup fmlookup_dom_iff)
  finally have es: "fold load_host (sf_hosts (buildSnapshot ord now s)) fmempty = ?es" .
  have c: "sf_cascade (buildSnapshot ord now s) = map (\<lambda>h. (h, the (fmlookup (sb_cascade s) h))) ?cs"
  proof -
    have "concat (map (\<lambda>h. if P h then [f h] else []) hs) = map f (filter P hs)"
      for P and f :: "string \<Rightarrow> string \<times> time" and hs
      by (induction hs) auto
    then show ?thesis by (simp add: buildSnapshot_def)
  qed
  have "fold (\<lambda>(h, u). fmupd h u) (sf_cascade (buildSnapshot ord now s)) fmempty =
      live_cascade now (sb_cascade s)"
    unfolding c fold_pairs using set
    by (intro fmap_ext) (auto simp: fold_fmupd_lookup live_cascade_lookup fmlookup_dom_iff split: option.splits)
  with es show ?thesis by (simp add: applySnapshot_def)
qed

definition snapshot_bytes :: "(snapshot_file \<Rightarrow> bytes) \<Rightarrow> snapshot_file \<Rightarrow> bytes" where
  "snapshot_bytes enc snap = persistMagic @ put_uint32 persistVersion @ enc snap"

lemma persistMagic_bytes: "persistMagic = [84, 83, 66, 49]"
  by (simp add: persistMagic_def bytes_of_def)

lemma version_bytes: "put_uint32 persistVersion = [0, 0, 0, 1]"
  by (simp add: put_uint32_def persistVersion_def)

lemma header_ok:
  "take 4 (snapshot_bytes enc snap) = persistMagic"
  "get_uint32 (take 4 (drop 4 (snapshot_bytes enc snap))) = persistVersion"
  "drop 8 (snapshot_bytes enc snap) = enc snap" "\<not> length (snapshot_bytes enc snap) < 8"
  unfolding snapshot_bytes_def version_bytes persistMagic_bytes
  by (simp_all add: get_uint32_def persistVersion_def numeral_eq_Suc)

lemma write_tmp_lookup:
  "fmlookup (write_tmp tmp bs m) f =
     (if f = tmp then Some ((case fmlookup m tmp of Some old \<Rightarrow> old | None \<Rightarrow> []) @ bs) else fmlookup m f)"
  by (simp add: write_tmp_def)

text \<open>
  C17: the snapshot file is replaced atomically: after every file operation of \<open>SaveSnapshot\<close>, whichever
  of them fails, the path holds its old content or the complete new snapshot; nothing else changes,
  no temporary file is left, and success means the new snapshot is in place.
\<close>

theorem SaveSnapshot_atomic:
  assumes "SaveSnapshot enc ord env path now s m = (err, states)"
    and "se_tmp env \<noteq> path" and "fmlookup m (se_tmp env) = None"
  shows "(\<forall>m' \<in> set states.
            fmlookup m' path \<in> {fmlookup m path, Some (snapshot_bytes enc (buildSnapshot ord now s))} \<and>
            (\<forall>f. f \<noteq> path \<and> f \<noteq> se_tmp env \<longrightarrow> fmlookup m' f = fmlookup m f)) \<and>
         states \<noteq> [] \<and> fmlookup (last states) (se_tmp env) = None \<and>
         (err = None \<longrightarrow> fmlookup (last states) path = Some (snapshot_bytes enc (buildSnapshot ord now s)))"
  using assms
  by (simp add: SaveSnapshot_def Let_def snapshot_bytes_def rename_file_def write_tmp_lookup
      split: if_splits option.splits)
    (auto simp: write_tmp_lookup)

lemma snapshot_load:
  assumes "dec (enc (buildSnapshot ord now s)) = Inr (buildSnapshot ord now s)"
    and "range_ok ord" and "no_empty_host (sb_entries s)"
    and "SaveSnapshot enc ord env path now s m = (None, states)"
    and "se_tmp env \<noteq> path" and "fmlookup m (se_tmp env) = None"
  shows "LoadSnapshot dec path (last states) s0 =
           Inr (s0\<lparr>sb_entries := sb_entries s, sb_cascade := live_cascade now (sb_cascade s)\<rparr>)"
proof -
  let ?snap = "buildSnapshot ord now s"
  have "path \<noteq> []" using assms(4) by (auto simp: SaveSnapshot_def)
  moreover have "fmlookup (last states) path = Some (snapshot_bytes enc ?snap)"
    using assms(4-6)
    by (simp add: SaveSnapshot_def Let_def snapshot_bytes_def rename_file_def write_tmp_lookup
      split: if_splits option.splits) (auto simp: write_tmp_lookup)
  ultimately have "LoadSnapshot dec path (last states) s0 = Inr (applySnapshot ?snap s0)"
    using header_ok [of enc ?snap] by (simp add: LoadSnapshot_def assms(1))
  then show ?thesis by (simp add: applySnapshot_build [OF assms(2,3)])
qed

text \<open>
  C16: what is saved is what is loaded: if \<open>SaveSnapshot\<close> succeeds and the codec decodes what it encoded,
  \<open>LoadSnapshot\<close> gives any scoreboard the saved entries, all of them with every field, and the
  cascades that were still running; its pool, rules, pins, tuning and debounce keys stay its own.
\<close>

theorem snapshot_roundtrip:
  assumes "dec (enc (buildSnapshot ord now s)) = Inr (buildSnapshot ord now s)"
    and "range_ok ord" and "no_empty_host (sb_entries s)"
    and "SaveSnapshot enc ord env path now s m = (None, states)"
    and "se_tmp env \<noteq> path" and "fmlookup m (se_tmp env) = None"
  shows "LoadSnapshot dec path (last states) s0 =
           Inr (s0\<lparr>sb_entries := sb_entries s, sb_cascade := live_cascade now (sb_cascade s)\<rparr>)"
  using assms by (rule snapshot_load)

text \<open>Cascades behave the same after the restart.\<close>

lemma live_cascade_active:
  "now \<le> t \<Longrightarrow> cascadeActive (s\<lparr>sb_cascade := live_cascade now m\<rparr>) h t = cascadeActive (s\<lparr>sb_cascade := m\<rparr>) h t"
  by (auto simp: cascadeActive_def live_cascade_lookup after_def split: option.splits)

subsection \<open>Pruning\<close>

record prune_stats =
  ps_entries :: nat
  ps_hosts :: nat
  ps_cascade :: nat
  ps_debounce :: nat

definition prunable :: "duration \<Rightarrow> time \<Rightarrow> entry \<Rightarrow> bool" where
  "prunable pruneAfter now e \<longleftrightarrow>
     f_eq (en_score e) f_zero \<and> \<not> is_zero_time (en_last_seen e) \<and>
     pruneAfter < time_sub now (en_last_seen e)"

definition keep_where :: "('v \<Rightarrow> bool) \<Rightarrow> ('k, 'v) fmap \<Rightarrow> ('k, 'v) fmap" where
  "keep_where P m = fmfilter (\<lambda>k. case fmlookup m k of Some v \<Rightarrow> P v | None \<Rightarrow> False) m"

definition dropped :: "('k, 'v) fmap \<Rightarrow> ('k, 'v) fmap \<Rightarrow> nat" where
  "dropped before rest = fcard (fmdom before) - fcard (fmdom rest)"

definition prune_host :: "duration \<Rightarrow> time \<Rightarrow> (string, entry) fmap \<Rightarrow> (string, entry) fmap" where
  "prune_host pruneAfter now perUp =
     (if 0 < pruneAfter then keep_where (\<lambda>e. \<not> prunable pruneAfter now e) perUp else perUp)"

definition prune_entries :: "duration \<Rightarrow> time \<Rightarrow> entries \<Rightarrow> entries" where
  "prune_entries pruneAfter now es =
     keep_where (\<lambda>perUp. perUp \<noteq> fmempty) (fmmap (prune_host pruneAfter now) es)"

definition prune_debounce :: "duration \<Rightarrow> time \<Rightarrow> (debounce_key, time) fmap \<Rightarrow> (debounce_key, time) fmap" where
  "prune_debounce window now db =
     (if 0 < window then keep_where (\<lambda>prev. \<not> wrap64 (10 * window) < time_sub now prev) db else db)"

definition Prune :: "time \<Rightarrow> scoreboard \<Rightarrow> prune_stats \<times> scoreboard" where
  "Prune now s =
     (let pruneAfter = sc_prune_after (sb_cfg s);
          window = sc_debounce_window (sb_cfg s);
          es = prune_entries pruneAfter now (sb_entries s);
          cs = live_cascade now (sb_cascade s);
          db = prune_debounce window now (sb_debounce s)
      in (\<lparr>ps_entries = sum_list (map (\<lambda>host. let m = the (fmlookup (sb_entries s) host) in
                            dropped m (prune_host pruneAfter now m)) (sorted_list_of_fset (fmdom (sb_entries s)))),
           ps_hosts = dropped (sb_entries s) es,
           ps_cascade = dropped (sb_cascade s) cs,
           ps_debounce = dropped (sb_debounce s) db\<rparr>,
          s\<lparr>sb_entries := es, sb_cascade := cs, sb_debounce := db\<rparr>))"

lemma keep_where_lookup:
  "fmlookup (keep_where P m) k = (case fmlookup m k of Some v \<Rightarrow> if P v then Some v else None | None \<Rightarrow> None)"
  by (auto simp: keep_where_def split: option.splits)

lemma prune_entries_at:
  "entry_at (prune_entries pruneAfter now es) host uid =
     (case entry_at es host uid of
        Some e \<Rightarrow> if 0 < pruneAfter \<and> prunable pruneAfter now e then None else Some e
      | None \<Rightarrow> None)"
proof (cases "fmlookup es host")
  case (Some m)
  have "fmlookup (prune_host pruneAfter now m) uid =
      (case fmlookup m uid of
         Some e \<Rightarrow> if 0 < pruneAfter \<and> prunable pruneAfter now e then None else Some e
       | None \<Rightarrow> None)"
    by (auto simp: prune_host_def keep_where_lookup split: option.splits)
  moreover have "fmlookup (prune_host pruneAfter now m) uid = None" if "prune_host pruneAfter now m = fmempty"
    using that by simp
  ultimately show ?thesis
    using Some by (auto simp: entry_at_def prune_entries_def keep_where_lookup split: option.splits)
qed (simp add: entry_at_def prune_entries_def keep_where_lookup)

lemma no_empty_host_prune: "no_empty_host (prune_entries pruneAfter now es)"
  by (auto simp: no_empty_host_def prune_entries_def keep_where_lookup split: option.splits if_splits)

lemma sb_inv_Prune [inv_intros]: "sb_inv C s \<Longrightarrow> sb_inv C (snd (Prune now s))"
  by (auto simp: Prune_def sb_inv_parts entries_inv_def no_empty_host_prune prune_entries_at Let_def
      split: option.splits if_splits)

subsubsection \<open>What pruning may change\<close>

text \<open>
  Pruning drops exactly the entries whose score is zero and that were last seen more than
  \<open>prune_after\<close> ago (none when it is not positive), the cascades that ended, and no host keeps an
  empty table; every other entry survives unchanged.
\<close>

theorem Prune_exact:
  shows "entry_at (sb_entries (snd (Prune now s))) host uid =
           (case entry_at (sb_entries s) host uid of
              None \<Rightarrow> None
            | Some e \<Rightarrow>
                if 0 < sc_prune_after (sb_cfg s) \<and> en_score e = f_zero \<and> en_last_seen e \<noteq> 0 \<and>
                   sc_prune_after (sb_cfg s) < time_sub now (en_last_seen e)
                then None else Some e) \<and>
         no_empty_host (sb_entries (snd (Prune now s))) \<and>
         (\<forall>h t. now \<le> t \<longrightarrow> cascadeActive (snd (Prune now s)) h t = cascadeActive s h t)"
proof -
  have "f_eq x f_zero \<longleftrightarrow> x = f_zero" for x by (cases x) auto
  then show ?thesis
    by (auto simp: Prune_def Let_def prune_entries_at prunable_def no_empty_host_prune time_defs
        cascadeActive_def live_cascade_lookup split: option.splits)
qed

text \<open>The part of a candidate that the choice depends on.\<close>

definition rank_norm :: "ranked \<Rightarrow> ranked" where
  "rank_norm r = (if rk_cooled r then r else r\<lparr>rk_until := 0\<rparr>)"

definition choose_ranked :: "draws \<Rightarrow> f64 \<Rightarrow> ranked list \<Rightarrow> goerr + upstream" where
  "choose_ranked d chance pool =
     (let cooled = filter rk_cooled pool; eligible = filter (\<lambda>r. \<not> rk_cooled r) pool in
      if pool = [] then Inl (ErrLeaf ErrPoolExhausted None)
      else if eligible = [] then Inr (rk_up (hd (slice_sort (\<lambda>a b. rk_until a < rk_until b) cooled)))
      else (let sorted = slice_sort rank_less eligible in
            if 1 < length sorted \<and> f_lt f_zero chance \<and> probeRoll d chance
            then Inr (rk_up (sorted ! (1 + probePick d (length sorted - 1))))
            else Inr (rk_up (sorted ! 0))))"

lemma Pick_choose_ranked:
  "fst (Pick now d host tried s) =
     (if cascadeActive s host now then Inl (CascadeError host)
      else (case pin_for s now host tried of
              Some uid \<Rightarrow> Inr (pe_up (the (find (\<lambda>c. pe_id c = uid) (sb_pool_entries s))))
            | None \<Rightarrow> choose_ranked d (sc_probe_chance (sb_cfg s)) (pick_pool s host tried now)))"
  by (simp add: Pick_unfold choose_ranked_def Let_def split: option.split)

lemma rank_norm_simps [simp]:
  "rk_cooled (rank_norm r) = rk_cooled r" "rk_up (rank_norm r) = rk_up r"
  "rank_less (rank_norm a) (rank_norm b) = rank_less a b"
  by (simp_all add: rank_norm_def rank_less_def)

lemma choose_ranked_norm: "choose_ranked d chance (map rank_norm pool) = choose_ranked d chance pool"
proof -
  have c: "filter rk_cooled (map rank_norm pool) = filter rk_cooled pool"
    by (induction pool) (auto simp: rank_norm_def)
  have e: "filter (\<lambda>r. \<not> rk_cooled r) (map rank_norm pool) = map rank_norm (filter (\<lambda>r. \<not> rk_cooled r) pool)"
    by (simp add: filter_map comp_def)
  let ?el = "filter (\<lambda>r. \<not> rk_cooled r) pool"
  have s: "slice_sort rank_less (map rank_norm ?el) = map rank_norm (slice_sort rank_less ?el)"
    by (simp add: slice_sort_map)
  have nth: "rk_up (map rank_norm (slice_sort rank_less ?el) ! i) = rk_up (slice_sort rank_less ?el ! i)"
    if "i < length (slice_sort rank_less ?el)" for i using that by simp
  show ?thesis
  proof (cases "?el = []")
    case False
    then have l: "0 < length (slice_sort rank_less ?el)" by simp
    show ?thesis
      unfolding choose_ranked_def Let_def c e s length_map
      using False nth [OF l] nth [OF probe_index [of "length (slice_sort rank_less ?el)" d]]
      by simp
  qed (simp add: choose_ranked_def Let_def c e)
qed

text \<open>No entry that would be pruned is still cooling.\<close>

definition no_cooling_prunable :: "time \<Rightarrow> scoreboard \<Rightarrow> bool" where
  "no_cooling_prunable now s \<longleftrightarrow>
     (\<forall>host uid e. entry_at (sb_entries s) host uid = Some e \<and>
        prunable (sc_prune_after (sb_cfg s)) now e \<longrightarrow> en_cooldown_until e \<le> now)"

lemma rank_norm_Prune:
  assumes "no_cooling_prunable now s" and "now \<le> t"
  shows "rank_norm (rank_of (snd (Prune now s)) host pr t c) = rank_norm (rank_of s host pr t c)"
proof -
  have "f_eq x f_zero \<longleftrightarrow> x = f_zero" for x by (cases x) auto
  then show ?thesis
    using assms
    by (fastforce simp: rank_of_def rank_norm_def Prune_def prune_entries_at no_cooling_prunable_def
        prunable_def new_entry_def after_def time_defs Let_def split: option.splits)
qed

text \<open>
  C18: pruning is invisible to routing, as long as no pruned entry is still cooling: every later
  \<open>Pick\<close> gives the same answer on the pruned scoreboard, for all hosts, tried sets and draws.
\<close>

theorem Prune_transparent:
  assumes "\<forall>r \<in> set (sb_rules s). rule_wf r" and "no_cooling_prunable now s" and "now \<le> t"
  shows "fst (Pick t d host tried (snd (Prune now s))) = fst (Pick t d host tried s)"
proof -
  let ?s = "snd (Prune now s)"
  have f: "sb_rules ?s = sb_rules s" "sb_pool_entries ?s = sb_pool_entries s"
      "sb_forces ?s = sb_forces s" "sb_cfg ?s = sb_cfg s"
    by (simp_all add: Prune_def Let_def)
  have "map rank_norm (pick_pool ?s host tried t) = map rank_norm (pick_pool s host tried t)"
    using assms(1) rank_norm_Prune [OF assms(2,3)] allowed_def
    by (simp add: pick_pool_eq f matched_ranks_def allowed_def comp_def)
  then have "choose_ranked d (sc_probe_chance (sb_cfg s)) (pick_pool ?s host tried t) =
      choose_ranked d (sc_probe_chance (sb_cfg s)) (pick_pool s host tried t)"
    by (metis choose_ranked_norm)
  moreover have "cascadeActive ?s host t = cascadeActive s host t"
    using assms(3) by (auto simp: Prune_def Let_def cascadeActive_def live_cascade_lookup after_def
        split: option.splits)
  moreover have h: "HasUpstream ?s = HasUpstream s"
    by (rule ext) (simp add: HasUpstream_def f)
  have "pin_for ?s t host tried = pin_for s t host tried"
    unfolding pin_for_def f h ..
  ultimately show ?thesis by (simp add: Pick_choose_ranked f split: option.split)
qed


text \<open>
  The condition matters: a destination that asked for a two-day pause is forgotten after one, once
  the score has decayed to zero.
\<close>

definition long_pause :: entry where
  "long_pause = \<lparr>en_score = f_zero, en_cooldown_until = 1 + 48 * hour, en_last_seen = 1,
     en_success = 0, en_failure = 1\<rparr>"

text \<open>
  With the default \<open>prune_after\<close> of 24 hours, an entry whose Retry-After cooldown still has 22
  hours to run is pruned 26 hours after it was recorded if its score has decayed to zero, so the
  upstream becomes eligible again before the time the destination asked for.
\<close>

theorem Prune_forgets_cooldown:
  "prunable (sg_prune_after ScoringDefaults) (1 + 26 * hour) long_pause \<and>
   after (en_cooldown_until long_pause) (1 + 26 * hour) \<and>
   decay_score (sg_decay_step ScoringDefaults) f_zero = f_zero"
  by (simp add: prunable_def long_pause_def ScoringDefaults_def decay_score_def time_defs)

subsection \<open>The loop and the gauges\<close>

record loop_state =
  lp_used :: bool
  lp_sb :: scoreboard
  lp_fs :: fs
  lp_sink :: "string list option"

text \<open>One flush: its file-system outcomes, clock and range order.\<close>

type_synonym flush_env = "save_env \<times> time \<times> range_order"

definition flushOnce :: "(snapshot_file \<Rightarrow> bytes) \<Rightarrow> string \<Rightarrow> flush_env \<Rightarrow> loop_state \<Rightarrow> loop_state" where
  "flushOnce enc path fe st =
     (let (env, now, ord) = fe;
          sb = snd (Prune now (lp_sb st));
          (err, states) = SaveSnapshot enc ord env path now sb (lp_fs st)
      in st\<lparr>lp_sb := sb, lp_fs := last states,
            lp_sink := map_option (\<lambda>rs. rs @ [if err = None then ''success'' else ''error'']) (lp_sink st)\<rparr>)"

text \<open>\<open>Run\<close>: the flushes at the ticks before the context ends, and the one at the end.\<close>

definition loop_Run ::
    "(snapshot_file \<Rightarrow> bytes) \<Rightarrow> string \<Rightarrow> duration \<Rightarrow> flush_env list \<Rightarrow> flush_env \<Rightarrow> loop_state \<Rightarrow>
     goerr option \<times> loop_state" where
  "loop_Run enc path interval ticks final st =
     (if lp_used st then (Some (errorf ''scoreboard: persistence loop already used''), st)
      else
        (let st1 = st\<lparr>lp_used := True\<rparr> in
         if path = [] then (Some (errorf ''scoreboard: persistence loop requires non-empty path''), st1)
         else if interval \<le> 0 then (None, flushOnce enc path final st1)
         else (None, flushOnce enc path final (fold (flushOnce enc path) ticks st1))))"

definition EntriesCount :: "scoreboard \<Rightarrow> nat" where
  "EntriesCount s =
     sum_list (map (\<lambda>host. fcard (fmdom (the (fmlookup (sb_entries s) host))))
       (sorted_list_of_fset (fmdom (sb_entries s))))"

definition CascadeActiveCount :: "time \<Rightarrow> scoreboard \<Rightarrow> nat" where
  "CascadeActiveCount now s = fcard (fmdom (live_cascade now (sb_cascade s)))"

text \<open>\<open>CooledHostsByUpstream\<close>, for one upstream: how many hosts it is cooling for.\<close>

definition CooledHostsByUpstream :: "time \<Rightarrow> scoreboard \<Rightarrow> string \<Rightarrow> nat" where
  "CooledHostsByUpstream now s uid =
     fcard (ffilter (\<lambda>host. case entry_at (sb_entries s) host uid of
                Some e \<Rightarrow> \<not> is_zero_time (en_cooldown_until e) \<and> after (en_cooldown_until e) now
              | None \<Rightarrow> False) (fmdom (sb_entries s)))"

lemma live_cascade_idem: "live_cascade now (live_cascade now m) = live_cascade now m"
  by (rule fmap_ext) (simp add: live_cascade_lookup split: option.split)

lemma flushOnce_sb: "lp_sb (flushOnce enc path (env, now, ord) st) = snd (Prune now (lp_sb st))"
  by (simp add: flushOnce_def Let_def case_prod_beta)

lemma flushOnce_durable:
  assumes "dec (enc (buildSnapshot ord now (snd (Prune now (lp_sb st))))) =
             Inr (buildSnapshot ord now (snd (Prune now (lp_sb st))))"
    and "range_ok ord" and "se_tmp env \<noteq> path"
    and "fmlookup (lp_fs st) (se_tmp env) = None" and "lp_sink st = Some results"
    and "lp_sink (flushOnce enc path (env, now, ord) st) = Some (results @ [''success''])"
  shows "LoadSnapshot dec path (lp_fs (flushOnce enc path (env, now, ord) st)) s0 =
           Inr (s0\<lparr>sb_entries := sb_entries (lp_sb (flushOnce enc path (env, now, ord) st)),
                   sb_cascade := sb_cascade (lp_sb (flushOnce enc path (env, now, ord) st))\<rparr>)"
proof -
  let ?sb = "snd (Prune now (lp_sb st))"
  obtain err states where sv: "SaveSnapshot enc ord env path now ?sb (lp_fs st) = (err, states)"
    by (cases "SaveSnapshot enc ord env path now ?sb (lp_fs st)")
  have "err = None" using assms(5,6) sv by (auto simp: flushOnce_def split: if_splits)
  have ne: "no_empty_host (sb_entries ?sb)" by (simp add: Prune_def Let_def no_empty_host_prune)
  have "live_cascade now (sb_cascade ?sb) = sb_cascade ?sb"
    by (simp add: Prune_def Let_def live_cascade_idem)
  with snapshot_load [of dec enc ord now ?sb, OF assms(1,2) ne sv [unfolded \<open>err = None\<close>] assms(3,4)]
  show ?thesis
    using sv by (simp add: flushOnce_def)
qed


end
