(* ===== verification/Composer.thy ===== *)
theory Composer
  imports Providers HttpListener HealDriver Control Persist
begin

text \<open>
  The wiring of \<open>cmd/tunnelsmith/main.go\<close>: expanding the pool blocks, building the pool at start-up, the
  composer that hot-swaps the pool when a vendor's list changes, the heal that goes through it, and the
  reload on SIGHUP. \<open>buildErr\<close> is the outcome of building a SOCKS5 dialer.
\<close>

subsection \<open>Checks on the merged list of upstreams\<close>

fun duplicate_ids :: "nat \<Rightarrow> (string, nat) fmap \<Rightarrow> upstream_config list \<Rightarrow> (string \<times> nat \<times> nat) list" where
  "duplicate_ids i seen [] = []"
| "duplicate_ids i seen (u # us) =
     (case fmlookup seen (uc_id u) of
        Some prev \<Rightarrow> (uc_id u, prev, i) # duplicate_ids (Suc i) seen us
      | None \<Rightarrow> duplicate_ids (Suc i) (fmupd (uc_id u) i seen) us)"

definition assertUniqueUpstreamIDs :: "upstream_config list \<Rightarrow> goerr option" where
  "assertUniqueUpstreamIDs us =
     (if duplicate_ids 0 fmempty us \<noteq> [] then Some (errorf ''duplicate upstream ids'') else None)"

definition assertRulePreferIDs :: "rule_config list \<Rightarrow> upstream_config list \<Rightarrow> goerr option" where
  "assertRulePreferIDs rules us =
     errors_join [errorf ''prefer references unknown upstream id''. r \<leftarrow> rules, uid \<leftarrow> rc_prefer r,
                    uid \<notin> set (map uc_id us)]"

definition build_upstream ::
    "(upstream_config \<Rightarrow> goerr option) \<Rightarrow> duration \<Rightarrow> upstream_config \<Rightarrow> goerr + upstream option \<times> int" where
  "build_upstream buildErr timeout uc =
     (case upstream_New buildErr uc timeout of
        Inl e \<Rightarrow> Inl (errorf_w ''build upstream'' e)
      | Inr up \<Rightarrow> Inr (Some up, PriorityValue uc))"

definition build_pool ::
    "(upstream_config \<Rightarrow> goerr option) \<Rightarrow> duration \<Rightarrow> int \<Rightarrow> upstream_config list \<Rightarrow> goerr + pool" where
  "build_pool buildErr timeout retryCap us =
     (case map_result (build_upstream buildErr timeout) us of
        Inl e \<Rightarrow> Inl e
      | Inr entries \<Rightarrow>
          (case NewPool entries retryCap of Inl e \<Rightarrow> Inl (errorf_w ''build pool'' e) | Inr p \<Rightarrow> Inr p))"

subsection \<open>Pool blocks\<close>

record pool_block =
  bk_id_prefix :: string
  bk_provider :: string
  bk_healer :: bool
  bk_has_api :: bool
  bk_initial :: up_slice

definition expandPool :: "registry \<Rightarrow> upstream_pool_config \<Rightarrow> goerr + pool_block" where
  "expandPool reg block =
     (case provider_Lookup reg (pc_provider block) of
        None \<Rightarrow> Inl (errorf ''provider is not registered'')
      | Some prov \<Rightarrow>
          (case pv_BuildExpander prov block of
             Inl e \<Rightarrow> Inl (errorf_w ''build expander'' e)
           | Inr ex \<Rightarrow>
               (case pv_BuildAPI prov block of
                  Some e \<Rightarrow>
                    if \<not> errors_is e ErrAPINotSupported then Inl (errorf_w ''build api'' e)
                    else (case ex_snapshot ex of
                            Inl e' \<Rightarrow> Inl e'
                          | Inr initial \<Rightarrow>
                              Inr \<lparr>bk_id_prefix = pc_id_prefix block, bk_provider = pc_provider block,
                                bk_healer = ex_healer ex, bk_has_api = False, bk_initial = initial\<rparr>)
                | None \<Rightarrow>
                    (case ex_snapshot ex of
                       Inl e' \<Rightarrow> Inl e'
                     | Inr initial \<Rightarrow>
                         Inr \<lparr>bk_id_prefix = pc_id_prefix block, bk_provider = pc_provider block,
                           bk_healer = ex_healer ex, bk_has_api = True, bk_initial = initial\<rparr>))))"

definition expandUpstreamPools ::
    "registry \<Rightarrow> upstream_pool_config list \<Rightarrow> goerr + upstream_config list \<times> pool_block list" where
  "expandUpstreamPools reg blocks =
     (case map_result (\<lambda>b. case expandPool reg b of Inl e \<Rightarrow> Inl (errorf_w ''upstream_pool'' e) | Inr pb \<Rightarrow> Inr pb) blocks of
        Inl e \<Rightarrow> Inl e
      | Inr pbs \<Rightarrow> Inr (concat (map (slice_list \<circ> bk_initial) pbs), pbs))"

definition buildProviderRegistry :: "pool_block list \<Rightarrow> provider_registry option" where
  "buildProviderRegistry blocks =
     (if length blocks = 0 then None
      else Some (NewProviderRegistry
        (map (\<lambda>b. \<lparr>pb_id_prefix = bk_id_prefix b, pb_provider = bk_provider b, pb_has_api = bk_has_api b\<rparr>) blocks)))"

subsection \<open>The composer\<close>

record composer =
  pc_static :: "upstream_config list"
  pc_blocks :: "(string \<times> up_slice) list"
  pc_retryCap :: int
  pc_dialTimeout :: duration

text \<open>The objects the composer and the reloader act on; None is a nil gauge refresher or server.\<close>

record runtime =
  rt_sb :: scoreboard
  rt_http :: http_server
  rt_gauges :: "string list option"
  rt_pool_size :: nat
  rt_hotswaps :: "string list"
  rt_reloads :: "string list"
  rt_control :: "control_server option"

definition newPoolComposer ::
    "upstream_config list \<Rightarrow> pool_block list \<Rightarrow> int \<Rightarrow> duration \<Rightarrow> composer" where
  "newPoolComposer static blocks retryCap dialTimeout =
     \<lparr>pc_static = static, pc_blocks = map (\<lambda>b. (bk_id_prefix b, bk_initial b)) blocks,
      pc_retryCap = retryCap, pc_dialTimeout = dialTimeout\<rparr>"

fun block_index :: "string \<Rightarrow> (string \<times> up_slice) list \<Rightarrow> nat option" where
  "block_index p [] = None"
| "block_index p (b # bs) = (if fst b = p then Some 0 else map_option Suc (block_index p bs))"

text \<open>The merged view: the static upstreams, then every block's expansion in order.\<close>

definition merged :: "upstream_config list \<Rightarrow> (string \<times> up_slice) list \<Rightarrow> upstream_config list" where
  "merged static blocks = static @ concat (map (slice_list \<circ> snd) blocks)"

definition observe_hotswap :: "string \<Rightarrow> runtime \<Rightarrow> runtime" where
  "observe_hotswap result rt = rt\<lparr>rt_hotswaps := rt_hotswaps rt @ [result]\<rparr>"

text \<open>What follows a successful \<open>ReplacePool\<close>: no cached transport survives, the gauges learn the pool.\<close>

definition install_pool :: "scoreboard \<Rightarrow> pool \<Rightarrow> runtime \<Rightarrow> runtime" where
  "install_pool sb p rt =
     rt\<lparr>rt_sb := sb, rt_http := CloseTransportsExcept {} (rt_http rt),
        rt_gauges := map_option (\<lambda>_. IDs p) (rt_gauges rt), rt_pool_size := pool_Len p\<rparr>"

definition composer_Update ::
    "(upstream_config \<Rightarrow> goerr option) \<Rightarrow> string \<Rightarrow> up_slice \<Rightarrow> composer \<times> runtime \<Rightarrow>
     (goerr + bool) \<times> composer \<times> runtime" where
  "composer_Update buildErr idPrefix next cr =
     (let (c, rt) = cr; failed = (\<lambda>e. (Inl e, c, observe_hotswap ''error'' rt)) in
      case block_index idPrefix (pc_blocks c) of
        None \<Rightarrow> failed (errorf ''poolComposer: no block registered for id_prefix'')
      | Some idx \<Rightarrow>
          if snd (pc_blocks c ! idx) = next then (Inr False, c, rt)
          else
            (let blocks = (pc_blocks c)[idx := (idPrefix, next)];
                 us = merged (pc_static c) blocks
             in case assertUniqueUpstreamIDs us of
                  Some e \<Rightarrow> failed e
                | None \<Rightarrow>
                    (case build_pool buildErr (pc_dialTimeout c) (pc_retryCap c) us of
                       Inl e \<Rightarrow> failed e
                     | Inr p \<Rightarrow>
                         (case ReplacePool (Some p) (rt_sb rt) of
                            Inl e \<Rightarrow> failed (errorf_w ''scoreboard ReplacePool'' e)
                          | Inr sb \<Rightarrow>
                              (Inr True, c\<lparr>pc_blocks := blocks\<rparr>,
                               observe_hotswap ''success'' (install_pool sb p rt))))))"

text \<open>
  \<open>runHeal\<close> from the vendor's answer on: the hot-swap, and the driver after its deferred function.
\<close>

definition runHeal ::
    "(upstream_config \<Rightarrow> goerr option) \<Rightarrow> goerr + up_slice \<Rightarrow> time \<Rightarrow> heal_driver \<Rightarrow> composer \<times> runtime \<Rightarrow>
     heal_driver \<times> composer \<times> runtime" where
  "runHeal buildErr answer now d cr =
     (heal_done now d,
      case answer of
        Inl _ \<Rightarrow> cr
      | Inr next \<Rightarrow>
          if \<not> hd_composer d then cr
          else snd (composer_Update buildErr (hd_id_prefix d) next cr))"

definition diffUpstreams :: "upstream_config list \<Rightarrow> upstream_config list \<Rightarrow> string list \<times> string list" where
  "diffUpstreams prev next =
     (filter (\<lambda>uid. uid \<notin> set (map uc_id prev)) (map uc_id next),
      filter (\<lambda>uid. uid \<notin> set (map uc_id next)) (map uc_id prev))"

definition truncateIDs :: "string list \<Rightarrow> nat \<Rightarrow> string list" where
  "truncateIDs ids n =
     (if length ids \<le> n then ids
      else take n ids @ [''... and '' @ itoa (int (length ids - n)) @ '' more''])"

definition refreshLogSampleSize :: nat where "refreshLogSampleSize = 5"

text \<open>
  The callback of \<open>runRefresh\<close> on one snapshot: the ids logged as added and removed (none when the diff is
  empty), then the hot-swap. A nil composer only observes.
\<close>

definition refresh_callback ::
    "(upstream_config \<Rightarrow> goerr option) \<Rightarrow> string \<Rightarrow> bool \<Rightarrow> up_slice \<Rightarrow> up_slice \<Rightarrow> composer \<times> runtime \<Rightarrow>
     (string list \<times> string list) option \<times> composer \<times> runtime" where
  "refresh_callback buildErr idPrefix haveComposer prev next cr =
     (let (added, removed) = diffUpstreams (slice_list prev) (slice_list next);
          log = (if length added = 0 \<and> length removed = 0 then None
                 else Some (truncateIDs added refreshLogSampleSize, truncateIDs removed refreshLogSampleSize))
      in if \<not> haveComposer then (log, cr)
         else (log, snd (composer_Update buildErr idPrefix next cr)))"

subsection \<open>Control tokens\<close>

text \<open>Error, or the tokens and whether the file is missing.\<close>

definition buildControlTokens ::
    "control_config \<Rightarrow> (string \<Rightarrow> token_file) \<Rightarrow> load_error + string list \<times> bool" where
  "buildControlTokens ct fs =
     (if ct_auth_tokens_file ct \<noteq> [] then
        (case LoadTokensFile (ct_auth_tokens_file ct) fs of
           Inr loaded \<Rightarrow> Inr (MergeTokens (ct_auth_tokens ct) loaded, False)
         | Inl (OpenFailed e) \<Rightarrow>
             if errors_is e ErrNotExist then Inr (MergeTokens (ct_auth_tokens ct) [], True)
             else Inl (OpenFailed e)
         | Inl e \<Rightarrow> Inl e)
      else Inr (MergeTokens (ct_auth_tokens ct) [], False))"

subsection \<open>Start-up\<close>

definition dial_timeout :: "config \<Rightarrow> duration" where
  "dial_timeout cfg = wrap64 (fc_timeout_ms (cf_failure cfg) * ms)"

datatype startup_error =
    ExpandFailed goerr | NoUpstreams | DuplicateIDs goerr | UnknownPrefer goerr | RuleCompile goerr
  | PoolBuild goerr | PrefixCollision collision | ScoreboardBuild goerr | ListenerBuild goerr
  | TokenLoad load_error

definition config_tuning :: "config \<Rightarrow> sb_config" where
  "config_tuning cfg =
     FromConfig (fc_scoring (cf_failure cfg)) (fc_status (cf_failure cfg)) (fc_connection_refused (cf_failure cfg))"

text \<open>
  The parts of the build section: the snapshot load (an unreadable one is only warned about), the HTTP
  listener, the control server.
\<close>

definition loaded_scoreboard ::
    "(bytes \<Rightarrow> goerr + snapshot_file) \<Rightarrow> fs \<Rightarrow> config \<Rightarrow> scoreboard \<Rightarrow> scoreboard" where
  "loaded_scoreboard dec disk cfg sb0 =
     (if cc_persist_path (cf_cache cfg) \<noteq> []
      then (case LoadSnapshot dec (cc_persist_path (cf_cache cfg)) disk sb0 of Inr s \<Rightarrow> s | Inl _ \<Rightarrow> sb0)
      else sb0)"

definition startup_http :: "config \<Rightarrow> rule_set \<Rightarrow> goerr + http_server" where
  "startup_http cfg rules =
     (let fc = cf_failure cfg in
      NewHTTP True (Some (NewStatusDetector (fc_status fc))) (fc_max_retries_per_request fc)
        [WithHTTPMetrics True, WithHTTPRules rules, WithHTTPBodyBufferKB (fc_body_buffer_kb fc),
         WithHTTPConnectionRefused (fc_connection_refused fc)])"

definition startup_control ::
    "(string \<Rightarrow> token_file) \<Rightarrow> config \<Rightarrow> pool_block list \<Rightarrow> load_error + control_server option" where
  "startup_control fs cfg blocks =
     (let ct = cf_control cfg in
      if ct_bind ct = [] then Inr None
      else (case buildControlTokens ct fs of
              Inl e \<Rightarrow> Inl e
            | Inr (tokens, _) \<Rightarrow>
                Inr (Some (NewServer \<lparr>co_tokens = tokens, co_gate_healthz = ct_gate_healthz ct,
                  co_providers = buildProviderRegistry blocks,
                  co_tls_cert = ct_tls_cert_file ct, co_tls_key = ct_tls_key_file ct\<rparr>))))"

text \<open>
  The build section of \<open>run\<close>, up to the wiring of the heal drivers: the configuration is loaded, and
  \<open>dec\<close>, \<open>disk\<close> and \<open>fs\<close> are the gob decoder, the snapshot files and the token files.
\<close>

definition run_build ::
    "registry \<Rightarrow> (upstream_config \<Rightarrow> goerr option) \<Rightarrow> regex_compile \<Rightarrow>
     (bytes \<Rightarrow> goerr + snapshot_file) \<Rightarrow> fs \<Rightarrow> (string \<Rightarrow> token_file) \<Rightarrow> config \<Rightarrow> startup_error + composer \<times> runtime \<times> heal_driver list" where
  "run_build reg buildErr re dec disk fs cfg =
     (let timeout = dial_timeout cfg; fc = cf_failure cfg in
      case expandUpstreamPools reg (cf_upstream_pools cfg) of
        Inl e \<Rightarrow> Inl (ExpandFailed e)
      | Inr (expanded, blocks) \<Rightarrow>
          (let us = cf_upstreams cfg @ expanded in
           if us = [] then Inl NoUpstreams
           else (case assertUniqueUpstreamIDs us of Some e \<Rightarrow> Inl (DuplicateIDs e) | None \<Rightarrow>
             (case assertRulePreferIDs (cf_rules cfg) us of Some e \<Rightarrow> Inl (UnknownPrefer e) | None \<Rightarrow>
             (case NewRuleSet re (cf_rules cfg) of Inl e \<Rightarrow> Inl (RuleCompile e) | Inr rules \<Rightarrow>
             (case build_pool buildErr timeout (fc_max_retries_per_request fc) us of Inl e \<Rightarrow> Inl (PoolBuild e) | Inr p \<Rightarrow>
             (let drivers = buildAuthHealDrivers (map (\<lambda>b. (bk_id_prefix b, bk_healer b)) blocks) in
              case validateNoPoolPrefixCollision (map uc_id (cf_upstreams cfg)) drivers (map bk_id_prefix blocks) of
                Some col \<Rightarrow> Inl (PrefixCollision col)
              | None \<Rightarrow>
                (case sb_New (Some p) (config_tuning cfg) rules True (fanoutFailureHook drivers \<noteq> None) of
                   Inl e \<Rightarrow> Inl (ScoreboardBuild e)
                 | Inr sb0 \<Rightarrow>
                     (case startup_http cfg rules of Inl e \<Rightarrow> Inl (ListenerBuild e) | Inr http \<Rightarrow>
                     (case startup_control fs cfg blocks of Inl e \<Rightarrow> Inl (TokenLoad e) | Inr srv \<Rightarrow>
                        Inr (newPoolComposer (cf_upstreams cfg) blocks (fc_max_retries_per_request fc) timeout,
                          \<lparr>rt_sb = sb_Start (loaded_scoreboard dec disk cfg sb0), rt_http = http,
                           rt_gauges = (if cf_metrics_bind cfg \<noteq> [] then Some (IDs p) else None),
                           rt_pool_size = pool_Len p, rt_hotswaps = [], rt_reloads = [], rt_control = srv\<rparr>,
                          connectAuthHealDriversToComposer drivers (Some ShutdownCtx))))))))))))"

end
