(* ===== verification/Reloader.thy ===== *)
theory Reloader
  imports Composer
begin

text \<open>
  The reload on SIGHUP of \<open>cmd/tunnelsmith/main.go\<close>: \<open>config.Load\<close>, the checks that come before any
  change, the scoring and detector swap, the static pool swap, the rules and the control tokens. The
  TOML decoder, the file reads and the regular-expression compiler are parameters.
\<close>

text \<open>The decoder: the document's values, which keys it defines, and the keys it does not know.\<close>

type_synonym toml_decode = "string \<Rightarrow> goerr + config \<times> (string list \<Rightarrow> bool) \<times> string list"

definition Parse ::
    "toml_decode \<Rightarrow> (upstream_pool_config \<Rightarrow> string option) option \<Rightarrow> regex_compile \<Rightarrow> string \<Rightarrow> goerr + config" where
  "Parse decode v re doc =
     (case decode doc of
        Inl e \<Rightarrow> Inl (errorf_w ''parse'' e)
      | Inr (raw, md, undecoded) \<Rightarrow>
          (let cfg = applyDefaults md (raw\<lparr>cf_unknown_keys := cf_unknown_keys raw @ undecoded\<rparr>)
           in if Validate v re cfg \<noteq> [] then Inl (errorf ''validate'') else Inr cfg))"

definition config_Load ::
    "toml_decode \<Rightarrow> (upstream_pool_config \<Rightarrow> string option) option \<Rightarrow> regex_compile \<Rightarrow> goerr + string \<Rightarrow> goerr + config" where
  "config_Load decode v re file =
     (case file of Inl e \<Rightarrow> Inl (errorf_w ''read'' e) | Inr doc \<Rightarrow> Parse decode v re doc)"

definition projectedUpstreamIDs :: "bool \<Rightarrow> config \<Rightarrow> runtime \<Rightarrow> string fset" where
  "projectedUpstreamIDs runningHasPool cfg rt =
     (if runningHasPool \<or> 0 < length (cf_upstream_pools cfg) then fset_of_list (PoolIDs (rt_sb rt))
      else fset_of_list (map uc_id (cf_upstreams cfg)))"

definition swapStaticPool ::
    "(upstream_config \<Rightarrow> goerr option) \<Rightarrow> config \<Rightarrow> runtime \<Rightarrow> goerr + runtime" where
  "swapStaticPool buildErr cfg rt =
     (case map_result (build_upstream buildErr (dial_timeout cfg)) (cf_upstreams cfg) of
        Inl e \<Rightarrow> Inl e
      | Inr entries \<Rightarrow>
          if length entries = 0 then Inl (errorf ''no static upstreams in reloaded config'')
          else
            (case NewPool entries (fc_max_retries_per_request (cf_failure cfg)) of
               Inl e \<Rightarrow> Inl (errorf_w ''build pool'' e)
             | Inr p \<Rightarrow>
                 (case ReplacePool (Some p) (rt_sb rt) of
                    Inl e \<Rightarrow> Inl (errorf_w ''scoreboard ReplacePool'' e)
                  | Inr sb \<Rightarrow> Inr (install_pool sb p rt))))"

definition observe_reload :: "string \<Rightarrow> runtime \<Rightarrow> runtime" where
  "observe_reload result rt = rt\<lparr>rt_reloads := rt_reloads rt @ [result]\<rparr>"

text \<open>The parts of \<open>reload\<close>: what is always swapped, then rules and body cap, then the tokens.\<close>

definition reload_tuning :: "config \<Rightarrow> runtime \<Rightarrow> runtime" where
  "reload_tuning cfg rt =
     (let fc = cf_failure cfg in
      rt\<lparr>rt_sb := Reload (config_tuning cfg) (rt_sb rt),
         rt_http := ReloadConnectionRefused (fc_connection_refused fc)
           (http_Reload (Some (NewStatusDetector (fc_status fc))) (fc_max_retries_per_request fc) (rt_http rt))\<rparr>)"

definition reload_rules :: "rule_set \<Rightarrow> config \<Rightarrow> runtime \<Rightarrow> runtime" where
  "reload_rules rules cfg rt =
     rt\<lparr>rt_sb := ReplaceRules rules (rt_sb rt),
        rt_http := ReloadBodyBufferKB (fc_body_buffer_kb (cf_failure cfg)) (ReloadRules rules (rt_http rt))\<rparr>"

definition reload_tokens :: "(string \<Rightarrow> token_file) \<Rightarrow> config \<Rightarrow> runtime \<Rightarrow> runtime" where
  "reload_tokens fs cfg rt =
     (if rt_control rt = None then rt
      else (case buildControlTokens (cf_control cfg) fs of
              Inl e \<Rightarrow> rt
            | Inr (tokens, missingFile) \<Rightarrow>
                if missingFile then rt else rt\<lparr>rt_control := ReplaceTokens tokens (rt_control rt)\<rparr>))"

definition reload ::
    "regex_compile \<Rightarrow> (upstream_config \<Rightarrow> goerr option) \<Rightarrow> (string \<Rightarrow> token_file) \<Rightarrow> goerr + config \<Rightarrow> bool \<Rightarrow>
     runtime \<Rightarrow> runtime" where
  "reload re buildErr fs loaded runningHasPool rt =
     (case loaded of
        Inl e \<Rightarrow> observe_reload ''error'' rt
      | Inr cfg \<Rightarrow>
          (case NewRuleSet re (cf_rules cfg) of
             Inl e \<Rightarrow> observe_reload ''error'' rt
           | Inr rules \<Rightarrow>
               if CheckPreferIDs (projectedUpstreamIDs runningHasPool cfg rt) rules \<noteq> [] then
                 observe_reload ''error'' rt
               else
                 (let rt1 = reload_tuning cfg rt;
                      swapped = (if runningHasPool \<or> 0 < length (cf_upstream_pools cfg) then Inr rt1
                                 else swapStaticPool buildErr cfg rt1)
                  in case swapped of
                       Inl e \<Rightarrow> observe_reload ''error'' rt1
                     | Inr rt2 \<Rightarrow>
                         observe_reload ''success'' (reload_tokens fs cfg (reload_rules rules cfg rt2)))))"

text \<open>
  The gauge refresher: the totals the scoreboard reports, and one gauge per id it last learnt.
\<close>

record gauge_view =
  gv_entries :: nat
  gv_cooled :: "(string \<times> nat) list"
  gv_cascades :: nat

definition gauge_tick :: "time \<Rightarrow> runtime \<Rightarrow> gauge_view option" where
  "gauge_tick now rt =
     map_option (\<lambda>ids.
       \<lparr>gv_entries = EntriesCount (rt_sb rt),
        gv_cooled = map (\<lambda>uid. (uid, CooledHostsByUpstream now (rt_sb rt) uid)) ids,
        gv_cascades = CascadeActiveCount now (rt_sb rt)\<rparr>)
       (rt_gauges rt)"

end
