(* ===== verification/CommandLine.thy ===== *)
theory CommandLine
  imports Reloader
begin

text \<open>
  The front of \<open>cmd/tunnelsmith/main.go\<close>: flags, the version, the configuration that is printed instead of served, the log
  level, and the exit status. Flag parsing, the outcome of a write, loading and TOML encoding are parameters.
\<close>

record cli_flags =
  cl_config :: string
  cl_print_config :: bool
  cl_version :: bool

definition defaultConfigPath :: string where
  "defaultConfigPath = ''/etc/tunnelsmith/config.toml''"

definition default_flags :: cli_flags where
  "default_flags = \<lparr>cl_config = defaultConfigPath, cl_print_config = False, cl_version = False\<rparr>"

text \<open>Version, commit and date of the build.\<close>

type_synonym build_info = "string \<times> string \<times> string"

definition build_vars :: build_info where
  "build_vars = (''dev'', ''unknown'', ''unknown'')"

definition version_line :: "build_info \<Rightarrow> string" where
  "version_line b =
     (case b of (version, commit, date) \<Rightarrow>
        ''tunnelsmith '' @ version @ '' (commit '' @ commit @ '', built '' @ date @ '')'' @ [CHR 0x0A])"

datatype front_end = FrontFailed goerr | Printed string | StartWith config

definition print_out :: "(string \<Rightarrow> goerr option) \<Rightarrow> string \<Rightarrow> string \<Rightarrow> front_end" where
  "print_out out what text =
     (case out text of Some e \<Rightarrow> FrontFailed (errorf_w what e) | None \<Rightarrow> Printed text)"

definition run_front ::
    "(string list \<Rightarrow> cli_flags \<Rightarrow> goerr + cli_flags) \<Rightarrow> build_info \<Rightarrow> (string \<Rightarrow> goerr option) \<Rightarrow> (string \<Rightarrow> goerr + config) \<Rightarrow>
     (config \<Rightarrow> goerr + string) \<Rightarrow> string list \<Rightarrow> front_end" where
  "run_front parse build out load marshal args =
     (case parse args default_flags of
        Inl e \<Rightarrow> FrontFailed e
      | Inr fl \<Rightarrow>
          if cl_version fl then print_out out ''write version'' (version_line build)
          else (case load (cl_config fl) of
                  Inl e \<Rightarrow> FrontFailed (errorf_w ''load config'' e)
                | Inr cfg \<Rightarrow>
                    if cl_print_config fl then
                      (case marshal cfg of
                         Inl e \<Rightarrow> FrontFailed (errorf_w ''marshal config'' e)
                       | Inr text \<Rightarrow> print_out out ''write config'' text)
                    else StartWith cfg))"

text \<open>\<open>main\<close>; \<open>serve\<close> is the rest of \<open>run\<close>.\<close>

definition main_exit :: "front_end \<Rightarrow> (config \<Rightarrow> goerr option) \<Rightarrow> nat" where
  "main_exit front serve =
     (let err = (case front of FrontFailed e \<Rightarrow> Some e | Printed _ \<Rightarrow> None | StartWith cfg \<Rightarrow> serve cfg)
      in case err of Some _ \<Rightarrow> 1 | None \<Rightarrow> 0)"

datatype log_level = LevelDebug | LevelInfo | LevelWarn | LevelError

text \<open>\<open>raw\<close> is the value of \<open>TUNNELSMITH_LOG_LEVEL\<close>.\<close>

definition newLogger :: "string \<Rightarrow> log_level" where
  "newLogger raw =
     (let l = to_lower raw
      in if l = ''debug'' then LevelDebug
         else if l = ''warn'' \<or> l = ''warning'' then LevelWarn
         else if l = ''error'' then LevelError
         else LevelInfo)"

text \<open>The process serves only what was loaded, and only when no flag asks for something else.\<close>

lemma run_front_starts:
  "run_front parse build out load marshal args = StartWith cfg \<longleftrightarrow>
     (\<exists>fl. parse args default_flags = Inr fl \<and> \<not> cl_version fl \<and> \<not> cl_print_config fl \<and> load (cl_config fl) = Inr cfg)"
  by (auto simp: run_front_def print_out_def split: sum.splits option.splits if_splits)

lemma main_exit_zero:
  "main_exit (run_front parse build out load marshal args) serve = 0 \<longleftrightarrow>
     (\<exists>text. run_front parse build out load marshal args = Printed text) \<or>
     (\<exists>cfg. run_front parse build out load marshal args = StartWith cfg \<and> serve cfg = None)"
  by (cases "run_front parse build out load marshal args") (auto simp: main_exit_def split: option.splits)

end
