(* ===== verification/Records.thy ===== *)
theory Records
  imports SbInvariant
begin

text \<open>
  What \<open>RecordSuccess\<close>, \<open>RecordFailure\<close> and \<open>decayTick\<close> do to one (host, upstream) pair, the debounce of
  repeated failures, and the agreement of the scoring policy with the status detector.
\<close>

subsection \<open>Failures\<close>

definition accepts :: "scoreboard \<Rightarrow> time \<Rightarrow> debounce_key \<Rightarrow> bool" where
  "accepts s now key \<longleftrightarrow>
     fst (acceptForDebounce key now (sc_debounce_window (sb_cfg s)) (sb_debounce s))"

lemma RecordFailure_dropped:
  "\<not> kind_Valid k \<or> \<not> accepts s now (host, uid, k) \<Longrightarrow> RecordFailure now host uid k ov s = s"
  by (auto simp: RecordFailure_def accepts_def Let_def case_prod_beta)

lemma RecordFailure_counted:
  assumes "kind_Valid k" and "accepts s now (host, uid, k)"
  shows "sb_entries (RecordFailure now host uid k ov s) =
           set_entry host uid (penalize (sb_cfg s) k ov now (found_entry (sb_entries s) host uid)) (sb_entries s)"
    and "sb_failure_hook (RecordFailure now host uid k ov s) =
           map_option (\<lambda>ks. ks @ [(host, uid, k)]) (sb_failure_hook s)"
    and "sb_debounce (RecordFailure now host uid k ov s) =
           snd (acceptForDebounce (host, uid, k) now (sc_debounce_window (sb_cfg s)) (sb_debounce s))"
  using assms by (simp_all add: RecordFailure_def accepts_def call_hook_def Let_def case_prod_beta)

lemma f_sub_le_self:
  "representable v \<Longrightarrow> f_le f_zero p \<Longrightarrow> f_le (f_sub (Fin v) p) (Fin v)"
  by (simp add: f_sub_nonneg_le)


subsection \<open>Debounce\<close>

lemma time_sub_within: "0 < w \<Longrightarrow> w \<le> max_int64 \<Longrightarrow> t' - t < w \<Longrightarrow> time_sub t' t < w"
  by (auto simp: time_sub_def min_int64_def)

lemma accepted_at:
  assumes "0 < w" and "fst (acceptForDebounce key now w db)"
  shows "fmlookup (snd (acceptForDebounce key now w db)) key = Some now"
  using assms by (auto simp: acceptForDebounce_def split: option.splits if_splits)

text \<open>
  A burst counts once: after a counted failure, any number of reports of the same (host,
  upstream, kind) less than the debounce window later changes nothing at all, whatever their
  Retry-After values.
\<close>

theorem RecordFailure_burst:
  assumes "0 < sc_debounce_window (sb_cfg s)" and "sc_debounce_window (sb_cfg s) \<le> max_int64"
    and "accepts s t (host, uid, k)"
    and "\<forall>(t', ov') \<in> set later. t' - t < sc_debounce_window (sb_cfg s)"
  shows "fold (\<lambda>(t', ov'). RecordFailure t' host uid k ov') later (RecordFailure t host uid k ov s) =
           RecordFailure t host uid k ov s"
proof (cases "kind_Valid k")
  case False
  then have "RecordFailure t' host uid k ov' s' = s'" for t' ov' s' by (simp add: RecordFailure_dropped)
  then show ?thesis by (induction later) auto
next
  case True
  let ?s = "RecordFailure t host uid k ov s"
  have w: "sc_debounce_window (sb_cfg ?s) = sc_debounce_window (sb_cfg s)"
    by (simp add: RecordFailure_def call_hook_def Let_def case_prod_beta)
  have "fmlookup (sb_debounce ?s) (host, uid, k) = Some t"
    using RecordFailure_counted(3) [OF True assms(3)] accepted_at assms(1,3) by (simp add: accepts_def)
  then have "\<not> accepts ?s t' (host, uid, k)" if "t' - t < sc_debounce_window (sb_cfg s)" for t'
    using time_sub_within [OF assms(1,2) that] assms(1) w
    by (simp add: accepts_def acceptForDebounce_def)
  then have drop: "RecordFailure t' host uid k ov' ?s = ?s"
    if "t' - t < sc_debounce_window (sb_cfg s)" for t' ov'
    using that RecordFailure_dropped by blast
  have "fold (\<lambda>(t', ov'). RecordFailure t' host uid k ov') later ?s = ?s"
    using assms(4) drop by (induction later) auto
  then show ?thesis .
qed

text \<open>Different kinds, hosts and upstreams do not debounce each other.\<close>

lemma accepts_other:
  assumes "key \<noteq> (host, uid, k)"
  shows "accepts (RecordFailure t host uid k ov s) now key = accepts s now key"
proof -
  have "fmlookup (sb_debounce (RecordFailure t host uid k ov s)) key = fmlookup (sb_debounce s) key"
    using assms
    by (auto simp: RecordFailure_def acceptForDebounce_def call_hook_def Let_def case_prod_beta
        split: option.splits)
  moreover have "sb_cfg (RecordFailure t host uid k ov s) = sb_cfg s"
    by (simp add: RecordFailure_def call_hook_def Let_def case_prod_beta)
  ultimately show ?thesis
    by (simp add: accepts_def acceptForDebounce_def split: option.splits)
qed

subsection \<open>Successes\<close>

text \<open>
  A success never lowers the pair's score and never takes it above \<open>ScoreCap\<close>, ends its cooldown
  and the host's cascade, counts once, and touches no other pair.
\<close>

theorem RecordSuccess_effect:
  assumes "sb_inv C s" and "e = found_entry (sb_entries s) host uid"
    and "f_le (en_score e) (sc_score_cap (sb_cfg s))" and "s' = RecordSuccess now host uid s"
  shows "\<exists>e'. entry_at (sb_entries s') host uid = Some e' \<and>
           f_le (en_score e) (en_score e') \<and> f_le (en_score e') (sc_score_cap (sb_cfg s)) \<and>
           en_cooldown_until e' = zero_time \<and> en_last_seen e' = now \<and>
           en_success e' = en_success e + 1 \<and> en_failure e' = en_failure e \<and>
           fmlookup (sb_cascade s') host = None \<and>
           (\<forall>h u. (h, u) \<noteq> (host, uid) \<longrightarrow> entry_at (sb_entries s') h u = entry_at (sb_entries s) h u)"
proof -
  obtain c where c: "sc_score_cap (sb_cfg s) = Fin c" "0 < c" "representable c"
      and w: "f_le f_zero (sc_success_weight (sb_cfg s))"
    using assms(1) by (auto simp: sb_inv_def cfg_inv_def)
  obtain v where v: "en_score e = Fin v" "representable v"
    using assms(1,2) found_entry_score [of C "sb_entries s" host uid] sb_inv_C [OF assms(1)]
    by (auto simp: sb_inv_def score_in_cases)
  have hi: "v \<le> c" using assms(3) c v by simp
  have "f_le (Fin v) (f_add (Fin v) (sc_success_weight (sb_cfg s)))"
    using f_add_nonneg_ge [OF v(2) order_refl w] .
  then have "f_le (Fin v) (let y = f_add (Fin v) (sc_success_weight (sb_cfg s)) in if f_lt (Fin c) y then Fin c else y) \<and>
      f_le (let y = f_add (Fin v) (sc_success_weight (sb_cfg s)) in if f_lt (Fin c) y then Fin c else y) (Fin c)"
    using hi by (cases "f_add (Fin v) (sc_success_weight (sb_cfg s))") (auto simp: Let_def f_le_def)
  then show ?thesis
    unfolding assms(4) RecordSuccess_entries assms(2) [symmetric] using c v
    by (simp add: Let_def RecordSuccess_def case_prod_beta split: if_splits)
qed

subsection \<open>Decay\<close>

text \<open>
  Scores and step on one binary grid are moved exactly, so each tick takes one step off the score
  and enough ticks bring it to zero. The default step and weights are multiples of one half.
\<close>

lemma f64_grid:
  "\<bar>m\<bar> \<le> 2 ^ 53 \<Longrightarrow> f64_of_rat (of_int m / 2) = Fin (of_int m / 2)"
  by (rule f64_of_rat_exact) (auto simp: rnd_half)

lemma decay_score_grid:
  assumes "\<bar>m\<bar> \<le> 2 ^ 52" and "0 < j" and "j \<le> 2 ^ 52"
  shows "decay_score (Fin (of_int j / 2)) (Fin (of_int m / 2)) =
           Fin (of_int (if 0 < m then max 0 (m - j) else min 0 (m + j)) / 2)"
proof -
  have "f_sub (Fin (of_int m / 2)) (Fin (of_int j / 2)) = Fin (of_int (m - j) / 2)"
    using f64_grid [of "m - j"] assms by (simp add: f_sub_def diff_divide_distrib)
  moreover have "f_add (Fin (of_int m / 2)) (Fin (of_int j / 2)) = Fin (of_int (m + j) / 2)"
    using f64_grid [of "m + j"] assms by (simp add: add_divide_distrib)
  ultimately show ?thesis
    using assms(2) by (auto simp: decay_score_def Let_def max_def min_def)
qed

lemma decay_score_iterate:
  assumes "0 < j" and "j \<le> 2 ^ 52" and "\<bar>m\<bar> \<le> 2 ^ 52" and "\<bar>m\<bar> \<le> int n * j"
  shows "(decay_score (Fin (of_int j / 2)) ^^ n) (Fin (of_int m / 2)) = f_zero"
  using assms(3,4)
proof (induction n arbitrary: m)
  case (Suc n)
  let ?m = "if 0 < m then max 0 (m - j) else min 0 (m + j)"
  have "\<bar>?m\<bar> \<le> 2 ^ 52" "\<bar>?m\<bar> \<le> int n * j"
    using Suc.prems assms(1) by (auto simp: max_def min_def algebra_simps)
  from Suc.IH [OF this] show ?case
    using decay_score_grid [OF Suc.prems(1) assms(1,2)] by (simp add: funpow_Suc_right del: funpow.simps)
qed simp

lemma decayTick_entry:
  "\<not> f_le (sc_decay_step (sb_cfg s)) f_zero \<Longrightarrow>
     entry_at (sb_entries (decayTick s)) h u =
       map_option (\<lambda>e. e\<lparr>en_score := decay_score (sc_decay_step (sb_cfg s)) (en_score e)\<rparr>)
         (entry_at (sb_entries s) h u)"
  by (simp add: decayTick_def Let_def)

lemma decayTick_cfg [simp]: "sb_cfg (decayTick s) = sb_cfg s"
  by (simp add: decayTick_def Let_def)

lemma decayTicks_entry:
  assumes "\<not> f_le (sc_decay_step (sb_cfg s)) f_zero" and "entry_at (sb_entries s) h u = Some e"
  shows "entry_at (sb_entries ((decayTick ^^ n) s)) h u =
           Some (e\<lparr>en_score := (decay_score (sc_decay_step (sb_cfg s)) ^^ n) (en_score e)\<rparr>)"
proof (induction n)
  case (Suc n)
  have "sb_cfg ((decayTick ^^ n) s) = sb_cfg s" by (induction n) auto
  with Suc assms(1) show ?case by (simp add: decayTick_entry)
qed (use assms(2) in simp)


subsection \<open>The policy table\<close>

lemma status_policy_other: "statusKinds (sr_code r) = None \<Longrightarrow> status_policy r m = m"
  by (auto simp: status_policy_def statusKinds_def split: if_splits)

lemma status_policy_kind:
  "statusKinds (sr_code r) = Some k \<Longrightarrow>
     status_policy r m = fmupd k \<lparr>po_penalty = f64_of_int (sr_penalty r), po_cooldown = sr_cooldown r\<rparr> m"
  by (auto simp: status_policy_def statusKinds_def Let_def split: if_splits)

lemma statusKinds_inj: "statusKinds a = Some k \<Longrightarrow> statusKinds b = Some k \<Longrightarrow> a = b"
  by (auto simp: statusKinds_def kind_defs split: if_splits)

lemma status_policies_lookup:
  assumes "statusKinds code = Some k"
  shows "fmlookup (fold status_policy rules m) k =
     (case filter (\<lambda>r. sr_code r = code) (rev rules) of
        [] \<Rightarrow> fmlookup m k
      | r # _ \<Rightarrow> Some \<lparr>po_penalty = f64_of_int (sr_penalty r), po_cooldown = sr_cooldown r\<rparr>)"
proof (induction rules rule: rev_induct)
  case (snoc r rs)
  show ?case
  proof (cases "statusKinds (sr_code r)")
    case None
    then show ?thesis using snoc assms by (auto simp: status_policy_other)
  next
    case (Some k')
    then show ?thesis
      using snoc assms statusKinds_inj by (auto simp: status_policy_kind)
  qed
qed simp

text \<open>
  The status detector and the scoreboard agree: for every response it reports, the failure kind
  has in \<open>FromConfig\<close>'s table the penalty and cooldown of the rule the detector used, the last one
  of the configuration for that code.
\<close>

theorem detector_policy_agree:
  assumes "Detect parseTime (Some (NewStatusDetector rules)) now status hdr = Some d"
  shows "\<exists>r before rest. rules = before @ r # rest \<and> sr_code r = status \<and>
           (\<forall>q \<in> set rest. sr_code q \<noteq> status) \<and>
           policy_of (FromConfig scoring rules cr) (dt_kind d) =
             \<lparr>po_penalty = f64_of_int (sr_penalty r), po_cooldown = sr_cooldown r\<rparr>"
proof -
  have k: "statusKinds status = Some (dt_kind d)" by (rule Detect_sound(1) [OF assms])
  have "filter (\<lambda>r. sr_code r = status) (rev rules) \<noteq> []"
    using assms by (auto simp: Detect_def NewStatusDetector_lookup split: option.splits list.splits)
  then obtain r rs where f: "filter (\<lambda>r. sr_code r = status) (rev rules) = r # rs"
    by (cases "filter (\<lambda>r. sr_code r = status) (rev rules)") auto
  then obtain us vs where u: "rev rules = us @ r # vs" "\<forall>q \<in> set us. sr_code q \<noteq> status" "sr_code r = status"
    by (auto simp: filter_eq_Cons_iff)
  then have "rules = rev vs @ r # rev us" by (metis append.assoc append_Cons append_Nil rev.simps(2) rev_append rev_rev_ident)
  moreover have "policy_of (FromConfig scoring rules cr) (dt_kind d) =
      \<lparr>po_penalty = f64_of_int (sr_penalty r), po_cooldown = sr_cooldown r\<rparr>"
    using f by (simp add: policy_of_def FromConfig_def Let_def status_policies_lookup [OF k])
  ultimately show ?thesis using u by (intro exI [of _ r] exI [of _ "rev vs"] exI [of _ "rev us"]) simp
qed


subsection \<open>From the configuration\<close>

lemma f_of_int_nonneg: "0 \<le> n \<Longrightarrow> f_le f_zero (f64_of_int n)"
  by (simp add: f64_of_int_def f64_of_rat_ge)

lemma fold_status_policy_cases:
  "fmlookup (fold status_policy rules m) k = Some p \<Longrightarrow>
     fmlookup m k = Some p \<or>
     (\<exists>r \<in> set rules. p = \<lparr>po_penalty = f64_of_int (sr_penalty r), po_cooldown = sr_cooldown r\<rparr>)"
proof (induction rules arbitrary: m)
  case (Cons r rs)
  then show ?case
    by (cases "statusKinds (sr_code r)")
      (fastforce simp: status_policy_other status_policy_kind split: if_splits)+
qed simp

text \<open>
  What an accepted configuration lacks for sound tuning: no status rule has a negative penalty and no
  scoring number is NaN or an infinite cap.
\<close>

lemma cfg_inv_FromConfig:
  assumes "wf_scoring sg" and "sg_score_cap sg = Fin c" and "c \<le> C" and "representable c"
    and "\<forall>x \<in> {sg_refused_penalty sg, sg_timeout_penalty sg, sg_body_match_penalty sg, sg_success_weight sg,
           sg_decay_step sg}. x \<noteq> NaN"
    and "\<forall>r \<in> set status. 0 \<le> sr_penalty r"
  shows "cfg_inv C (FromConfig sg status cr)"
proof -
  have nn: "f_nonneg x \<Longrightarrow> x \<noteq> NaN \<Longrightarrow> f_le f_zero x" for x
    by (cases x) (auto simp: f_nonneg_def f_le_def)
  have pos: "f_pos x \<Longrightarrow> x \<noteq> NaN \<Longrightarrow> f_le f_zero x" for x
    by (cases x) (auto simp: f_pos_def f_le_def)
  have "f_le f_zero (po_penalty (policy_of (FromConfig sg status cr) k))" for k
  proof -
    have "f_le f_zero (po_penalty p)" if "fmlookup (sc_kind_policy (FromConfig sg status cr)) k = Some p" for p
      using that assms(1,5,6) fold_status_policy_cases
      by (fastforce simp: FromConfig_def Let_def wf_scoring_def nn f_of_int_nonneg split: if_splits)
    then show ?thesis by (auto simp: policy_of_def zero_policy_def split: option.splits)
  qed
  moreover have "0 < c" using assms(1,2) by (simp add: wf_scoring_def f_pos_def)
  ultimately show ?thesis
    using assms(1-5) nn pos by (auto simp: cfg_inv_def FromConfig_def Let_def wf_scoring_def)
qed

text \<open>
  The proviso is needed: a negative status penalty passes the validator, and one recorded failure
  then lifts the score above the cap.
\<close>

definition negative_rule :: status_rule where
  "negative_rule = \<lparr>sr_code = 429, sr_penalty = -100, sr_cooldown = 0, sr_honor_retry_after = False\<rparr>"

lemma negative_penalty_validates: "validate_status 0 [negative_rule] = []"
  by (simp add: negative_rule_def)

text \<open>
  A status penalty of -100 is accepted by the validator, and with it one rate-limit failure
  takes a fresh upstream's score to 100, ten times the cap that clamps successes.
\<close>

theorem negative_penalty_breaks_cap:
  "validate_status 0 [negative_rule] = [] \<and>
   en_score (penalize (FromConfig ScoringDefaults [negative_rule] True) KindRateLimit None 0 new_entry) = Fin 100 \<and>
   sc_score_cap (FromConfig ScoringDefaults [negative_rule] True) = Fin 10"
proof -
  have "policy_of (FromConfig ScoringDefaults [negative_rule] True) KindRateLimit =
      \<lparr>po_penalty = Fin (-100), po_cooldown = 0\<rparr>"
    by (simp add: policy_of_def FromConfig_def Let_def status_policy_def negative_rule_def f64_of_int_def
        f64_eval)
  moreover have cap: "sc_score_cap (FromConfig ScoringDefaults [negative_rule] True) = Fin 10"
    by (simp add: FromConfig_def ScoringDefaults_def)
  ultimately show ?thesis
    using negative_penalty_validates by (simp add: penalize_score new_entry_def f64_eval)
qed

end
