(* ===== verification/Steps.thy ===== *)
theory Steps
  imports DialLoop Records Persist Systems
begin

text \<open>
  The scoreboard as a transition system: every critical section of \<open>internal/scoreboard\<close> is a step,
  taken by any goroutine at any time. The invariant of \<open>SbInvariant\<close> holds in every reachable state.
\<close>

subsection \<open>The steps\<close>

text \<open>
  \<open>C\<close> bounds the score caps that are ever configured and the scores of any snapshot loaded.
\<close>

inductive sb_step :: "rat \<Rightarrow> scoreboard \<Rightarrow> scoreboard \<Rightarrow> bool" for C where
  step_pick: "sb_step C s (snd (Pick now d host tried s))"
| step_success: "sb_step C s (RecordSuccess now host uid s)"
| step_failure: "sb_step C s (RecordFailure now host uid k ov s)"
| step_cascade: "sb_step C s (TripCascade now host s)"
| step_decay: "sb_step C s (decayTick s)"
| step_observe: "sb_step C s (emit m s)"
| step_forget: "sb_step C s (snd (Forget host s))"
| step_force: "sb_step C s (snd (Force now host uid until s))"
| step_clear_force: "sb_step C s (snd (ClearForce host s))"
| step_forced_for: "sb_step C s (snd (ForcedFor now host s))"
| step_force_snapshot: "sb_step C s (snd (ForceSnapshot now s))"
| step_reset: "sb_step C s (sb_Reset s)"
| step_prune: "sb_step C s (snd (Prune now s))"
| step_start: "sb_step C s (sb_Start s)"
| step_stop: "sb_step C s (sb_Stop s)"
| step_rules: "\<forall>r \<in> set rs. rule_wf r \<Longrightarrow> sb_step C s (ReplaceRules rs s)"
| step_pool: "pool_wf p \<Longrightarrow> ReplacePool (Some p) s = Inr s' \<Longrightarrow> sb_step C s s'"
| step_reload: "cfg_inv C cfg \<Longrightarrow> sb_step C s (Reload cfg s)"
| step_load: "LoadSnapshot dec path m s = Inr s' \<Longrightarrow> entries_inv C (sb_entries s') \<Longrightarrow> sb_step C s s'"

inductive_cases sb_stepE: "sb_step C s s'"

definition sb_init :: "rat \<Rightarrow> scoreboard \<Rightarrow> bool" where
  "sb_init C s \<longleftrightarrow>
     (\<exists>p cfg rules m h. sb_New (Some p) cfg rules m h = Inr s \<and> pool_wf p \<and> cfg_inv C cfg \<and>
        representable C \<and> (\<forall>r \<in> set rules. rule_wf r))"

lemma sb_inv_Load [inv_intros]:
  "sb_inv C s \<Longrightarrow> LoadSnapshot dec path m s = Inr s' \<Longrightarrow> entries_inv C (sb_entries s') \<Longrightarrow> sb_inv C s'"
  by (auto simp: LoadSnapshot_def applySnapshot_def sb_inv_parts split: if_splits option.splits sum.splits)

lemma sb_step_inv: "sb_step C s s' \<Longrightarrow> sb_inv C s \<Longrightarrow> sb_inv C s'"
  by (induction rule: sb_step.induct) (erule inv_intros sb_inv_emit [THEN iffD2] | assumption)+

interpretation sb: invariant_system "sb_init C" "sb_step C" "sb_inv C" for C
  by unfold_locales (auto simp: sb_init_def intro: sb_inv_New sb_step_inv)

text \<open>
  C15: in every state the program can reach, whatever operations ran in whatever order, every score
  is a finite number within the largest cap ever configured, every pin names an upstream of the live
  pool, no host has an empty table, and the cached pool view is the installed, non-empty, sorted pool.
\<close>

theorem reachable_scoreboard:
  assumes "sb_init C s0" and "(sb_step C)\<^sup>*\<^sup>* s0 s"
  shows "(\<forall>host uid e. entry_at (sb_entries s) host uid = Some e \<longrightarrow>
            (\<exists>v. en_score e = Fin v \<and> - C \<le> v \<and> v \<le> C)) \<and>
         (\<forall>host f. fmlookup (sb_forces s) host = Some f \<longrightarrow> fo_upstream_id f \<in> set (PoolIDs s)) \<and>
         no_empty_host (sb_entries s) \<and>
         sb_pool_entries s = Entries (sb_pool s) \<and> sb_pool_entries s \<noteq> [] \<and>
         sorted (map pe_priority (sb_pool_entries s))"
proof -
  have "sb_inv C s" using sb.steps_inv [OF assms(2)] assms(1) sb.init_inv by blast
  then show ?thesis
    by (auto simp: sb_inv_parts entries_inv_def score_in_cases pool_wf_def Entries_def) blast
qed

text \<open>
  When an upstream leaves the pool, its pins leave with it, and no pin of a surviving upstream is
  lost; scores, cooldowns and cascades survive the swap.
\<close>

theorem ReplacePool_pins:
  assumes "ReplacePool (Some p) s = Inr s'"
  shows "(\<forall>host. fmlookup (sb_forces s') host =
            (case fmlookup (sb_forces s) host of
               Some f \<Rightarrow> if fo_upstream_id f \<in> set (IDs p) then Some f else None
             | None \<Rightarrow> None)) \<and>
         PoolIDs s' = IDs p \<and> sb_entries s' = sb_entries s \<and> sb_cascade s' = sb_cascade s"
  using assms
  by (auto simp: ReplacePool_def IDs_def PoolIDs_def Entries_def Let_def split: option.splits)

text \<open>
  \<open>Reload\<close> swaps every tuning knob except the decay interval, on which the running goroutine
  depends, and keeps learned state, even scores that the new cap would not allow.
\<close>

theorem Reload_keeps_decay:
  shows "sc_decay_interval (sb_cfg (Reload cfg s)) = sc_decay_interval (sb_cfg s) \<and>
         sb_cfg (Reload cfg s) = cfg\<lparr>sc_decay_interval := sc_decay_interval (sb_cfg s)\<rparr> \<and>
         sb_entries (Reload cfg s) = sb_entries s \<and> sb_decaying (Reload cfg s) = sb_decaying s"
  by (simp add: Reload_def)

end
