(* ===== verification/Demo.thy ===== *)
theory Demo
  imports Steps
begin

text \<open>
  A concrete scoreboard on which the properties are exercised: two upstreams, one of them cooling for
  one host, one pinned host, one host in cascade, the default scoring without probing.
\<close>

definition demo_upstream :: "string \<Rightarrow> upstream" where
  "demo_upstream uid = \<lparr>up_id = uid, up_kind = ''direct'', up_addr = [], up_auth_value = [],
     up_socks_auth = None, up_timeout = 8000000000\<rparr>"

definition demo_pool :: pool where
  "demo_pool = \<lparr>pl_entries = [\<lparr>pe_up = demo_upstream ''a'', pe_priority = 1\<rparr>,
                              \<lparr>pe_up = demo_upstream ''b'', pe_priority = 2\<rparr>],
                pl_retry_cap = 5\<rparr>"

definition demo_cfg :: sb_config where
  "demo_cfg = (FromConfig ScoringDefaults DefaultStatusRules True)\<lparr>sc_probe_chance := Fin 0\<rparr>"

definition demo_entries :: entries where
  "demo_entries = fmap_of_list
     [(''h'', fmap_of_list
        [(''a'', \<lparr>en_score = Fin (-3), en_cooldown_until = 100, en_last_seen = 70, en_success = 0, en_failure = 1\<rparr>),
         (''b'', \<lparr>en_score = Fin 1, en_cooldown_until = 0, en_last_seen = 80, en_success = 1, en_failure = 0\<rparr>)])]"

definition demo_sb :: scoreboard where
  "demo_sb =
     \<lparr>sb_pool = demo_pool, sb_pool_entries = Entries demo_pool, sb_pool_retry_cap = RetryCap demo_pool,
      sb_pool_len = pool_Len demo_pool, sb_cfg = demo_cfg, sb_rules = [],
      sb_entries = demo_entries, sb_cascade = fmap_of_list [(''c'', 500)],
      sb_forces = fmap_of_list [(''p'', \<lparr>fo_upstream_id = ''b'', fo_until = 900\<rparr>)],
      sb_debounce = fmempty, sb_decaying = None, sb_metrics = None, sb_failure_hook = Some []\<rparr>"

definition demo_draws :: draws where
  "demo_draws = \<lparr>dw_float = Fin (1/2), dw_int = 7\<rparr>"

lemma demo_pool_wf: "pool_wf demo_pool"
  by (simp add: pool_wf_def demo_pool_def)

lemma representable_10: "representable 10"
  by (simp add: f64_eval)

lemma demo_cfg_inv: "cfg_inv 10 demo_cfg"
proof -
  have "cfg_inv 10 (FromConfig ScoringDefaults DefaultStatusRules True)"
    by (rule cfg_inv_FromConfig [where c = 10])
      (rule wf_ScoringDefaults representable_10 | simp add: ScoringDefaults_def DefaultStatusRules_def)+
  then show ?thesis by (simp add: demo_cfg_def cfg_inv_def policy_of_def)
qed

lemma demo_entry_at:
  "entry_at demo_entries host uid = Some e \<Longrightarrow> en_score e \<in> {Fin (-3), Fin 1}"
  by (auto simp: demo_entries_def entry_at_def fmlookup_of_list split: option.splits if_splits)

lemma demo_no_empty: "no_empty_host demo_entries"
  by (auto simp: no_empty_host_def demo_entries_def fmlookup_of_list fmempty_of_list [symmetric]
      split: if_splits)

lemma demo_inv: "sb_inv 10 demo_sb"
proof -
  have "score_in 10 (Fin (-3))" "score_in 10 (Fin 1)"
    by (simp_all add: score_in_def f64_eval)
  then have "entries_inv 10 demo_entries"
    using demo_no_empty demo_entry_at by (fastforce simp: entries_inv_def)
  then show ?thesis
    using demo_pool_wf demo_cfg_inv representable_10
    by (simp add: sb_inv_parts demo_sb_def fmlookup_of_list demo_pool_def Entries_def demo_upstream_def)
qed

lemma demo_rules: "\<forall>r \<in> set (sb_rules demo_sb). rule_wf r"
  by (simp add: demo_sb_def)


subsection \<open>Evaluation\<close>

lemma demo_fields [simp]:
  "sb_pool demo_sb = demo_pool" "sb_pool_entries demo_sb = pl_entries demo_pool"
  "sb_pool_retry_cap demo_sb = 5" "sb_pool_len demo_sb = 2" "sb_cfg demo_sb = demo_cfg"
  "sb_rules demo_sb = []" "sb_entries demo_sb = demo_entries"
  "sb_metrics demo_sb = None" "sb_failure_hook demo_sb = Some []" "sb_debounce demo_sb = fmempty"
  "fmlookup (sb_cascade demo_sb) host = (if host = ''c'' then Some 500 else None)"
  "fmlookup (sb_forces demo_sb) host =
     (if host = ''p'' then Some \<lparr>fo_upstream_id = ''b'', fo_until = 900\<rparr> else None)"
  by (simp_all add: demo_sb_def Entries_def demo_pool_def RetryCap_def pool_Len_def)

lemma demo_pool_fields [simp]:
  "pl_entries demo_pool = [\<lparr>pe_up = demo_upstream ''a'', pe_priority = 1\<rparr>,
                           \<lparr>pe_up = demo_upstream ''b'', pe_priority = 2\<rparr>]"
  "up_id (demo_upstream uid) = uid" "pl_retry_cap demo_pool = 5"
  by (simp_all add: demo_pool_def demo_upstream_def)

lemma demo_entries_at [simp]:
  "entry_at demo_entries host uid =
     (if host = ''h'' \<and> uid = ''a'' then
        Some \<lparr>en_score = Fin (-3), en_cooldown_until = 100, en_last_seen = 70, en_success = 0, en_failure = 1\<rparr>
      else if host = ''h'' \<and> uid = ''b'' then
        Some \<lparr>en_score = Fin 1, en_cooldown_until = 0, en_last_seen = 80, en_success = 1, en_failure = 0\<rparr>
      else None)"
  by (simp add: demo_entries_def entry_at_def fmlookup_of_list)

lemma demo_cfg_fields [simp]:
  "sc_probe_chance demo_cfg = Fin 0" "sc_score_cap demo_cfg = Fin 10" "sc_success_weight demo_cfg = Fin 1"
  "sc_decay_step demo_cfg = Fin (1/2)" "sc_debounce_window demo_cfg = 100000000"
  "sc_cascade_ttl demo_cfg = 30000000000" "sc_connection_refused demo_cfg"
  by (simp_all add: demo_cfg_def FromConfig_def ScoringDefaults_def time_defs)

lemmas pick_eval = Pick_unfold cascadeActive_def pin_for_def pick_pool_def rank_of_def rules_Match_def
  slice_sort_def new_entry_def time_defs unpinned_def pickForced_def

lemma demo_pick_h: "fst (Pick 10 demo_draws ''h'' [] demo_sb) = Inr (demo_upstream ''b'')"
  by (simp add: pick_eval)

lemma demo_pick_h_again: "fst (Pick 10 demo_draws ''h'' [''b''] demo_sb) = Inr (demo_upstream ''a'')"
  by (simp add: pick_eval)

lemma demo_hosts: "hostOnly ''h:80'' = ''h''" "hostOnly ''x:80'' = ''x''"
  by code_simp+

text \<open>A network in which only \<open>b\<close> answers.\<close>

definition demo_env :: "nat \<Rightarrow> string attempt_env" where
  "demo_env i =
     \<lparr>ae_others = (\<lambda>s. s), ae_ctx_before = None, ae_pick_now = 10, ae_draws = demo_draws,
      ae_dial = (\<lambda>u. if up_id u = ''b'' then Inr ''conn'' else Inl (ErrLeaf ECONNREFUSED None)),
      ae_during = (\<lambda>s. s), ae_latency = 5, ae_ctx_after = None, ae_done_now = 20\<rparr>"

lemma demo_alone: "alone demo_env"
  by (simp add: alone_def demo_env_def)

lemma demo_dial_h:
  "fst (DialFor demo_env 10 30 ''h:80'' demo_sb) = Connected ''conn'' ''b''"
  "fst (snd (DialFor demo_env 10 30 ''h:80'' demo_sb)) = [''b'']"
proof -
  obtain s1 where "Pick 10 demo_draws ''h'' [] demo_sb = (Inr (demo_upstream ''b''), s1)"
    using demo_pick_h by (metis prod.collapse)
  then show "fst (DialFor demo_env 10 30 ''h:80'' demo_sb) = Connected ''conn'' ''b''"
    "fst (snd (DialFor demo_env 10 30 ''h:80'' demo_sb)) = [''b'']"
    by (simp_all add: DialFor_def demo_hosts cascadeActive_def dial_limit_def eval_nat_numeral
        demo_env_def Let_def)
qed

end
