(* ===== verification/Samples.thy ===== *)
theory Samples
  imports Demo HealDriver
begin

text \<open>
  The properties of configuration, failure detection, upstreams, rules and heal drivers at concrete
  inputs.
\<close>

lemma Prune_exact_witness:
  "entry_at (sb_entries (snd (Prune 150 demo_sb))) ''h'' ''b'' =
     Some \<lparr>en_score = Fin 1, en_cooldown_until = 0, en_last_seen = 80, en_success = 1, en_failure = 0\<rparr> \<and>
   cascadeActive (snd (Prune 150 demo_sb)) ''c'' 200"
  using Prune_exact [of 150 demo_sb "''h''" "''b''"] by (simp add: cascadeActive_def after_def)

subsection \<open>Configuration\<close>

definition direct_upstream :: "string \<Rightarrow> upstream_config" where
  "direct_upstream uid = \<lparr>uc_id = uid, uc_kind = KindDirect, uc_addr = [], uc_priority = None,
     uc_username = [], uc_password = []\<rparr>"

lemma wf_direct_upstream: "uid \<noteq> [] \<Longrightarrow> wf_upstream (direct_upstream uid)"
  by (simp add: wf_upstream_def direct_upstream_def)

definition sample_config :: config where
  "sample_config =
     \<lparr>cf_listener = \<lparr>lc_http = [], lc_socks = []\<rparr>, cf_cache = \<lparr>cc_ttl = 0, cc_negative_ttl = 0, cc_persist_path = [], cc_persist_interval = 0\<rparr>,
      cf_metrics_bind = [], cf_ui_bind = [],
      cf_control = \<lparr>ct_bind = [], ct_auth_tokens = [], ct_auth_tokens_file = [], ct_gate_healthz = False,
        ct_tls_cert_file = [], ct_tls_key_file = []\<rparr>,
      cf_upstreams = [direct_upstream ''a''], cf_upstream_pools = [],
      cf_failure = \<lparr>fc_connection_refused = True, fc_timeout_ms = 0, fc_body_regex = [],
        fc_body_buffer_kb = 0, fc_max_retries_per_request = 0, fc_status = [], fc_scoring = ScoringDefaults\<rparr>,
      cf_rules = [], cf_unknown_keys = []\<rparr>"

lemma applyDefaults_minimal_valid_witness:
  "Validate None (\<lambda>_. None) (applyDefaults (\<lambda>_. False) sample_config) = []"
  by (rule applyDefaults_minimal_valid)
    (simp_all add: sample_config_def direct_upstream_def wf_upstream_def)

subsection \<open>Failure detection\<close>

lemma ParseRetryAfter_sound_witness: "ParseRetryAfter (\<lambda>_. None) ''120'' 5 = Some (120 * second)"
proof -
  have t: "trim_space ''120'' = ''120''" and p: "parse_int ''120'' = Some 120" by code_simp+
  then obtain d where d: "ParseRetryAfter (\<lambda>_. None) ''120'' 5 = Some d"
    by (simp add: ParseRetryAfter_def maxRetryAfterSeconds_def second_def max_int64_def)
  from ParseRetryAfter_sound [OF d] p t d show ?thesis by simp
qed

definition blocked_body :: body where
  "blocked_body = \<lparr>bd_chunks = [''not available'', '' in your region''], bd_end = None, bd_closed = False\<rparr>"

definition region_pattern :: "string \<times> (string \<Rightarrow> bool)" where
  "region_pattern = (''region'', (\<lambda>s. length s = 20))"

lemma BufferAndDecide_transparent_witness:
  "\<exists>d. BufferAndDecide (Some blocked_body) [] 20 [Some region_pattern] = Inr d \<and> bi_matched d \<and>
     replay_content (bi_replay d) = ''not available in your region''"
proof -
  have p: "isPlainEncoding []" by code_simp
  then obtain d where d: "BufferAndDecide (Some blocked_body) [] 20 [Some region_pattern] = Inr d"
    by (simp add: BufferAndDecide_def blocked_body_def region_pattern_def Let_def)
  have "\<not> bd_closed blocked_body" by (simp add: blocked_body_def)
  from BufferAndDecide_transparent [OF d this] p d show ?thesis
    by (simp add: blocked_body_def body_content_def region_pattern_def)
qed

subsection \<open>Upstreams and rules\<close>

definition proxy_upstream :: upstream where
  "proxy_upstream = \<lparr>up_id = ''px'', up_kind = KindHTTP, up_addr = ''p:1'', up_auth_value = [],
     up_socks_auth = None, up_timeout = 5\<rparr>"

definition answer :: "int \<Rightarrow> connect_env" where
  "answer status = \<lparr>ce_dial = None, ce_deadline = None, ce_now = 1, ce_write = None,
     ce_response = Inr status, ce_buffered = False\<rparr>"

lemma http_Dial_no_leak_witness:
  "last (snd (http_Dial proxy_upstream ''tcp'' ''h:443'' (answer 502))) = CloseConn"
proof -
  obtain res tr where d: "http_Dial proxy_upstream ''tcp'' ''h:443'' (answer 502) = (res, tr)"
    by (cases "http_Dial proxy_upstream ''tcp'' ''h:443'' (answer 502)")
  then have "DialTCP (up_addr proxy_upstream) \<in> set tr" "isl res"
    by (auto simp: http_Dial_def answer_def Let_def)
  from http_Dial_no_leak [OF d this(1)] this(2) d show ?thesis by (simp add: answer_def)
qed

lemma http_Dial_407_witness:
  "ClassifyDialError (case fst (http_Dial proxy_upstream ''tcp'' ''h:443'' (answer 407)) of
     Inl e \<Rightarrow> Some e | Inr _ \<Rightarrow> None) = KindProxyAuth"
  using http_Dial_407 [of "''tcp''" "answer 407" 407 proxy_upstream "''h:443''"]
  by (simp add: answer_def)

definition two_entries :: "(upstream option \<times> int) list" where
  "two_entries = [(Some (demo_upstream ''b''), 2), (Some (demo_upstream ''a''), 1)]"

lemma two_entries_pool: "\<exists>p. NewPool two_entries 1 = Inr p"
  by (simp add: NewPool_def two_entries_def)

lemma NewPool_sorts_witness: "\<exists>p. NewPool two_entries 1 = Inr p \<and> mset (IDs p) = {#''b'', ''a''#}"
proof -
  obtain p where p: "NewPool two_entries 1 = Inr p" using two_entries_pool by blast
  from NewPool_sorts [OF p] p show ?thesis by (simp add: two_entries_def add_mset_commute)
qed

definition only_b :: "nat \<Rightarrow> upstream \<Rightarrow> goerr + unit" where
  "only_b n u = (if up_id u = ''b'' then Inr () else Inl (errorf ''no''))"

lemma pool_DialFor_in_order_witness:
  "map dg_id (snd (pool_DialFor (\<lambda>_. None) only_b demo_pool ''h:80'')) = [''a'', ''b'']"
proof -
  obtain r logs where d: "pool_DialFor (\<lambda>_. None) only_b demo_pool ''h:80'' = (r, logs)"
    by (cases "pool_DialFor (\<lambda>_. None) only_b demo_pool ''h:80''")
  then have "length logs = 2" by (auto simp: pool_DialFor_def Let_def only_b_def numeral_2_eq_2)
  with pool_DialFor_in_order [OF d] d show ?thesis by (simp add: IDs_def)
qed

lemma rules_first_match_witness:
  "\<exists>rs. NewRuleSet (\<lambda>_. None) [\<lparr>rc_host_glob = ''h'', rc_prefer = [''a''], rc_force = True, rc_body_regex = []\<rparr>] =
     Inr rs \<and> rules_Match rs ''H'' = Some (hd rs)"
proof -
  let ?c = "\<lparr>rc_host_glob = ''h'', rc_prefer = [''a''], rc_force = True, rc_body_regex = []\<rparr>"
  have "parse_glob ''h'' \<noteq> None" by code_simp
  then have "wf_rule (\<lambda>_. None) None ?c" by (simp add: wf_rule_def)
  then obtain r where r: "compile_rule (\<lambda>_. None) ?c = Inr r"
    using wf_rule_compiles by (metis sum.collapse(2))
  then have rs: "NewRuleSet (\<lambda>_. None) [?c] = Inr [r]" by (simp add: NewRuleSet_def)
  have "to_lower ''h'' = ''h''" by code_simp
  then have g: "ru_glob r = ''h''" using compile_rule_fields(1) [OF r] by simp
  have "path_match ''h'' (to_lower ''H'') = Some True" by code_simp
  with g have m: "path_match (ru_glob r) (to_lower ''H'') = Some True" by simp
  have "[r] = [] @ r # []" by simp
  then have "rules_Match [r] ''H'' = Some r"
    using rules_first_match [OF rs, of "''H''" r] m by (metis empty_iff list.set(1))
  with rs show ?thesis by simp
qed

subsection \<open>Heal drivers\<close>

lemma heal_routing_witness:
  "hd_events (snd (Observe 7 ''h'' (''ws'' @ ''-'' @ ''1'') KindProxyAuth (newAuthHealDriver ''ws''))) = [7]"
proof -
  let ?blocks = "[(''mv'', False), (''ws'', True)]"
  have "validateNoPoolPrefixCollision [''fixed''] (buildAuthHealDrivers ?blocks) (map fst ?blocks) = None"
    by (simp add: buildAuthHealDrivers_def newAuthHealDriver_def no_collision_iff static_collision_None
        pool_collision_None)
  moreover have "newAuthHealDriver ''ws'' \<in> set (buildAuthHealDrivers ?blocks)"
    by (simp add: buildAuthHealDrivers_def)
  ultimately have "Observe 7 ''h'' (''ws'' @ ''-'' @ ''1'') KindProxyAuth (newAuthHealDriver ''ws'') =
      bump 7 (newAuthHealDriver ''ws'')"
    using heal_routing [of "[''fixed'']" ?blocks "newAuthHealDriver ''ws''" 7 "''h''" KindProxyAuth]
    by (simp add: newAuthHealDriver_def)
  then show ?thesis
    by (simp add: bump_def trim_events_def newAuthHealDriver_def authHealThreshold_def Let_def)
qed

lemma heal_after_wiring_witness:
  "fst (bump 12 (setComposer True (snd (bump 11 (snd (bump 10 (newAuthHealDriver ''ws'')))))))"
  using heal_after_wiring [of "newAuthHealDriver ''ws''" 10 11 12]
  by (simp add: newAuthHealDriver_def authHealWindow_def second_def Let_def)

lemma heal_run_sound_witness:
  "\<exists>s0 s. heal_init s0 \<and> heal_step\<^sup>*\<^sup>* s0 s \<and> hs_log s = [Seen 9] \<and> hs_running s \<le> 1"
proof -
  let ?s0 = "\<lparr>hs_driver = newAuthHealDriver ''ws'', hs_running = 0, hs_log = []\<rparr>"
  have i: "heal_init ?s0" by (auto simp: heal_init_def)
  obtain d' where "bump 9 (newAuthHealDriver ''ws'') = (False, d')"
    by (auto simp: bump_def trim_events_def newAuthHealDriver_def authHealThreshold_def Let_def)
  then have "heal_step ?s0 (?s0\<lparr>hs_driver := d', hs_log := [Seen 9]\<rparr>)"
    using heal_event [of ?s0 "''ws-1''" KindProxyAuth 9 d']
    by (simp add: heal_matches_def newAuthHealDriver_def)
  then have st: "heal_step\<^sup>*\<^sup>* ?s0 (?s0\<lparr>hs_driver := d', hs_log := [Seen 9]\<rparr>)"
    by (rule r_into_rtranclp)
  from heal_run_sound [OF i st] i st show ?thesis
    by (intro exI [of _ ?s0] exI [of _ "?s0\<lparr>hs_driver := d', hs_log := [Seen 9]\<rparr>"]) simp
qed

end
