(* ===== verification/Client.thy ===== *)
theory Client
  imports Control HttpListener
begin

text \<open>
  The client library, \<open>client/client.go\<close>: construction, the round trip that captures the upstream and reports
  HTTPS rejections, explicit reports, and the bounded set of report goroutines. \<open>url.Parse\<close>, the base transport,
  \<open>json.Marshal\<close> and the network are parameters; a nil pointer is None. Logging keeps the drop and failure lines.
\<close>

subsection \<open>Data\<close>

record sdk_options =
  so_ProxyURL :: string
  so_ControlURL :: string
  so_KeepAlive :: bool
  so_Timeout :: duration
  so_Logger :: bool
  so_Token :: string

record url =
  ul_scheme :: string
  ul_host :: string
  ul_path :: string
  ul_raw_query :: string
  ul_fragment :: string

record report_payload =
  rp_host :: string
  rp_upstream :: string
  rp_outcome :: string
  rp_http_status :: "int option"

datatype client_log = DroppedReport report_payload | ReportFailed report_payload goerr

text \<open>
  \<open>reportingTransport\<close>, with the reports whose goroutines hold a slot and the lines its logger got.
\<close>

record reporting_transport =
  rt_proxy :: url
  rt_disable_keep_alives :: bool
  rt_control_url :: string
  rt_timeout :: duration
  rt_token :: string
  rt_logger :: "client_log list option"
  rt_slots :: "report_payload list"

definition autoReportSlots :: nat where "autoReportSlots = 64"

text \<open>\<open>upstreamBox\<close>: the slot of one request. What it copies from the transport never changes.\<close>

record upstream_box =
  bx_upstream :: string
  bx_control_url :: string
  bx_timeout :: duration
  bx_token :: string

record app_request =
  aq_url :: "url option"
  aq_host :: string

text \<open>A response, with the request it answers and the box on that request's context.\<close>

record app_response =
  ap_status :: int
  ap_header :: header
  ap_request :: "(app_request \<times> upstream_box option) option"

subsection \<open>Construction\<close>

datatype base_url_error = ParseFailed goerr | BadScheme string | NoHost | BadPath string | HasQuery
datatype new_error =
    ProxyURLRequired
  | ControlURLRequired
  | ProxyURLError base_url_error
  | ControlURLError base_url_error
  | TokenHasSpace

definition check_base_url :: "(string \<Rightarrow> goerr + url) \<Rightarrow> string \<Rightarrow> base_url_error + url" where
  "check_base_url parse raw =
     (case parse raw of
        Inl e \<Rightarrow> Inl (ParseFailed e)
      | Inr u \<Rightarrow>
          if ul_scheme u \<noteq> ''http'' \<and> ul_scheme u \<noteq> ''https'' then Inl (BadScheme (ul_scheme u))
          else if ul_host u = [] then Inl NoHost
          else if ul_path u \<noteq> [] \<and> ul_path u \<noteq> ''/'' then Inl (BadPath (ul_path u))
          else if ul_raw_query u \<noteq> [] \<or> ul_fragment u \<noteq> [] then Inl HasQuery
          else Inr u)"

definition report_timeout :: "duration \<Rightarrow> duration" where
  "report_timeout t = (if t < 0 then 0 else if t = 0 then 2 * second else t)"

definition client_New :: "(string \<Rightarrow> goerr + url) \<Rightarrow> sdk_options \<Rightarrow> new_error + reporting_transport" where
  "client_New parse opts =
     (if so_ProxyURL opts = [] then Inl ProxyURLRequired
      else if so_ControlURL opts = [] then Inl ControlURLRequired
      else (case check_base_url parse (so_ProxyURL opts) of
        Inl e \<Rightarrow> Inl (ProxyURLError e)
      | Inr pu \<Rightarrow>
          (case check_base_url parse (so_ControlURL opts) of
             Inl e \<Rightarrow> Inl (ControlURLError e)
           | Inr cu \<Rightarrow>
               if so_Token opts \<noteq> [] \<and> contains_any (so_Token opts) token_space then Inl TokenHasSpace
               else
                 Inr \<lparr>rt_proxy = pu, rt_disable_keep_alives = (\<not> so_KeepAlive opts),
                      rt_control_url = trim_right (\<lambda>c. c = CHR ''/'') (so_ControlURL opts),
                      rt_timeout = report_timeout (so_Timeout opts), rt_token = so_Token opts,
                      rt_logger = (if so_Logger opts then Some [] else None), rt_slots = []\<rparr>)))"

subsection \<open>Hosts of reports\<close>

text \<open>\<open>URL.Port\<close>: the digits after the last colon, when only digits follow it.\<close>

definition url_port :: "string \<Rightarrow> string" where
  "url_port hp =
     (let port = rev (takeWhile (\<lambda>c. c \<noteq> CHR '':'') (rev hp))
      in if CHR '':'' \<in> set hp \<and> valid_optional_port (CHR '':'' # port) then port else [])"

definition normalizeHostForScheme :: "string \<Rightarrow> string \<Rightarrow> string \<Rightarrow> string" where
  "normalizeHostForScheme host port scheme =
     (let s = to_lower scheme in
      if s = ''https'' then join_host_port host (if port = [] then ''443'' else port)
      else if s = ''http'' then host
      else if port = [] then host
      else join_host_port host port)"

definition splitHostAndPort :: "string \<Rightarrow> string \<times> string" where
  "splitHostAndPort raw =
     (case split_host_port raw of
        Inr hp \<Rightarrow> hp
      | Inl _ \<Rightarrow> (url_hostname raw, url_port raw))"

definition hostForReport :: "app_request option \<Rightarrow> string" where
  "hostForReport req =
     (case req of
        None \<Rightarrow> []
      | Some r \<Rightarrow>
          (case aq_url r of
             Some u \<Rightarrow>
               if ul_host u \<noteq> [] then
                 normalizeHostForScheme (url_hostname (ul_host u)) (url_port (ul_host u)) (ul_scheme u)
               else if aq_host r \<noteq> [] then
                 (let (h, p) = splitHostAndPort (aq_host r) in normalizeHostForScheme h p (ul_scheme u))
               else []
           | None \<Rightarrow>
               if aq_host r \<noteq> [] then
                 (let (h, p) = splitHostAndPort (aq_host r) in normalizeHostForScheme h p [])
               else []))"

subsection \<open>Outcomes that report themselves\<close>

definition autoOutcomeForStatus :: "int \<Rightarrow> string" where
  "autoOutcomeForStatus status =
     (if status = 429 then ''rate_limited''
      else if status = 403 then ''forbidden''
      else if status = 451 then ''legal_block''
      else [])"

definition autoOutcomeFor :: "app_request option \<Rightarrow> int \<Rightarrow> string" where
  "autoOutcomeFor req status =
     (case req of
        None \<Rightarrow> []
      | Some r \<Rightarrow>
          (case aq_url r of
             None \<Rightarrow> []
           | Some u \<Rightarrow> if \<not> equal_fold (ul_scheme u) ''https'' then [] else autoOutcomeForStatus status))"

subsection \<open>Posting a report\<close>

record http_post =
  hp_url :: string
  hp_timeout :: duration   \<comment> \<open>0 for none\<close>
  hp_header :: header
  hp_body :: string

text \<open>
  The reporter client. \<open>net\<close> is its transport: an error, or a status and the \<open>Location\<close>. Every redirect
  with a location is refused by \<open>CheckRedirect\<close>.
\<close>

definition is_redirect :: "int \<Rightarrow> bool" where
  "is_redirect status \<longleftrightarrow> status \<in> {301, 302, 303, 307, 308}"

definition reporter_Do :: "(http_post \<Rightarrow> goerr + int \<times> string) \<Rightarrow> http_post \<Rightarrow> goerr + int" where
  "reporter_Do net p =
     (case net p of
        Inl e \<Rightarrow> Inl e
      | Inr (status, location) \<Rightarrow>
          if is_redirect status \<and> location \<noteq> [] then
            Inl (errorf (''client: control endpoint redirected to '' @ location))
          else Inr status)"

definition report_request_of :: "upstream_box \<Rightarrow> string \<Rightarrow> http_post" where
  "report_request_of b payload =
     (let h = header_set fmempty ''Content-Type'' ''application/json''
      in \<lparr>hp_url = bx_control_url b @ ''/v1/report'',
          hp_timeout = (if 0 < bx_timeout b then bx_timeout b else 0),
          hp_header = (if bx_token b \<noteq> [] then header_set h ''Authorization'' (''Bearer '' @ bx_token b) else h),
          hp_body = payload\<rparr>)"

text \<open>\<open>marshal\<close> is \<open>json.Marshal\<close>, \<open>build\<close> the error of \<open>http.NewRequestWithContext\<close>. The request that went out, and the error.\<close>

definition postReportSync ::
    "(report_payload \<Rightarrow> goerr + string) \<Rightarrow> (string \<Rightarrow> goerr option) \<Rightarrow> (http_post \<Rightarrow> goerr + int \<times> string) \<Rightarrow>
     upstream_box \<Rightarrow> report_payload \<Rightarrow> http_post option \<times> goerr option" where
  "postReportSync marshal build net b r =
     (case marshal r of
        Inl e \<Rightarrow> (None, Some (errorf_w ''marshal report'' e))
      | Inr payload \<Rightarrow>
          (case build (bx_control_url b @ ''/v1/report'') of
             Some e \<Rightarrow> (None, Some (errorf_w ''build report request'' e))
           | None \<Rightarrow>
               (let p = report_request_of b payload in
                (Some p,
                 case reporter_Do net p of
                   Inl e \<Rightarrow> Some (errorf_w ''post report'' e)
                 | Inr status \<Rightarrow>
                     if 400 \<le> status then Some (errorf ''control endpoint returned an error status'') else None))))"

text \<open>\<open>postReport\<close>: take a slot or drop the report, never wait.\<close>

definition log_client :: "client_log \<Rightarrow> reporting_transport \<Rightarrow> reporting_transport" where
  "log_client l rt = rt\<lparr>rt_logger := map_option (\<lambda>ls. ls @ [l]) (rt_logger rt)\<rparr>"

definition postReport :: "report_payload \<Rightarrow> reporting_transport \<Rightarrow> reporting_transport" where
  "postReport r rt =
     (if length (rt_slots rt) < autoReportSlots then rt\<lparr>rt_slots := rt_slots rt @ [r]\<rparr>
      else log_client (DroppedReport r) rt)"

text \<open>The end of a report goroutine: its error is logged and its slot is given back.\<close>

definition report_done :: "report_payload \<Rightarrow> goerr option \<Rightarrow> reporting_transport \<Rightarrow> reporting_transport" where
  "report_done r err rt =
     (let rt' = (case err of None \<Rightarrow> rt | Some e \<Rightarrow> log_client (ReportFailed r e) rt)
      in rt'\<lparr>rt_slots := remove1 r (rt_slots rt')\<rparr>)"

subsection \<open>The round trip\<close>

definition newBox :: "reporting_transport \<Rightarrow> upstream_box" where
  "newBox rt =
     \<lparr>bx_upstream = [], bx_control_url = rt_control_url rt, bx_timeout = rt_timeout rt, bx_token = rt_token rt\<rparr>"

text \<open>Both places that store into the box: the header of a response, unless it is empty.\<close>

definition store_upstream :: "header \<Rightarrow> upstream_box \<Rightarrow> upstream_box" where
  "store_upstream h b =
     (let up = header_get h ''X-Tunnelsmith-Upstream'' in if up \<noteq> [] then b\<lparr>bx_upstream := up\<rparr> else b)"

definition OnProxyConnectResponse :: "header \<Rightarrow> upstream_box option \<Rightarrow> upstream_box option" where
  "OnProxyConnectResponse h b = map_option (store_upstream h) b"

text \<open>
  The base transport answers with the header of the CONNECT response, if this request made one, and with its
  response (status and header, None for nil) and error.
\<close>

record base_result =
  br_connect :: "header option"
  br_response :: "(int \<times> header) option"
  br_error :: "goerr option"

definition RoundTrip ::
    "(app_request \<Rightarrow> base_result) \<Rightarrow> app_request \<Rightarrow> reporting_transport \<Rightarrow>
     (app_response option \<times> goerr option) \<times> reporting_transport" where
  "RoundTrip base req rt =
     (let res = base req;
          b = (case br_connect res of
                 None \<Rightarrow> newBox rt
               | Some h \<Rightarrow> the (OnProxyConnectResponse h (Some (newBox rt))))
      in case br_response res of
           None \<Rightarrow> ((None, br_error res), rt)
         | Some (status, hdr) \<Rightarrow>
             (let b' = store_upstream hdr b;
                  resp = \<lparr>ap_status = status, ap_header = hdr, ap_request = Some (req, Some b')\<rparr>;
                  outcome = autoOutcomeFor (Some req) status;
                  rt' = (if outcome \<noteq> [] \<and> bx_upstream b' \<noteq> [] then
                           postReport \<lparr>rp_host = hostForReport (Some req), rp_upstream = bx_upstream b',
                             rp_outcome = outcome, rp_http_status = Some status\<rparr> rt
                         else rt)
              in ((Some resp, br_error res), rt')))"

datatype report_error = ErrNoUpstream | PostError goerr

text \<open>\<open>Report\<close>: the request it sends, if any, and its error.\<close>

definition Report ::
    "(report_payload \<Rightarrow> goerr + string) \<Rightarrow> (string \<Rightarrow> goerr option) \<Rightarrow> (http_post \<Rightarrow> goerr + int \<times> string) \<Rightarrow>
     app_response option \<Rightarrow> string \<Rightarrow> http_post option \<times> report_error option" where
  "Report marshal build net resp outcome =
     (case resp of
        Some r \<Rightarrow>
          (case ap_request r of
             Some (req, Some b) \<Rightarrow>
               if bx_upstream b = [] then (None, Some ErrNoUpstream)
               else (let (sent, err) = postReportSync marshal build net b
                           \<lparr>rp_host = hostForReport (Some req), rp_upstream = bx_upstream b,
                            rp_outcome = outcome, rp_http_status = Some (ap_status r)\<rparr>
                     in (sent, map_option PostError err))
           | _ \<Rightarrow> (None, Some ErrNoUpstream))
      | None \<Rightarrow> (None, Some ErrNoUpstream))"

end
