(* ===== verification/Reporting.thy ===== *)
theory Reporting
  imports Client
begin

text \<open>
  Correctness of the client library and of the reporting path end to end: which hosts, tokens and upstreams the
  reports carry, how many are out at once, and what a report does to the scoreboard behind the control endpoint.
\<close>

subsection \<open>Construction\<close>

lemma check_base_url_iff:
  "check_base_url parse raw = Inr u \<longleftrightarrow>
     parse raw = Inr u \<and> ul_scheme u \<in> {''http'', ''https''} \<and> ul_host u \<noteq> [] \<and> ul_path u \<in> {[], ''/''} \<and>
     ul_raw_query u = [] \<and> ul_fragment u = []"
  by (auto simp: check_base_url_def split: sum.splits)

lemma client_New_cases:
  assumes "client_New parse opts = Inr rt"
  shows "\<exists>pu cu. check_base_url parse (so_ProxyURL opts) = Inr pu \<and> check_base_url parse (so_ControlURL opts) = Inr cu \<and>
           rt_proxy rt = pu"
    and "rt_control_url rt = trim_right (\<lambda>c. c = CHR ''/'') (so_ControlURL opts)"
    and "rt_token rt = so_Token opts" and "rt_token rt = [] \<or> token_ok (rt_token rt)"
    and "0 \<le> rt_timeout rt" and "rt_slots rt = []"
  using assms
  by (auto simp: client_New_def report_timeout_def time_defs token_ok_iff contains_token_space
      split: if_splits sum.splits)

text \<open>
  A control URL that ends in a bare question mark has an empty query and passes; what is appended to
  it is then a query, and no report reaches its path.
\<close>

lemma bare_query_accepted:
  assumes "parse ''http://p'' = Inr \<lparr>ul_scheme = ''http'', ul_host = ''p'', ul_path = [], ul_raw_query = [], ul_fragment = []\<rparr>"
    and "parse ''http://c?'' = Inr \<lparr>ul_scheme = ''http'', ul_host = ''c'', ul_path = [], ul_raw_query = [], ul_fragment = []\<rparr>"
  shows "\<exists>rt. client_New parse \<lparr>so_ProxyURL = ''http://p'', so_ControlURL = ''http://c?'', so_KeepAlive = False,
           so_Timeout = 0, so_Logger = False, so_Token = []\<rparr> = Inr rt \<and>
         hp_url (report_request_of (newBox rt) body) = ''http://c?/v1/report''"
  using assms
  by (simp add: client_New_def check_base_url_def report_request_of_def newBox_def trim_right_def)

subsection \<open>What a report says\<close>

text \<open>The authority part of a URL for a host and an optional port.\<close>

definition url_authority :: "string \<Rightarrow> string \<Rightarrow> string" where
  "url_authority h p =
     (if p \<noteq> [] then join_host_port h p
      else if CHR '':'' \<in> set h then ''['' @ h @ '']'' else h)"

lemma digits_plain: "list_all is_digit p \<Longrightarrow> plain_port p"
  using is_digit_not_special unfolding plain_port_def list_all_iff by blast

lemma last_colon:
  assumes "CHR '':'' \<notin> set p"
  shows "takeWhile (\<lambda>c. c \<noteq> CHR '':'') (rev (s @ CHR '':'' # p)) = rev p"
  using takeWhile_append_stop [of "rev p" "\<lambda>c. c \<noteq> CHR '':''" "CHR '':''" "rev s"] assms by fastforce

lemma strip_port_colon:
  assumes "list_all is_digit p"
  shows "strip_port (s @ CHR '':'' # p) = s" and "url_port (s @ CHR '':'' # p) = p"
proof -
  have c: "CHR '':'' \<notin> set p" using digits_plain [OF assms] by (simp add: plain_port_def)
  note t = last_colon [OF c, of s]
  show "strip_port (s @ CHR '':'' # p) = s"
    unfolding strip_port_def Let_def t using assms by (simp add: valid_optional_port_def)
  show "url_port (s @ CHR '':'' # p) = p"
    unfolding url_port_def Let_def t using assms by (simp add: valid_optional_port_def)
qed

lemma strip_port_none:
  assumes "CHR '':'' \<notin> set s \<or> last s = CHR '']''"
  shows "strip_port s = s \<and> url_port s = []"
proof (cases "CHR '':'' \<in> set s")
  case True
  then have "s \<noteq> []" "last s = CHR '']''" using assms by auto
  then have r: "rev s = CHR '']'' # rev (butlast s)" by (cases s rule: rev_cases) auto
  have "\<not> is_digit (CHR '']'')" using is_digit_not_special by blast
  then have "\<not> list_all is_digit (rev (takeWhile (\<lambda>c. c \<noteq> CHR '':'') (rev s)))"
    unfolding r by simp
  then show ?thesis
    by (simp add: strip_port_def url_port_def Let_def valid_optional_port_def)
qed (simp add: strip_port_def url_port_def)

lemma url_authority_parts:
  assumes "plain_host h" and "list_all is_digit p"
  shows "url_hostname (url_authority h p) = h" and "url_port (url_authority h p) = p"
proof -
  let ?b = "''['' @ h @ '']''"
  have b: "has_prefix ?b ''[''" "has_suffix ?b '']''" by (simp_all add: has_suffix_def)
  have np: "\<not> has_prefix h ''[''" using assms(1) by (cases h) (auto simp: plain_host_def)
  have parts: "strip_port (url_authority h p) = (if CHR '':'' \<in> set h then ?b else h) \<and> url_port (url_authority h p) = p"
  proof (cases "p = []")
    case True
    then show ?thesis
      using strip_port_none [of ?b] strip_port_none [of h] by (simp add: url_authority_def)
  next
    case False
    then show ?thesis
      using strip_port_colon [OF assms(2), of ?b] strip_port_colon [OF assms(2), of h]
      by (simp add: url_authority_def join_host_port_def)
  qed
  then show "url_port (url_authority h p) = p" by blast
  show "url_hostname (url_authority h p) = h"
    using parts b np by (simp add: url_hostname_def Let_def)
qed

subsection \<open>Reports and traffic share their key\<close>

text \<open>
  What the code relies on of \<open>net.ParseIP\<close> and \<open>IP.String\<close>: an address with a colon has two of them, and no
  address is written with brackets.
\<close>

definition ip_laws :: "ip_parser \<Rightarrow> bool" where
  "ip_laws parse_ip \<longleftrightarrow>
     (\<forall>x y. parse_ip x = Some y \<longrightarrow>
        (CHR '':'' \<in> set x \<longrightarrow> 2 \<le> count_list x (CHR '':'')) \<and>
        (CHR '':'' \<in> set y \<longrightarrow> 2 \<le> count_list y (CHR '':'')) \<and> plain_host y)"

lemma split_two_colons:
  assumes "plain_host h" and "2 \<le> count_list h (CHR '':'')"
  shows "split_host_port h = Inl TooManyColons"
proof -
  have "CHR '':'' \<in> set h" using assms(2) by (metis count_list_0_iff not_numeral_le_zero)
  then obtain s p where h: "h = s @ CHR '':'' # p" "CHR '':'' \<notin> set p" by (meson split_list_last)
  then have "CHR '':'' \<in> set s" using assms(2) by (auto simp: count_list_0_iff intro: ccontr)
  moreover have "dropWhile (\<lambda>c. c \<noteq> CHR '':'') (rev p @ CHR '':'' # rev s) = CHR '':'' # rev s"
    using h(2) by (intro dropWhile_append_stop) auto
  moreover have "hd h \<noteq> CHR ''[''" using assms(1) h(1) by (cases s) (auto simp: plain_host_def)
  ultimately show ?thesis using h(1) by (simp add: split_host_port_def Let_def)
qed

lemma normalized_part:
  assumes "ip_laws parse_ip" and "plain_host h" and "normalizeReportHostPart parse_ip h = Inr n"
  shows "plain_host n" and "CHR '':'' \<in> set n \<Longrightarrow> 2 \<le> count_list n (CHR '':'')"
    and "CHR '':'' \<in> set h \<Longrightarrow> 2 \<le> count_list h (CHR '':'') \<and> parse_ip h \<noteq> None"
proof -
  have br: "strip_brackets h = h"
    using assms(2) by (cases h) (auto simp: strip_brackets_def plain_host_def)
  have "plain_host n \<and> (CHR '':'' \<in> set n \<longrightarrow> 2 \<le> count_list n (CHR '':'')) \<and>
      (CHR '':'' \<in> set h \<longrightarrow> 2 \<le> count_list h (CHR '':'') \<and> parse_ip h \<noteq> None)"
  proof (cases "parse_ip h")
    case None
    then have n: "n = to_lower h" "\<forall>c \<in> set n. host_char c"
      using normalized_hostname [OF assms(3)] br by simp_all
    then have "plain_host n" "CHR '':'' \<notin> set n" using hostname_plain by blast+
    moreover have "CHR '':'' \<notin> set h"
    proof
      assume "CHR '':'' \<in> set h"
      then have "lower_char (CHR '':'') \<in> set n" using n(1) by (simp add: to_lower_def)
      then show False using calculation(2) by (simp add: lower_char_def is_upper_def)
    qed
    ultimately show ?thesis by blast
  next
    case (Some ip)
    then have "n = ip" using assms(3) br by (simp add: normalizeReportHostPart_def split: if_splits)
    then show ?thesis using assms(1) Some unfolding ip_laws_def by blast
  qed
  then show "plain_host n" "CHR '':'' \<in> set n \<Longrightarrow> 2 \<le> count_list n (CHR '':'')"
    "CHR '':'' \<in> set h \<Longrightarrow> 2 \<le> count_list h (CHR '':'') \<and> parse_ip h \<noteq> None" by blast+
qed

lemma plain_no_colon_split:
  assumes "plain_host h" and "CHR '':'' \<in> set h \<Longrightarrow> 2 \<le> count_list h (CHR '':'')"
  shows "\<exists>e. split_host_port h = Inl e"
  using assms split_two_colons split_host_port_no_colon by blast

text \<open>The characters a host may not have on its way into a report.\<close>

definition host_text :: "string \<Rightarrow> bool" where
  "host_text h \<longleftrightarrow> h \<noteq> [] \<and> plain_host h \<and> (\<forall>c \<in> set h. \<not> is_space c \<and> c \<notin> set ''/?#'')"

lemma normalize_with_port:
  assumes "ip_laws parse_ip" and "host_text h" and "normalizeReportHostPart parse_ip h = Inr n"
    and "list_all is_digit p" and "validateReportPort p"
  shows "normalizeReportHost parse_ip (join_host_port h p) = Inr (join_host_port n p)"
    and "scoreboardHostKey (join_host_port n p) = n"
proof -
  have dig: "\<not> is_space c \<and> c \<notin> set ''/?#''" if "is_digit c" for c
    using that by (auto simp: is_digit_def digit_val_def is_space_def)
  have sp: "\<not> is_space (CHR '':'')" "\<not> is_space (CHR ''['')" "\<not> is_space (CHR '']'')"
    by (simp_all add: is_space_def)
  have all: "\<forall>c \<in> set (join_host_port h p). \<not> is_space c \<and> c \<notin> set ''/?#''"
    using assms(2,4) dig sp by (auto simp: join_host_port_def host_text_def list_all_iff)
  have "plain_port p" by (rule digits_plain [OF assms(4)])
  moreover have "join_host_port h p \<noteq> []" by (simp add: join_host_port_def)
  moreover have "trim_space (join_host_port h p) = join_host_port h p"
    using all by (intro trim_space_none) (auto simp: list_ex_iff)
  ultimately show "normalizeReportHost parse_ip (join_host_port h p) = Inr (join_host_port n p)"
    using assms(2,3,5) all split_join_host_port [of h p]
    by (auto simp: normalizeReportHost_def Let_def host_text_def contains_any_def list_ex_iff)
  show "scoreboardHostKey (join_host_port n p) = n"
    using split_join_host_port [OF normalized_part(1) [OF assms(1) _ assms(3)] \<open>plain_port p\<close>] assms(2)
    by (simp add: scoreboardHostKey_def host_text_def)
qed

lemma normalize_bare:
  assumes "ip_laws parse_ip" and "host_text h" and "normalizeReportHostPart parse_ip h = Inr n"
  shows "normalizeReportHost parse_ip h = Inr n" and "scoreboardHostKey n = n"
proof -
  have h: "plain_host h" "h \<noteq> []" using assms(2) by (simp_all add: host_text_def)
  note n = normalized_part [OF assms(1) h(1) assms(3)]
  obtain e where e: "split_host_port h = Inl e" using plain_no_colon_split [OF h(1)] n(3) by blast
  have "\<not> has_prefix h ''[''" using h by (cases h) (auto simp: plain_host_def)
  moreover have "\<not> has_prefix (rev h) (rev '']'')"
    using h(1) by (auto simp: has_prefix_iff plain_host_def rev_swap)
  ultimately have t: "trim_suffix (trim_prefix h ''['') '']'' = h"
    by (simp add: trim_prefix_def trim_suffix_def)
  have "trim_space h = h" using assms(2) by (intro trim_space_none) (auto simp: host_text_def list_ex_iff)
  moreover have "\<not> contains_any h ''/?#''" using assms(2) by (auto simp: host_text_def contains_any_def list_ex_iff)
  ultimately show "normalizeReportHost parse_ip h = Inr n"
    using h(2) e t n(3) assms(3) by (auto simp: normalizeReportHost_def Let_def)
  show "scoreboardHostKey n = n"
    using plain_no_colon_split [OF n(1)] n(2) by (auto simp: scoreboardHostKey_def)
qed

text \<open>A URL of one of the two schemes, for a host and an optional port.\<close>

definition requests_url :: "app_request \<Rightarrow> string \<Rightarrow> string \<Rightarrow> bool" where
  "requests_url r h p =
     (case aq_url r of
        None \<Rightarrow> False
      | Some u \<Rightarrow> ul_host u = url_authority h p \<and> to_lower (ul_scheme u) \<in> {''http'', ''https''} \<and>
          list_all is_digit p \<and> (p = [] \<or> validateReportPort p))"

lemma report_host_key:
  assumes "ip_laws parse_ip" and "host_text h" and "normalizeReportHostPart parse_ip h = Inr n"
    and "requests_url r h p"
  obtains m where "normalizeReportHost parse_ip (hostForReport (Some r)) = Inr m" and "scoreboardHostKey m = n"
proof -
  let ?p = "if p = [] then ''443'' else p"
  from assms(4) obtain u where u: "aq_url r = Some u" "ul_host u = url_authority h p"
      "to_lower (ul_scheme u) \<in> {''http'', ''https''}" and d: "list_all is_digit p" "p = [] \<or> validateReportPort p"
    by (auto simp: requests_url_def split: option.splits)
  have h: "plain_host h" "h \<noteq> []" using assms(2) by (simp_all add: host_text_def)
  have "list_all is_digit ''443''" "validateReportPort ''443''" by code_simp+
  then have p: "list_all is_digit ?p" "validateReportPort ?p" using d by auto
  have "ul_host u \<noteq> []" using u(2) h(2) by (auto simp: url_authority_def join_host_port_def)
  then have host: "hostForReport (Some r) = normalizeHostForScheme h p (ul_scheme u)"
    using u url_authority_parts [OF h(1) d(1)] by (simp add: hostForReport_def)
  show thesis
  proof (cases "to_lower (ul_scheme u) = ''https''")
    case True
    then show thesis
      using that normalize_with_port [OF assms(1-3) p] host by (simp add: normalizeHostForScheme_def)
  next
    case False
    then show thesis
      using that normalize_bare [OF assms(1-3)] host u(3) by (simp add: normalizeHostForScheme_def)
  qed
qed


subsection \<open>The round trip\<close>

text \<open>The upstream a request is attributed to: the header of its response, or else that of its CONNECT.\<close>

definition attributed :: "base_result \<Rightarrow> header \<Rightarrow> string" where
  "attributed res hdr =
     (let own = header_get hdr ''X-Tunnelsmith-Upstream'' in
      if own \<noteq> [] then own
      else case br_connect res of None \<Rightarrow> [] | Some h \<Rightarrow> header_get h ''X-Tunnelsmith-Upstream'')"

definition auto_report :: "app_request \<Rightarrow> int \<Rightarrow> string \<Rightarrow> report_payload option" where
  "auto_report req status uid =
     (if autoOutcomeFor (Some req) status \<noteq> [] \<and> uid \<noteq> [] then
        Some \<lparr>rp_host = hostForReport (Some req), rp_upstream = uid,
              rp_outcome = autoOutcomeFor (Some req) status, rp_http_status = Some status\<rparr>
      else None)"

lemma store_upstream_simps [simp]:
  "bx_upstream (store_upstream h b) =
     (if header_get h ''X-Tunnelsmith-Upstream'' \<noteq> [] then header_get h ''X-Tunnelsmith-Upstream'' else bx_upstream b)"
  "bx_control_url (store_upstream h b) = bx_control_url b"
  "bx_timeout (store_upstream h b) = bx_timeout b"
  "bx_token (store_upstream h b) = bx_token b"
  by (simp_all add: store_upstream_def Let_def)

lemma newBox_simps [simp]:
  "bx_upstream (newBox rt) = []" "bx_control_url (newBox rt) = rt_control_url rt"
  "bx_timeout (newBox rt) = rt_timeout rt" "bx_token (newBox rt) = rt_token rt"
  by (simp_all add: newBox_def)

lemma RoundTrip_none: "br_response (base req) = None \<Longrightarrow> RoundTrip base req rt = ((None, br_error (base req)), rt)"
  by (simp add: RoundTrip_def Let_def)

lemma RoundTrip_some:
  assumes "br_response (base req) = Some (status, hdr)"
  obtains b where "RoundTrip base req rt =
      ((Some \<lparr>ap_status = status, ap_header = hdr, ap_request = Some (req, Some b)\<rparr>, br_error (base req)),
       case auto_report req status (bx_upstream b) of None \<Rightarrow> rt | Some r \<Rightarrow> postReport r rt)"
    and "bx_upstream b = attributed (base req) hdr"
    and "bx_control_url b = rt_control_url rt" and "bx_token b = rt_token rt" and "bx_timeout b = rt_timeout rt"
proof
  let ?b = "store_upstream hdr (case br_connect (base req) of None \<Rightarrow> newBox rt
      | Some h \<Rightarrow> the (OnProxyConnectResponse h (Some (newBox rt))))"
  show "RoundTrip base req rt =
      ((Some \<lparr>ap_status = status, ap_header = hdr, ap_request = Some (req, Some ?b)\<rparr>, br_error (base req)),
       case auto_report req status (bx_upstream ?b) of None \<Rightarrow> rt | Some r \<Rightarrow> postReport r rt)"
    using assms by (simp add: RoundTrip_def auto_report_def Let_def)
  show "bx_upstream ?b = attributed (base req) hdr"
    by (auto simp: attributed_def OnProxyConnectResponse_def split: option.splits)
qed (simp_all add: OnProxyConnectResponse_def split: option.splits)

text \<open>An automatic outcome names the kind that the proxy's own detector gives the status.\<close>

lemma auto_outcome_kind: "outcomeMap (autoOutcomeForStatus st) = statusKinds st"
  by (simp add: autoOutcomeForStatus_def outcomeMap_def statusKinds_def)

text \<open>
  The application gets the status, header and error of the transport whatever becomes of the reports;
  the response is attributed to the upstream named in its own header or else in the CONNECT answer, so that
  over HTTPS, where the proxy cannot touch the response, a destination that sends the header chooses whom
  its rejections are reported against; and a report is queued exactly for an HTTPS answer 429, 403 or 451
  with an upstream, with the kind the proxy itself gives that status.
\<close>

theorem RoundTrip_exact:
  "(case br_response (base req) of
      None \<Rightarrow> RoundTrip base req rt = ((None, br_error (base req)), rt)
    | Some (status, hdr) \<Rightarrow>
        (\<exists>b. fst (RoundTrip base req rt) =
            (Some \<lparr>ap_status = status, ap_header = hdr, ap_request = Some (req, Some b)\<rparr>, br_error (base req)) \<and>
          bx_upstream b =
            (if header_get hdr ''X-Tunnelsmith-Upstream'' \<noteq> [] then header_get hdr ''X-Tunnelsmith-Upstream''
             else case br_connect (base req) of None \<Rightarrow> [] | Some h \<Rightarrow> header_get h ''X-Tunnelsmith-Upstream'') \<and>
          snd (RoundTrip base req rt) =
            (if (\<exists>u. aq_url req = Some u \<and> to_lower (ul_scheme u) = ''https'') \<and> statusKinds status \<noteq> None \<and> bx_upstream b \<noteq> []
             then postReport \<lparr>rp_host = hostForReport (Some req), rp_upstream = bx_upstream b,
                    rp_outcome = autoOutcomeForStatus status, rp_http_status = Some status\<rparr> rt
             else rt) \<and>
          outcomeMap (autoOutcomeForStatus status) = statusKinds status))"
proof -
  have kinds: "autoOutcomeForStatus st = [] \<longleftrightarrow> statusKinds st = None" for st
    by (simp add: autoOutcomeForStatus_def statusKinds_def)
  have low: "to_lower ''https'' = ''https''" by code_simp
  have auto: "autoOutcomeFor (Some req) st =
      (if \<exists>u. aq_url req = Some u \<and> to_lower (ul_scheme u) = ''https'' then autoOutcomeForStatus st else [])" for st
    by (auto simp: autoOutcomeFor_def equal_fold_def low split: option.splits)
  show ?thesis
  proof (cases "br_response (base req)")
    case None
    then show ?thesis by (simp add: RoundTrip_none)
  next
    case (Some sh)
    obtain st hdr where sh: "sh = (st, hdr)" by fastforce
    obtain b where b: "RoundTrip base req rt =
        ((Some \<lparr>ap_status = st, ap_header = hdr, ap_request = Some (req, Some b)\<rparr>, br_error (base req)),
         case auto_report req st (bx_upstream b) of None \<Rightarrow> rt | Some r \<Rightarrow> postReport r rt)"
      and up: "bx_upstream b = attributed (base req) hdr"
      using RoundTrip_some [of base req st hdr rt] Some sh by metis
    have "bx_upstream b = (if header_get hdr ''X-Tunnelsmith-Upstream'' \<noteq> [] then header_get hdr ''X-Tunnelsmith-Upstream''
        else case br_connect (base req) of None \<Rightarrow> [] | Some h \<Rightarrow> header_get h ''X-Tunnelsmith-Upstream'')"
      using up by (simp add: attributed_def Let_def)
    moreover have "snd (RoundTrip base req rt) =
        (if (\<exists>u. aq_url req = Some u \<and> to_lower (ul_scheme u) = ''https'') \<and> statusKinds st \<noteq> None \<and> bx_upstream b \<noteq> []
         then postReport \<lparr>rp_host = hostForReport (Some req), rp_upstream = bx_upstream b,
                rp_outcome = autoOutcomeForStatus st, rp_http_status = Some st\<rparr> rt
         else rt)"
      using b kinds auto [of st]
      by (cases "\<exists>u. aq_url req = Some u \<and> to_lower (ul_scheme u) = ''https''") (auto simp: auto_report_def)
    ultimately show ?thesis using Some sh b auto_outcome_kind by auto
  qed
qed

subsection \<open>The reports that are out\<close>

datatype sdk_event = Queued report_payload | Dropped report_payload | Finished report_payload "goerr option"

definition requested_report :: "(app_request \<Rightarrow> base_result) \<Rightarrow> app_request \<Rightarrow> report_payload option" where
  "requested_report base req =
     (case br_response (base req) of
        None \<Rightarrow> None
      | Some (status, hdr) \<Rightarrow> auto_report req status (attributed (base req) hdr))"

definition request_events ::
    "(app_request \<Rightarrow> base_result) \<Rightarrow> app_request \<Rightarrow> reporting_transport \<Rightarrow> sdk_event list" where
  "request_events base req rt =
     (case requested_report base req of
        None \<Rightarrow> []
      | Some r \<Rightarrow> [if length (rt_slots rt) < autoReportSlots then Queued r else Dropped r])"

lemma RoundTrip_state:
  "snd (RoundTrip base req rt) = (case requested_report base req of None \<Rightarrow> rt | Some r \<Rightarrow> postReport r rt)"
proof (cases "br_response (base req)")
  case None
  then show ?thesis by (simp add: RoundTrip_none requested_report_def)
next
  case (Some sh)
  obtain st hdr where sh: "sh = (st, hdr)" by fastforce
  from RoundTrip_some [of base req st hdr rt] Some sh show ?thesis
    by (simp add: requested_report_def) (metis snd_conv)
qed

text \<open>Requests and the ends of report goroutines, in any order.\<close>

inductive sdk_run :: "reporting_transport \<Rightarrow> sdk_event list \<Rightarrow> reporting_transport \<Rightarrow> bool"
  for rt0 :: reporting_transport where
    start: "sdk_run rt0 [] rt0"
  | request: "sdk_run rt0 es rt \<Longrightarrow> sdk_run rt0 (es @ request_events base req rt) (snd (RoundTrip base req rt))"
  | finish: "sdk_run rt0 es rt \<Longrightarrow> r \<in> set (rt_slots rt) \<Longrightarrow> sdk_run rt0 (es @ [Finished r err]) (report_done r err rt)"

fun queued_of :: "sdk_event \<Rightarrow> report_payload multiset" where
  "queued_of (Queued r) = {#r#}" | "queued_of _ = {#}"

fun finished_of :: "sdk_event \<Rightarrow> report_payload multiset" where
  "finished_of (Finished r _) = {#r#}" | "finished_of _ = {#}"

fun logged_of :: "sdk_event \<Rightarrow> client_log list" where
  "logged_of (Dropped r) = [DroppedReport r]"
| "logged_of (Finished r (Some e)) = [ReportFailed r e]"
| "logged_of _ = []"

definition queued :: "sdk_event list \<Rightarrow> report_payload multiset" where
  "queued es = sum_list (map queued_of es)"

definition finished :: "sdk_event list \<Rightarrow> report_payload multiset" where
  "finished es = sum_list (map finished_of es)"

definition logged :: "sdk_event list \<Rightarrow> client_log list" where
  "logged es = concat (map logged_of es)"

lemma event_counts [simp]:
  "queued [] = {#}" "finished [] = {#}" "logged [] = []"
  "queued (es @ fs) = queued es + queued fs" "finished (es @ fs) = finished es + finished fs"
  "logged (es @ fs) = logged es @ logged fs"
  "queued [e] = queued_of e" "finished [e] = finished_of e" "logged [e] = logged_of e"
  by (simp_all add: queued_def finished_def logged_def)

text \<open>A report is dropped only when as many as there are slots are queued and not finished.\<close>

definition drops_justified :: "sdk_event list \<Rightarrow> bool" where
  "drops_justified es \<longleftrightarrow>
     (\<forall>i < length es. \<forall>r. es ! i = Dropped r \<longrightarrow>
        size (queued (take i es)) = size (finished (take i es)) + autoReportSlots)"

lemma drops_justified_snoc:
  "drops_justified (es @ [e]) \<longleftrightarrow>
     drops_justified es \<and> (\<forall>r. e = Dropped r \<longrightarrow> size (queued es) = size (finished es) + autoReportSlots)"
  by (auto simp: drops_justified_def nth_append less_Suc_eq)

lemma drops_justified_nil [simp]: "drops_justified []"
  by (simp add: drops_justified_def)

definition sdk_accounts :: "reporting_transport \<Rightarrow> sdk_event list \<Rightarrow> reporting_transport \<Rightarrow> bool" where
  "sdk_accounts rt0 es rt \<longleftrightarrow>
     length (rt_slots rt) \<le> autoReportSlots \<and> queued es = mset (rt_slots rt) + finished es \<and>
     drops_justified es \<and> rt_logger rt = map_option (\<lambda>ls. ls @ logged es) (rt_logger rt0) \<and>
     rt_control_url rt = rt_control_url rt0 \<and> rt_token rt = rt_token rt0 \<and> rt_timeout rt = rt_timeout rt0"

lemma log_client_simps [simp]:
  "rt_slots (log_client l rt) = rt_slots rt" "rt_control_url (log_client l rt) = rt_control_url rt"
  "rt_token (log_client l rt) = rt_token rt" "rt_timeout (log_client l rt) = rt_timeout rt"
  "rt_logger (log_client l rt) = map_option (\<lambda>ls. ls @ [l]) (rt_logger rt)"
  by (simp_all add: log_client_def)

lemma accounts_post:
  assumes "sdk_accounts rt0 es rt"
  shows "sdk_accounts rt0 (es @ [if length (rt_slots rt) < autoReportSlots then Queued r else Dropped r]) (postReport r rt)"
proof -
  have "size (queued es) = length (rt_slots rt) + size (finished es)" using assms by (simp add: sdk_accounts_def)
  then show ?thesis
    using assms by (auto simp: sdk_accounts_def postReport_def drops_justified_snoc option.map_comp comp_def)
qed

lemma accounts_done:
  assumes "sdk_accounts rt0 es rt" and "r \<in> set (rt_slots rt)"
  shows "sdk_accounts rt0 (es @ [Finished r err]) (report_done r err rt)"
  using assms length_remove1 [of r "rt_slots rt"]
  by (auto simp: sdk_accounts_def report_done_def Let_def drops_justified_snoc option.map_comp comp_def
      split: option.splits if_splits)

lemma sdk_run_accounts:
  assumes "sdk_run rt0 es rt" and "rt_slots rt0 = []"
  shows "sdk_accounts rt0 es rt"
  using assms
proof (induction rule: sdk_run.induct)
  case start
  then show ?case by (simp add: sdk_accounts_def option.map_ident)
next
  case (request es rt base req)
  then show ?case
    using accounts_post [of rt0 es rt] by (auto simp: RoundTrip_state request_events_def split: option.splits)
next
  case (finish es rt r err)
  then show ?case using accounts_done by blast
qed

text \<open>
  C31: along every run of a client built by \<open>New\<close>, at most 64 reports are out; every report that was queued is
  still out or finished; one is dropped only at a moment when 64 are out; and the logger gets one line for every drop
  and every failure, in order, and no other.
\<close>

theorem reports_accounted:
  assumes "client_New parse opts = Inr rt0" and "sdk_run rt0 es rt"
  shows "length (rt_slots rt) \<le> 64 \<and> queued es = mset (rt_slots rt) + finished es \<and>
         (\<forall>i r. i < length es \<and> es ! i = Dropped r \<longrightarrow>
            size (queued (take i es)) = size (finished (take i es)) + 64) \<and>
         rt_logger rt = (if so_Logger opts then Some (logged es) else None)"
proof -
  have "sdk_accounts rt0 es rt" by (rule sdk_run_accounts [OF assms(2) client_New_cases(6) [OF assms(1)]])
  moreover have "rt_logger rt0 = (if so_Logger opts then Some [] else None)"
    using assms(1) by (auto simp: client_New_def split: if_splits sum.splits)
  ultimately show ?thesis by (auto simp: sdk_accounts_def drops_justified_def autoReportSlots_def)
qed

subsection \<open>A report, end to end\<close>

text \<open>What the control endpoint receives when it serves the URL a report is posted to.\<close>

definition arrives :: "http_post \<Rightarrow> body \<Rightarrow> control_request \<Rightarrow> bool" where
  "arrives q b cq \<longleftrightarrow>
     cq_method cq = ''POST'' \<and> cq_header cq = hp_header q \<and> cq_body cq = b \<and>
     bd_end b = None \<and> concat (bd_chunks b) = hp_body q"

text \<open>What the two JSON codecs promise each other on a report.\<close>

definition codec_ok :: "(report_payload \<Rightarrow> goerr + string) \<Rightarrow> report_decoder \<Rightarrow> report_payload \<Rightarrow> bool" where
  "codec_ok marshal decode r \<longleftrightarrow>
     (case marshal r of
        Inl _ \<Rightarrow> False
      | Inr payload \<Rightarrow>
          int (length payload) \<le> maxReportBytes \<and>
          (case decode payload of
             Inl _ \<Rightarrow> False
           | Inr (q, eof) \<Rightarrow> eof \<and> rr_host q = rp_host r \<and> rr_upstream q = rp_upstream r \<and> rr_outcome q = rp_outcome r))"

definition admits :: "token_set option \<Rightarrow> string \<Rightarrow> bool" where
  "admits tokens t \<longleftrightarrow>
     (case tokens of None \<Rightarrow> True | Some ts \<Rightarrow> tokens_Snapshot ts = [] \<or> t \<in> set (tokens_Snapshot ts) \<and> t \<noteq> [])"

lemma report_header_auth:
  assumes "bx_token b = [] \<or> token_ok (bx_token b)"
  shows "auth_gate (hp_header (report_request_of b payload)) tokens = None \<longleftrightarrow> admits tokens (bx_token b)"
proof (cases tokens)
  case None
  then show ?thesis by (simp add: auth_gate_def admits_def)
next
  case (Some ts)
  let ?h = "hp_header (report_request_of b payload)"
  have c: "canonical_key ''Authorization'' \<noteq> canonical_key ''Content-Type''" by code_simp
  show ?thesis
  proof (cases "bx_token b = []")
    case True
    then have "header_values ?h ''Authorization'' = []"
      using c by (simp add: report_request_of_def Let_def) (simp add: header_values_def)
    then have "extractBearer ?h = ([], authMissing)" by (simp add: extractBearer_def)
    then show ?thesis
      using Some True by (simp add: auth_gate_def admits_def checkAuth_def snap_Enabled_def Let_def)
  next
    case False
    then have "header_values ?h ''Authorization'' = [''Bearer '' @ bx_token b]"
      by (simp add: report_request_of_def Let_def)
    then have "extractBearer ?h = (bx_token b, authPresent)"
      using False assms by (intro extractBearer_roundtrip) auto
    then show ?thesis
      using Some False by (simp add: auth_gate_def admits_def checkAuth_def snap_Enabled_def snap_Allow_iff Let_def)
  qed
qed

lemma read_limit_all:
  assumes "length (concat cs) < n" shows "\<exists>cs' k. read_limit n cs = (concat cs, cs', k)"
  using read_limit_take [of n cs] assms by (cases "read_limit n cs") auto

lemma report_body_small:
  assumes "bd_end (cq_body r) = None" and "int (length (concat (bd_chunks (cq_body r)))) \<le> maxReportBytes"
  shows "report_body r = Some (concat (bd_chunks (cq_body r)))"
proof -
  have "length (concat (bd_chunks (cq_body r))) < nat (maxReportBytes + 1)" using assms(2) by linarith
  from read_limit_all [OF this] show ?thesis using assms by (auto simp: report_body_def)
qed

lemma postReportSync_sends:
  assumes "marshal r = Inr payload" and "build (bx_control_url b @ ''/v1/report'') = None"
  shows "fst (postReportSync marshal build net b r) = Some (report_request_of b payload)"
    and "snd (postReportSync marshal build net b r) = None \<longleftrightarrow>
           (\<exists>status location. net (report_request_of b payload) = Inr (status, location) \<and> status < 400 \<and>
              \<not> (is_redirect status \<and> location \<noteq> []))"
  using assms by (auto simp: postReportSync_def reporter_Do_def Let_def split: sum.splits if_splits)

text \<open>What the endpoint makes of a well-formed report.\<close>

lemma report_accepted_posted:
  assumes "codec_ok marshal decode r" and "bx_token b = [] \<or> token_ok (bx_token b)"
    and "marshal r = Inr payload" and "arrives (report_request_of b payload) bd cq"
    and "normalizeReportHost parse_ip (rp_host r) = Inr m" and "resolveOutcome (rp_outcome r) = Some k"
    and "rp_host r \<noteq> []" and "rp_upstream r \<noteq> []" and "rp_outcome r \<noteq> []"
  shows "\<exists>q. rr_upstream q = rp_upstream r \<and> rr_outcome q = rp_outcome r \<and>
           report_accepted has decode parse_ip tokens cq =
             (if admits tokens (bx_token b) \<and> has (rp_upstream r) then Some (q, scoreboardHostKey m, k) else None)"
proof -
  from assms(1,3) obtain q where q: "decode payload = Inr (q, True)" "int (length payload) \<le> maxReportBytes"
      "rr_host q = rp_host r" "rr_upstream q = rp_upstream r" "rr_outcome q = rp_outcome r"
    by (auto simp: codec_ok_def split: sum.splits)
  have "concat (bd_chunks (cq_body cq)) = payload"
    using assms(4) by (auto simp: arrives_def report_request_of_def Let_def)
  then have "report_body cq = Some payload"
    using report_body_small [of cq] assms(4) q(2) by (auto simp: arrives_def)
  moreover have "auth_gate (cq_header cq) tokens = None \<longleftrightarrow> admits tokens (bx_token b)"
    using report_header_auth [OF assms(2)] assms(4) by (auto simp: arrives_def)
  moreover have "missingFields q = []" using q assms(7-9) by (simp add: missingFields_def)
  ultimately show ?thesis
    using assms(4-6) q by (intro exI [of _ q]) (auto simp: report_accepted_def arrives_def)
qed

lemma scoreboard_backend_simps [simp]:
  "be_HasUpstream scoreboard_backend = HasUpstream" "be_RecordSuccess scoreboard_backend = RecordSuccess"
  "be_RecordFailure scoreboard_backend = RecordFailure"
  by (simp_all add: scoreboard_backend_def)

lemma failure_report_effect:
  assumes "report_accepted (HasUpstream s) decode parse_ip tokens cq = (if A then Some (q, key, k) else None)"
    and "rr_outcome q \<noteq> outcomeOK"
  shows "if A then handleReport (Some scoreboard_backend) decode parse_ip tokens now cq s =
               (204, [ReportReceived (rr_outcome q) (rr_upstream q)], RecordFailure now key (rr_upstream q) k None s)
         else \<exists>status obs. handleReport (Some scoreboard_backend) decode parse_ip tokens now cq s = (status, obs, s) \<and> status \<noteq> 204"
  using handleReport_cases [where be = scoreboard_backend and s = s and decode = decode and parse_ip = parse_ip
      and tokens = tokens and r = cq and now = now] assms
  by (cases A) auto

lemma requested_report_facts:
  assumes "requested_report base req = Some r"
  obtains st hdr k where "br_response (base req) = Some (st, hdr)"
    and "rp_host r = hostForReport (Some req)" and "rp_outcome r \<noteq> []" and "rp_upstream r \<noteq> []"
    and "statusKinds st = Some k" and "outcomeMap (rp_outcome r) = Some k" and "rp_outcome r \<noteq> outcomeOK"
proof -
  from assms obtain st hdr where br: "br_response (base req) = Some (st, hdr)"
      and r: "auto_report req st (attributed (base req) hdr) = Some r"
    by (auto simp: requested_report_def split: option.splits)
  have rf: "rp_host r = hostForReport (Some req)" "rp_outcome r = autoOutcomeFor (Some req) st"
      "rp_outcome r \<noteq> []" "rp_upstream r \<noteq> []"
    using r by (auto simp: auto_report_def split: if_splits)
  then have "rp_outcome r = autoOutcomeForStatus st"
    by (auto simp: autoOutcomeFor_def split: option.splits if_splits)
  then obtain k where "statusKinds st = Some k" "outcomeMap (rp_outcome r) = Some k" "rp_outcome r \<noteq> outcomeOK"
    using rf(3) auto_outcome_kind [of st] by (auto simp: autoOutcomeForStatus_def statusKinds_def outcomeOK_def split: if_splits)
  with br rf that show thesis by blast
qed


end
