(* ===== verification/Forward.thy ===== *)
theory Forward
  imports HttpListener SbInvariant
begin

text \<open>
  Correctness of the plain-HTTP forward path: what the request that goes out and the response that comes
  back carry, how often and through whom a request is attempted, and what it does to the scoreboard.
\<close>

subsection \<open>Header stripping\<close>

lemma header_values_del_all:
  "header_values (fold (\<lambda>n h. header_del h n) ns h) k =
     (if canonical_key k \<in> canonical_key ` set ns then [] else header_values h k)"
  by (induction ns arbitrary: h) auto

definition connection_listed :: "header \<Rightarrow> string list" where
  "connection_listed h =
     filter (\<lambda>n. n \<noteq> []) (map trim_space (split_char (CHR '','') (header_get h ''Connection'')))"

definition hop_by_hop :: "header \<Rightarrow> string \<Rightarrow> bool" where
  "hop_by_hop h k \<longleftrightarrow> canonical_key k \<in> canonical_key ` (set hopHeaders \<union> set (connection_listed h))"

lemma connection_listed_empty: "header_get h ''Connection'' = [] \<Longrightarrow> connection_listed h = []"
  by (simp add: connection_listed_def trim_space_def trim_left_def trim_right_def)

lemma header_values_stripHop:
  "header_values (stripHopHeaders h) k = (if hop_by_hop h k then [] else header_values h k)"
proof (cases "header_get h ''Connection'' = []")
  case True
  then show ?thesis
    by (simp add: stripHopHeaders_def hop_by_hop_def header_values_del_all connection_listed_empty)
next
  case False
  then show ?thesis
    by (auto simp: stripHopHeaders_def hop_by_hop_def header_values_del_all connection_listed_def Let_def)
qed

lemma canonical_header_del: "canonical_header h \<Longrightarrow> canonical_header (header_del h k)"
  by (auto simp: canonical_header_def header_del_def)

lemma canonical_header_del_all:
  "canonical_header h \<Longrightarrow> canonical_header (fold (\<lambda>n h. header_del h n) ns h)"
  by (induction ns arbitrary: h) (auto simp: canonical_header_del)

lemma canonical_header_stripHop: "canonical_header h \<Longrightarrow> canonical_header (stripHopHeaders h)"
  by (simp add: stripHopHeaders_def Let_def canonical_header_del_all del: fold.simps)

definition own_namespace :: "string \<Rightarrow> bool" where
  "own_namespace k \<longleftrightarrow> has_prefix (canonical_key k) ''X-Tunnelsmith-''"

lemma header_values_stripTunnelsmith:
  assumes "canonical_header h"
  shows "header_values (stripTunnelsmithHeaders h) k = (if own_namespace k then [] else header_values h k)"
proof -
  let ?own = "\<lambda>k. has_prefix k ''X-Tunnelsmith-''"
  have f: "fold (\<lambda>k h. if ?own k then header_del h k else h) ks h =
      fold (\<lambda>n h. header_del h n) (filter ?own ks) h" for ks h
    by (induction ks arbitrary: h) auto
  have "canonical_key ` set (filter ?own (sorted_list_of_fset (fmdom h))) = {k \<in> fset (fmdom h). ?own k}"
    using assms by (auto simp: canonical_header_def sorted_list_of_fset.rep_eq image_iff)
  then have "header_values (stripTunnelsmithHeaders h) k =
      (if canonical_key k |\<in>| fmdom h \<and> ?own (canonical_key k) then [] else header_values h k)"
    unfolding stripTunnelsmithHeaders_def f header_values_del_all by simp
  moreover have "header_values h k = []" if "canonical_key k |\<notin>| fmdom h"
    using that by (simp add: header_values_def fmdom_notD)
  ultimately show ?thesis by (auto simp: own_namespace_def)
qed

lemma own_keys:
  "own_namespace ''X-Tunnelsmith-Upstream''" "own_namespace ''X-Tunnelsmith-Retries''"
  "canonical_key ''X-Tunnelsmith-Upstream'' = ''X-Tunnelsmith-Upstream''"
  "canonical_key ''X-Tunnelsmith-Retries'' = ''X-Tunnelsmith-Retries''"
  unfolding own_namespace_def by code_simp+

lemma canonical_header_stripTunnelsmith:
  assumes "canonical_header h" shows "canonical_header (stripTunnelsmithHeaders h)"
proof -
  have "canonical_header (fold (\<lambda>k h. if P k then header_del h k else h) ks h)"
    if "canonical_header h" for P ks h
    using that by (induction ks arbitrary: h) (auto simp: canonical_header_del)
  then show ?thesis using assms by (simp add: stripTunnelsmithHeaders_def)
qed

text \<open>What \<open>writeForwardSuccess\<close> sends.\<close>

lemma writeForwardSuccess_headers:
  assumes "canonical_header (rs_header resp)"
    and "writeForwardSuccess resp body uid retries = Streamed status hdr b"
  shows "status = rs_status resp \<and> b = body \<and>
         header_values hdr ''X-Tunnelsmith-Upstream'' = [uid] \<and>
         header_values hdr ''X-Tunnelsmith-Retries'' = [itoa (int retries)] \<and>
         (\<forall>k. canonical_key k \<notin> {''X-Tunnelsmith-Upstream'', ''X-Tunnelsmith-Retries''} \<longrightarrow>
            header_values hdr k =
              (if hop_by_hop (rs_header resp) k \<or> own_namespace k then [] else header_values (rs_header resp) k))"
proof -
  let ?h = "stripTunnelsmithHeaders (stripHopHeaders (rs_header resp))"
  have "canonical_header ?h"
    using assms(1) by (intro canonical_header_stripTunnelsmith canonical_header_stripHop)
  then have c: "header_values (copy_headers ?h fmempty) k = header_values ?h k" for k
    using header_values_copy_headers [of ?h fmempty k] by (simp add: header_values_def)
  have "header_values ?h k =
      (if hop_by_hop (rs_header resp) k \<or> own_namespace k then [] else header_values (rs_header resp) k)" for k
    using header_values_stripTunnelsmith [OF canonical_header_stripHop [OF assms(1)], of k]
    by (simp add: header_values_stripHop)
  then show ?thesis
    using assms(2) c by (auto simp: writeForwardSuccess_def Let_def own_keys)
qed

text \<open>
  The request sent to the destination carries the buffered body with its length, names the host it
  dials, and has no hop-by-hop or proxy header of the client; every other header goes out unchanged.
\<close>

theorem newOutReq_clean:
  "or_body (newOutReq r body) = body \<and> or_content_length (newOutReq r body) = int (length body) \<and>
   or_host (newOutReq r body) = rq_url_host r \<and> or_url_host (newOutReq r body) = rq_url_host r \<and>
   header_values (or_header (newOutReq r body)) k =
     (if hop_by_hop (rq_header r) k then [] else header_values (rq_header r) k)"
proof -
  have "hop_by_hop (rq_header r) k"
    if "canonical_key k \<in> canonical_key ` {''Proxy-Connection'', ''Proxy-Authenticate'', ''Proxy-Authorization''}"
    using that by (auto simp: hop_by_hop_def hopHeaders_def)
  then show ?thesis
    by (auto simp: newOutReq_def stripProxyHeaders_def header_values_stripHop)
qed

subsection \<open>The loop under interference\<close>

definition fair_forward :: "rat \<Rightarrow> (nat \<Rightarrow> forward_env) \<Rightarrow> bool" where
  "fair_forward C env \<longleftrightarrow>
     (\<forall>i w. sb_inv C (fst w) \<longrightarrow>
        sb_inv C (fst (fe_others (env i) w)) \<and> sb_inv C (fst (fe_between (env i) w)) \<and>
        sb_inv C (fst (fe_during (env i) w)))"

lemma fair_forwardD:
  "fair_forward C env \<Longrightarrow> sb_inv C (fst w) \<Longrightarrow> sb_inv C (fst (fe_others (env i) w))"
  "fair_forward C env \<Longrightarrow> sb_inv C (fst w) \<Longrightarrow> sb_inv C (fst (fe_between (env i) w))"
  "fair_forward C env \<Longrightarrow> sb_inv C (fst w) \<Longrightarrow> sb_inv C (fst (fe_during (env i) w))"
  unfolding fair_forward_def by blast+

lemma fair_forward_dial:
  assumes "fair_forward C env" and "sb_inv C s" and "forward_dial (env i) up (s, h) = (pinned, w4)"
  shows "sb_inv C (fst w4)"
proof -
  obtain s2 h2 where b: "fe_between (env i) (s, h) = (s2, h2)" by fastforce
  have "sb_inv C s2" using fair_forwardD(2) [OF assms(1), of "(s, h)" i] assms(2) b by simp
  then show ?thesis
    using assms(1,3) b fair_forwardD(3) [OF assms(1), of "(s2, snd (transportFor up h2))" i]
    by (auto simp: forward_dial_def Let_def case_prod_unfold)
qed

lemma sb_inv_record_attempt [inv_intros]:
  "sb_inv C (fst w) \<Longrightarrow> sb_inv C (fst (record_round_trip_error a host uid e w))"
  "sb_inv C (fst w) \<Longrightarrow> sb_inv C (fst (record_verdict a host uid status v w))"
  by (auto simp: record_round_trip_error_def record_verdict_def Let_def inv_intros
      split: prod.splits verdict.splits)

lemma sb_inv_forward_exhausted:
  "sb_inv C (fst w) \<Longrightarrow> forward_exhausted tripNow host cas retries w = (reply, ids, w') \<Longrightarrow>
     sb_inv C (fst w') \<and> ids = [] \<and> (\<exists>hdr. reply = ErrorPage 502 hdr)"
  by (auto simp: forward_exhausted_def Let_def inv_intros split: prod.splits if_splits)

text \<open>A streamed reply is the answer to the last attempt, through the transport it was given.\<close>

definition served_by ::
    "(nat \<Rightarrow> forward_env) \<Rightarrow> (string \<Rightarrow> time option) \<Rightarrow> forward_params \<Rightarrow> nat \<Rightarrow> string list \<Rightarrow> nat \<Rightarrow> fwd_reply \<Rightarrow> bool" where
  "served_by env parseTime p i ids retries reply \<longleftrightarrow>
     (\<exists>pinned resp body. ids \<noteq> [] \<and> fe_round_trip (env (i + length ids - 1)) pinned (fp_out p) = Inr resp \<and>
        inspect_response parseTime (fe_detect_now (env (i + length ids - 1))) p resp = Serve body \<and>
        reply = writeForwardSuccess resp body (last ids) (retries + (length ids - 1)))"

lemma forward_loop_safe:
  assumes "fair_forward C env" and "sb_inv C (fst w)"
    and "forward_loop env parseTime tripNow p k i tried retries w = (reply, ids, w')"
  shows "sb_inv C (fst w') \<and> length ids \<le> k \<and> distinct ids \<and> set ids \<inter> set tried = {} \<and>
         (reply = Aborted \<or> (\<exists>hdr. reply = ErrorPage 502 hdr) \<or> served_by env parseTime p i ids retries reply)"
  using assms(2,3)
proof (induction k arbitrary: i tried retries w ids)
  case 0
  then show ?case using sb_inv_forward_exhausted [of C w] by fastforce
next
  case (Suc k)
  note others = fair_forwardD(1) [OF assms(1) Suc.prems(1), of i]
  from Suc.prems(2) show ?case
  proof (cases rule: forward_loop_cases)
    case (early err)
    then show ?thesis using others by simp
  next
    case (exhausted e s1)
    from Pick_step(1) [OF others exhausted(2)]
    have "sb_inv C (fst w') \<and> ids = [] \<and> (\<exists>hdr. reply = ErrorPage 502 hdr)"
      by (intro sb_inv_forward_exhausted [OF _ exhausted(3) [symmetric]]) simp
    then show ?thesis by auto
  next
    case (cut up s1 pinned w4 e err)
    then show ?thesis
      using Pick_step [OF others cut(2)] fair_forward_dial [OF assms(1) _ cut(3)] by simp
  next
    case (served up s1 pinned w4 resp body)
    have "served_by env parseTime p i ids retries reply"
      unfolding served_by_def using served(4-7) by (intro exI [of _ pinned] exI [of _ resp] exI [of _ body]) simp
    then show ?thesis
      using Pick_step [OF others served(2)] fair_forward_dial [OF assms(1) _ served(3)] served(7,8)
      by (simp add: inv_intros)
  next
    case (retried up s1 pinned w4 w5 rest)
    have "sb_inv C (fst w4)"
      using Pick_step(1) [OF others retried(2)] fair_forward_dial [OF assms(1) _ retried(3)] by blast
    then have "sb_inv C (fst w5)" using retried(4) by (auto simp: inv_intros)
    note IH = Suc.IH [OF this retried(6)]
    have "served_by env parseTime p i ids retries reply"
      if "served_by env parseTime p (Suc i) rest (Suc retries) reply"
    proof -
      from that have "rest \<noteq> []" by (auto simp: served_by_def)
      then have "Suc i + length rest - 1 = i + length ids - 1" "last rest = last ids"
          "Suc retries + (length rest - 1) = retries + (length ids - 1)" "ids \<noteq> []"
        using retried(5) by (cases rest; simp)+
      with that show ?thesis unfolding served_by_def by metis
    qed
    then show ?thesis
      using IH retried(5) Pick_step(2) [OF others retried(2) refl] by auto
  qed
qed

subsection \<open>What the client gets\<close>

text \<open>Requests that are turned away before any upstream is picked.\<close>

definition forward_rejected :: "fwd_request \<Rightarrow> int option" where
  "forward_rejected r =
     (if rq_scheme r = [] \<or> to_lower (rq_scheme r) \<notin> {''http'', ''https''} \<or> url_hostname (rq_url_host r) = []
      then Some 400
      else if maxBufferedRequestBody < rq_content_length r then Some 413
      else (case readBoundedBody (rq_body r) maxBufferedRequestBody of
              Inl _ \<Rightarrow> Some 502 | Inr (_, big) \<Rightarrow> if big then Some 413 else None))"

definition forward_setup :: "fwd_request \<Rightarrow> http_server \<Rightarrow> forward_params" where
  "forward_setup r h =
     \<lparr>fp_host = url_hostname (rq_url_host r),
      fp_out = newOutReq r (case readBoundedBody (rq_body r) maxBufferedRequestBody of
                              Inr (body, _) \<Rightarrow> body | Inl _ \<Rightarrow> []),
      fp_detector = hl_detector h,
      fp_patterns = (if 0 < hl_body_buffer_bytes h
                     then Patterns (rules_Match (hl_rules h) (url_hostname (rq_url_host r))) else []),
      fp_body_limit = hl_body_buffer_bytes h\<rparr>"

lemma handleForward_eq:
  "handleForward env parseTime tripNow r (s, h) =
     (case forward_rejected r of
        Some status \<Rightarrow> (ErrorPage status fmempty, [], s, h)
      | None \<Rightarrow> forward_loop env parseTime tripNow (forward_setup r h) (nat (hl_retry_cap h)) 0 [] 0 (s, h))"
  by (auto simp: handleForward_def forward_rejected_def forward_setup_def Let_def
      split: sum.splits prod.splits bool.splits)

lemma readBoundedBody_ok:
  assumes "readBoundedBody (Some b) limit = Inr (buf, False)" and "0 \<le> limit"
  shows "buf = body_content b" and "int (length buf) \<le> limit"
proof -
  obtain bytes cs k where r: "read_limit (nat (limit + 1)) (bd_chunks b) = (bytes, cs, k)"
    by (cases "read_limit (nat (limit + 1)) (bd_chunks b)") auto
  have b: "buf = bytes" "int (length buf) \<le> limit"
    using assms(1) r by (auto simp: readBoundedBody_def Let_def split: option.splits if_splits)
  then show "int (length buf) \<le> limit" by simp
  have "bytes @ concat cs = concat (bd_chunks b)" "length bytes + k = nat (limit + 1)" "k > 0 \<longrightarrow> cs = []"
    using read_limit_spec [OF r] by auto
  moreover have "k > 0" using b calculation(2) assms(2) by simp
  ultimately show "buf = body_content b" using b by (simp add: body_content_def)
qed

text \<open>
  A request that is turned away (no absolute http or https URL, no host, a body that is too large
  or cannot be read) reaches no upstream and leaves scoreboard and listener untouched; any other is
  forwarded with its whole body, of at most 8 MiB.
\<close>

theorem handleForward_rejects:
  "case forward_rejected r of
     Some status \<Rightarrow>
       handleForward env parseTime tripNow r (s, h) = (ErrorPage status fmempty, [], s, h) \<and> status \<in> {400, 413, 502}
   | None \<Rightarrow>
       or_body (fp_out (forward_setup r h)) = (case rq_body r of None \<Rightarrow> [] | Some b \<Rightarrow> body_content b) \<and>
       int (length (or_body (fp_out (forward_setup r h)))) \<le> maxBufferedRequestBody"
proof (cases "forward_rejected r")
  case (Some status)
  then have "status \<in> {400, 413, 502}"
    by (auto simp: forward_rejected_def split: if_splits sum.splits prod.splits)
  with Some show ?thesis by (simp add: handleForward_eq)
next
  case None
  then obtain body where b: "readBoundedBody (rq_body r) maxBufferedRequestBody = Inr (body, False)"
    by (auto simp: forward_rejected_def split: if_splits sum.splits)
  have "body = (case rq_body r of None \<Rightarrow> [] | Some b \<Rightarrow> body_content b) \<and>
      int (length body) \<le> maxBufferedRequestBody"
    using b readBoundedBody_ok [of _ maxBufferedRequestBody body]
    by (cases "rq_body r") (auto simp: readBoundedBody_def maxBufferedRequestBody_def)
  with None b show ?thesis by (cases "rq_body r") (auto simp: forward_setup_def newOutReq_def)
qed

text \<open>
  C23: under any interference, a request is attempted through different upstreams, at most the retry
  cap; a streamed reply names the last of them and counts the others as retries; any other reply after
  the first attempt is a torn-down connection or a 502; and the scoreboard keeps its invariant.
\<close>

theorem handleForward_bounded:
  assumes "fair_forward C env" and "sb_inv C s" and "\<forall>i u o' resp. fe_round_trip (env i) u o' = Inr resp \<longrightarrow> canonical_header (rs_header resp)"
    and "handleForward env parseTime tripNow r (s, h) = (reply, ids, s', h')"
  shows "distinct ids \<and> int (length ids) \<le> max 0 (hl_retry_cap h) \<and> sb_inv C s' \<and>
         (case reply of
            Streamed status hdr body \<Rightarrow>
              ids \<noteq> [] \<and> header_values hdr ''X-Tunnelsmith-Upstream'' = [last ids] \<and>
              header_values hdr ''X-Tunnelsmith-Retries'' = [itoa (int (length ids - 1))]
          | Aborted \<Rightarrow> True
          | ErrorPage status hdr \<Rightarrow> ids \<noteq> [] \<longrightarrow> status = 502)"
proof (cases "forward_rejected r")
  case (Some status)
  with assms(2,4) show ?thesis by (auto simp: handleForward_eq)
next
  case None
  let ?p = "forward_setup r h"
  have l: "forward_loop env parseTime tripNow ?p (nat (hl_retry_cap h)) 0 [] 0 (s, h) = (reply, ids, s', h')"
    using assms(4) None by (simp add: handleForward_eq)
  note safe = forward_loop_safe [OF assms(1) _ l]
  have "case reply of
      Streamed status hdr body \<Rightarrow>
        ids \<noteq> [] \<and> header_values hdr ''X-Tunnelsmith-Upstream'' = [last ids] \<and>
        header_values hdr ''X-Tunnelsmith-Retries'' = [itoa (int (length ids - 1))]
    | Aborted \<Rightarrow> True | ErrorPage status hdr \<Rightarrow> ids \<noteq> [] \<longrightarrow> status = 502"
  proof (cases reply)
    case (Streamed status hdr body)
    then obtain pinned resp b where sv: "ids \<noteq> []"
        "fe_round_trip (env (0 + length ids - 1)) pinned (fp_out ?p) = Inr resp"
        "reply = writeForwardSuccess resp b (last ids) (0 + (length ids - 1))"
      using safe assms(2) by (auto simp: served_by_def)
    with writeForwardSuccess_headers [of resp b "last ids" "0 + (length ids - 1)" status hdr body] assms(3) Streamed
    show ?thesis by auto
  next
    case (ErrorPage status hdr)
    then show ?thesis using safe assms(2) by (auto simp: served_by_def writeForwardSuccess_def Let_def)
  qed simp
  with safe assms(2) show ?thesis by auto
qed

lemma inspect_response_serve:
  assumes "inspect_response parseTime now p resp = Serve body" and "\<not> bd_closed (rs_body resp)"
  shows "Detect parseTime (fp_detector p) now (rs_status resp) (rs_header resp) = None"
    and "replay_content body = body_content (rs_body resp)"
    and "fp_patterns p \<noteq> [] \<Longrightarrow> 0 < fp_body_limit p \<Longrightarrow>
           isPlainEncoding (header_get (rs_header resp) ''Content-Encoding'') \<Longrightarrow>
           first_match (fp_patterns p) (take (nat (fp_body_limit p)) (body_content (rs_body resp))) = None"
proof -
  let ?enc = "header_get (rs_header resp) ''Content-Encoding''"
  show "Detect parseTime (fp_detector p) now (rs_status resp) (rs_header resp) = None"
    using assms(1) by (auto simp: inspect_response_def split: option.splits)
  have c: "(fp_patterns p = [] \<and> body = Passthrough (rs_body resp)) \<or>
      (fp_patterns p \<noteq> [] \<and> (\<exists>dec. BufferAndDecide (Some (rs_body resp)) ?enc (fp_body_limit p) (fp_patterns p) = Inr dec \<and>
         \<not> bi_matched dec \<and> body = bi_replay dec))"
    using assms(1) by (auto simp: inspect_response_def split: option.splits if_splits sum.splits)
  then show "replay_content body = body_content (rs_body resp)"
    using BufferAndDecide_replay [of "Some (rs_body resp)" ?enc] by (auto simp: opt_content_def)
  show "first_match (fp_patterns p) (take (nat (fp_body_limit p)) (body_content (rs_body resp))) = None"
    if "fp_patterns p \<noteq> []" "0 < fp_body_limit p" "isPlainEncoding ?enc"
    using c that BufferAndDecide_match(1,2) [of "rs_body resp" ?enc] by auto
qed

text \<open>
  C24: what a client is served is an answer of the destination that no detector fired on: its status
  is not a configured failure, no pattern of the host's rule matches the inspected prefix, the body
  is the upstream's byte for byte, and the header is the upstream's without hop-by-hop fields and without
  the proxy's own namespace, which only the proxy fills.
\<close>

theorem handleForward_serves:
  assumes "fair_forward C env" and "sb_inv C s"
    and "\<forall>i u o' resp. fe_round_trip (env i) u o' = Inr resp \<longrightarrow>
           canonical_header (rs_header resp) \<and> \<not> bd_closed (rs_body resp)"
    and "handleForward env parseTime tripNow r (s, h) = (Streamed status hdr body, ids, s', h')"
  shows "\<exists>i pinned resp. fe_round_trip (env i) pinned (fp_out (forward_setup r h)) = Inr resp \<and>
           status = rs_status resp \<and>
           Detect parseTime (hl_detector h) (fe_detect_now (env i)) status (rs_header resp) = None \<and>
           replay_content body = body_content (rs_body resp) \<and>
           (fp_patterns (forward_setup r h) \<noteq> [] \<and> isPlainEncoding (header_get (rs_header resp) ''Content-Encoding'') \<longrightarrow>
              first_match (fp_patterns (forward_setup r h))
                (take (nat (hl_body_buffer_bytes h)) (body_content (rs_body resp))) = None) \<and>
           (\<forall>k. canonical_key k \<notin> {''X-Tunnelsmith-Upstream'', ''X-Tunnelsmith-Retries''} \<longrightarrow>
              header_values hdr k =
                (if hop_by_hop (rs_header resp) k \<or> own_namespace k then [] else header_values (rs_header resp) k))"
proof -
  let ?p = "forward_setup r h"
  have "forward_rejected r = None" using assms(4) by (auto simp: handleForward_eq split: option.splits)
  then have l: "forward_loop env parseTime tripNow ?p (nat (hl_retry_cap h)) 0 [] 0 (s, h) =
      (Streamed status hdr body, ids, s', h')"
    using assms(4) by (simp add: handleForward_eq)
  have "served_by env parseTime ?p 0 ids 0 (Streamed status hdr body)"
    using forward_loop_safe [OF assms(1) _ l] assms(2) by simp
  then obtain i pinned resp b where sv:
      "fe_round_trip (env i) pinned (fp_out ?p) = Inr resp"
      "inspect_response parseTime (fe_detect_now (env i)) ?p resp = Serve b"
      "writeForwardSuccess resp b (last ids) (length ids - 1) = Streamed status hdr body"
    by (auto simp: served_by_def)
  have r: "canonical_header (rs_header resp)" "\<not> bd_closed (rs_body resp)"
    using assms(3) sv(1) by blast+
  note w = writeForwardSuccess_headers [OF r(1) sv(3)] and ins = inspect_response_serve [OF sv(2) r(2)]
  have lim: "fp_patterns ?p \<noteq> [] \<Longrightarrow> 0 < fp_body_limit ?p" "fp_detector ?p = hl_detector h"
      "fp_body_limit ?p = hl_body_buffer_bytes h"
    by (auto simp: forward_setup_def split: if_splits)
  show ?thesis
    using w ins lim by (intro exI [of _ i] exI [of _ pinned] exI [of _ resp] conjI sv(1)) auto
qed

subsection \<open>Cascades, when no one interferes\<close>

definition forward_alone :: "(nat \<Rightarrow> forward_env) \<Rightarrow> bool" where
  "forward_alone env \<longleftrightarrow>
     (\<forall>i w. fe_others (env i) w = w \<and> fe_between (env i) w = w \<and> fe_during (env i) w = w)"

lemma forward_alone_simps [simp]:
  "forward_alone env \<Longrightarrow> fe_others (env i) w = w"
  "forward_alone env \<Longrightarrow> fe_between (env i) w = w"
  "forward_alone env \<Longrightarrow> fe_during (env i) w = w"
  unfolding forward_alone_def by blast+

lemma forward_alone_dial:
  assumes "forward_alone env" and "forward_dial (env i) up (s, h) = (pinned, w4)"
  shows "fst w4 = s" and "(pinned, snd w4) = transportFor up h"
  using assms by (auto simp: forward_dial_def Let_def case_prod_unfold)

lemma record_round_trip_error_frame:
  "sb_cascade (fst (record_round_trip_error a host uid e w)) = sb_cascade (fst w)"
  "sb_cfg (fst (record_round_trip_error a host uid e w)) = sb_cfg (fst w)"
  by (simp_all add: record_round_trip_error_def Let_def case_prod_unfold)

lemma record_verdict_frame:
  assumes "\<forall>b. v \<noteq> Serve b"
  shows "sb_cascade (fst (record_verdict a host uid status v w)) = sb_cascade (fst w)"
    and "sb_cfg (fst (record_verdict a host uid status v w)) = sb_cfg (fst w)"
  using assms by (cases v; simp add: record_verdict_def Let_def case_prod_unfold)+

text \<open>The cascade table after a reply: \<open>cooling\<close> says whether the loop met a cascade.\<close>

definition forward_cascade_after :: "fwd_reply \<Rightarrow> bool \<Rightarrow> time \<Rightarrow> string \<Rightarrow> scoreboard \<Rightarrow> (string, time) fmap" where
  "forward_cascade_after reply cooling tripNow host s =
     (case reply of
        Streamed _ _ _ \<Rightarrow> fmdrop host (sb_cascade s)
      | Aborted \<Rightarrow> sb_cascade s
      | ErrorPage _ _ \<Rightarrow>
          if cooling \<or> sc_cascade_ttl (sb_cfg s) \<le> 0 then sb_cascade s
          else fmupd host (time_add tripNow (sc_cascade_ttl (sb_cfg s))) (sb_cascade s))"

lemma forward_cascade_after_cong:
  "sb_cascade s = sb_cascade s' \<Longrightarrow> sb_cfg s = sb_cfg s' \<Longrightarrow>
     forward_cascade_after r c t host s = forward_cascade_after r c t host s'"
  by (simp add: forward_cascade_after_def split: fwd_reply.splits)

lemma forward_exhausted_cascade:
  "(reply, ids, w') = forward_exhausted tripNow host cas retries w \<Longrightarrow>
     sb_cascade (fst w') = forward_cascade_after reply cas tripNow host (fst w)"
  by (auto simp: forward_exhausted_def forward_cascade_after_def TripCascade_def Let_def split: prod.splits)

text \<open>Whether an attempt of the loop meets an active cascade of the host.\<close>

definition meets_cascade :: "(nat \<Rightarrow> forward_env) \<Rightarrow> nat \<Rightarrow> string \<Rightarrow> scoreboard \<Rightarrow> bool" where
  "meets_cascade env n host s \<longleftrightarrow> cascadeActive s host (fe_pick_now (env n))"

lemma Pick_cascade_error:
  assumes "Pick now d host tried s = (Inl e, s')"
  shows "errors_is e ErrCascadeCooling \<longleftrightarrow> cascadeActive s host now"
  using assms
  by (auto simp: Pick_unfold CascadeError_def Let_def split: option.splits if_splits)

lemma cascadeActive_cong: "sb_cascade s = sb_cascade s' \<Longrightarrow> cascadeActive s host t = cascadeActive s' host t"
  by (simp add: cascadeActive_def)

lemma forward_loop_cascade:
  assumes "forward_alone env"
    and "forward_loop env parseTime tripNow p k i tried retries w = (reply, ids, w')"
  shows "sb_cascade (fst w') =
      forward_cascade_after reply (length ids < k \<and> meets_cascade env (i + length ids) (fp_host p) (fst w))
        tripNow (fp_host p) (fst w)"
  using assms(2)
proof (induction k arbitrary: i tried retries w ids)
  case 0
  then show ?case
    by (auto simp: forward_exhausted_def forward_cascade_after_def TripCascade_def Let_def split: prod.splits)
next
  case (Suc k)
  from Suc.prems show ?case
  proof (cases rule: forward_loop_cases)
    case (early err)
    then show ?thesis using assms(1) by (simp add: forward_cascade_after_def)
  next
    case (exhausted e s1)
    have pk: "Pick (fe_pick_now (env i)) (fe_draws (env i)) (fp_host p) tried (fst w) = (Inl e, s1)"
      using exhausted(2) assms(1) by simp
    have "ids = []" using exhausted(3) by (auto simp: forward_exhausted_def)
    moreover have "sb_cascade s1 = sb_cascade (fst w)" "sb_cfg s1 = sb_cfg (fst w)"
      using Pick_frame [OF pk] by simp_all
    ultimately show ?thesis
      using forward_exhausted_cascade [OF exhausted(3)] Pick_cascade_error [OF pk]
        forward_cascade_after_cong [of s1 "fst w"]
      by (simp add: meets_cascade_def)
  next
    case (cut up s1 pinned w4 e err)
    then show ?thesis
      using Pick_frame [OF cut(2)] forward_alone_dial(1) [OF assms(1) cut(3)] assms(1)
      by (simp add: forward_cascade_after_def)
  next
    case (served up s1 pinned w4 resp body)
    then show ?thesis
      using Pick_frame [OF served(2)] forward_alone_dial(1) [OF assms(1) served(3)] assms(1)
      by (simp add: forward_cascade_after_def writeForwardSuccess_def Let_def RecordSuccess_def
          getOrCreateLocked_def case_prod_unfold)
  next
    case (retried up s1 pinned w4 w5 rest)
    have "sb_cascade (fst w5) = sb_cascade (fst w4)" "sb_cfg (fst w5) = sb_cfg (fst w4)"
      using retried(4) by (auto simp: record_round_trip_error_frame record_verdict_frame)
    then have f: "sb_cascade (fst w5) = sb_cascade (fst w)" "sb_cfg (fst w5) = sb_cfg (fst w)"
      using Pick_frame [OF retried(2)] forward_alone_dial(1) [OF assms(1) retried(3)] assms(1) by simp_all
    have "(length rest < k \<and> meets_cascade env (Suc i + length rest) (fp_host p) (fst w5)) =
        (length ids < Suc k \<and> meets_cascade env (i + length ids) (fp_host p) (fst w))"
      unfolding meets_cascade_def cascadeActive_cong [OF f(1)] retried(5) by simp
    then show ?thesis
      unfolding Suc.IH [OF retried(6)] by (simp only: forward_cascade_after_cong [OF f])
  qed
qed

text \<open>
  A served request clears its host's cascade; an aborted one leaves every cascade as it was; a
  request that used up its attempts, or found no upstream left, trips its host's cascade for the
  configured time, unless it met one that was active, which is then not extended.
\<close>

theorem handleForward_cascade:
  assumes "forward_alone env" and "forward_rejected r = None"
    and "handleForward env parseTime tripNow r (s, h) = (reply, ids, s', h')"
  shows "sb_cascade s' =
      forward_cascade_after reply
        (int (length ids) < hl_retry_cap h \<and>
         cascadeActive s (url_hostname (rq_url_host r)) (fe_pick_now (env (length ids))))
        tripNow (url_hostname (rq_url_host r)) s"
proof -
  have l: "forward_loop env parseTime tripNow (forward_setup r h) (nat (hl_retry_cap h)) 0 [] 0 (s, h) =
      (reply, ids, s', h')"
    using assms(2,3) by (simp add: handleForward_eq)
  have "length ids < nat (hl_retry_cap h) \<longleftrightarrow> int (length ids) < hl_retry_cap h" by auto
  moreover have "fp_host (forward_setup r h) = url_hostname (rq_url_host r)"
    by (simp add: forward_setup_def)
  ultimately show ?thesis
    using forward_loop_cascade [OF assms(1) l] by (simp add: meets_cascade_def)
qed

subsection \<open>CONNECT\<close>

lemma DialFor_no_error_Connected:
  "DialFor env startNow tripNow host s = (Cooling e, d, s') \<Longrightarrow> errors_is e ErrCascadeCooling"
proof -
  have "dial_loop env tripNow hst k i tried errs s = (Cooling e, d, s') \<Longrightarrow> errors_is e ErrCascadeCooling"
    for hst k i tried errs s d
  proof (induction k arbitrary: i tried errs s d)
    case 0
    then show ?case by (simp add: out_of_retries_def)
  next
    case (Suc k)
    from Suc.prems show ?case
    proof (cases rule: dial_loop_cases)
      case (exhausted e' s1)
      then show ?thesis by (simp add: out_of_retries_def)
    qed (use Suc.IH in auto)
  qed
  then show "DialFor env startNow tripNow host s = (Cooling e, d, s') \<Longrightarrow> errors_is e ErrCascadeCooling"
    by (auto simp: DialFor_def CascadeError_def Let_def split: if_splits)
qed

text \<open>
  A CONNECT that got an upstream connection closes it, last or before the tunnel is unregistered,
  whatever the client side does, and answers 200 before it pumps; one that got none answers 502,
  counted as a cascade exactly when the dial met one; no tunnel stays registered.
\<close>

theorem handleConnect_no_leak:
  assumes "DialFor env startNow tripNow host s = (res, dialled, s')"
    and "handleConnect valid env startNow tripNow hj host (s, h) = (evs, ids, s2, h2)"
  shows "s2 = s' \<and> ids = dialled \<and> hl_tunnels h2 |-| {|hj_id hj|} = hl_tunnels h |-| {|hj_id hj|} \<and>
         (case res of
            Connected conn uid \<Rightarrow>
              CCloseUp \<in> set evs \<and>
              (CPump \<in> set evs \<longrightarrow>
                 evs = [CWrite (buildConnectResponse valid uid), CRegister (hj_id hj), CPump, CCloseUp, CCloseClient,
                        CUnregister (hj_id hj)])
          | Cooling e \<Rightarrow> evs = [CErrorPage 502] \<and> h2 = observeOutcome ''cascade'' h
          | Bailed e \<Rightarrow> evs = [CErrorPage 502]
          | Exhausted e \<Rightarrow> evs = [CErrorPage 502])"
  using assms DialFor_no_error_Connected [of env startNow tripNow host s]
  by (auto simp: handleConnect_def tunnel_run_def connectOutcome_def observeOutcome_def http_observe_def
      unregisterTunnel_def registerTunnel_def Let_def split: dial_end.splits if_splits)

end
