(* ===== verification/OperatorUI.thy ===== *)
theory OperatorUI
  imports Persist Forward
begin

text \<open>
  The operator's HTTP interface, \<open>internal/ui/handlers.go\<close>: the routes, the JSON view of the scoreboard and the
  four actions on it. The JSON decoder, \<open>time.ParseDuration\<close>, \<open>time.Parse\<close> and the embedded files are parameters.
  Every call into the backend is one critical section; what other goroutines do before it is a parameter.
\<close>

subsection \<open>The backend\<close>

record entry_view =
  ev_host :: string
  ev_upstream_id :: string
  ev_score :: f64
  ev_cooldown_until :: time
  ev_last_seen :: time
  ev_success :: "64 word"
  ev_failure :: "64 word"

definition entry_view_of :: "string \<Rightarrow> string \<Rightarrow> entry \<Rightarrow> entry_view" where
  "entry_view_of host uid e =
     \<lparr>ev_host = host, ev_upstream_id = uid, ev_score = en_score e, ev_cooldown_until = en_cooldown_until e,
      ev_last_seen = en_last_seen e, ev_success = en_success e, ev_failure = en_failure e\<rparr>"

text \<open>\<open>Scoreboard.Snapshot\<close>: every entry, in the order the two loops range over the maps.\<close>

definition sb_Snapshot :: "range_order \<Rightarrow> scoreboard \<Rightarrow> entry_view list" where
  "sb_Snapshot ord s =
     concat (map (\<lambda>host.
         (let perUp = the (fmlookup (sb_entries s) host)
          in map (\<lambda>uid. entry_view_of host uid (the (fmlookup perUp uid))) (ord [''entries'', host] (fmdom perUp))))
       (ord [''hosts''] (fmdom (sb_entries s))))"

text \<open>The interface \<open>Backend\<close>; the operations that read the clock take its reading.\<close>

record 's ui_backend =
  ub_Snapshot :: "range_order \<Rightarrow> 's \<Rightarrow> entry_view list"
  ub_ForceSnapshot :: "time \<Rightarrow> 's \<Rightarrow> (string \<times> force_entry) list \<times> 's"
  ub_CooledHostsByUpstream :: "time \<Rightarrow> 's \<Rightarrow> string \<Rightarrow> nat"
  ub_CascadeActiveCount :: "time \<Rightarrow> 's \<Rightarrow> nat"
  ub_PoolIDs :: "'s \<Rightarrow> string list"
  ub_Forget :: "string \<Rightarrow> 's \<Rightarrow> bool \<times> 's"
  ub_Force :: "time \<Rightarrow> string \<Rightarrow> string \<Rightarrow> time \<Rightarrow> 's \<Rightarrow> force_error option \<times> 's"
  ub_ClearForce :: "string \<Rightarrow> 's \<Rightarrow> bool \<times> 's"
  ub_Reset :: "'s \<Rightarrow> 's"

definition scoreboard_ui :: "scoreboard ui_backend" where
  "scoreboard_ui =
     \<lparr>ub_Snapshot = sb_Snapshot, ub_ForceSnapshot = ForceSnapshot,
      ub_CooledHostsByUpstream = CooledHostsByUpstream, ub_CascadeActiveCount = CascadeActiveCount,
      ub_PoolIDs = PoolIDs, ub_Forget = Forget, ub_Force = Force, ub_ClearForce = ClearForce, ub_Reset = sb_Reset\<rparr>"

text \<open>
  The surroundings of one request: the clock readings, in order, what other goroutines do before each backend
  call, and the order in which the maps are ranged over.
\<close>

record 's ui_env =
  ue_clock :: "nat \<Rightarrow> time"
  ue_others :: "nat \<Rightarrow> 's \<Rightarrow> 's"
  ue_order :: range_order

subsection \<open>Requests\<close>

record force_body =
  fb_host :: string
  fb_upstream_id :: string
  fb_duration :: string
  fb_until :: string

text \<open>A decoder gets the bytes it may read and the error that ends them, and gives the first value.\<close>

record ui_codec =
  uc_host :: "string \<Rightarrow> goerr option \<Rightarrow> goerr + string"
  uc_force :: "string \<Rightarrow> goerr option \<Rightarrow> goerr + force_body"
  uc_ParseDuration :: "string \<Rightarrow> goerr + duration"
  uc_ParseTime :: "string \<Rightarrow> goerr + time"
  uc_asset :: "string \<Rightarrow> bool"

record ui_request =
  uq_method :: string
  uq_path :: string
  uq_body :: "body option"

record scoreboard_response =
  sr_pool_ids :: "string list"
  sr_entries :: "entry_view list"
  sr_forces :: "(string \<times> force_entry) list"
  sr_cooled_by_upstream :: "string \<Rightarrow> nat"
  sr_cascade_active :: nat
  sr_generated_at :: time

datatype body_error = EmptyBody | InvalidJSON goerr

datatype until_error =
    NeitherGiven
  | BothGiven
  | InvalidDuration string goerr
  | DurationNotPositive duration
  | InvalidUntil string goerr
  | UntilNotFuture string

datatype ui_error =
    MethodNotAllowed
  | BadBody body_error
  | HostRequired
  | HostAndUpstreamRequired
  | BadUntil until_error
  | ForceRejected force_error
  | NotFound

datatype ui_reply =
    UIError int ui_error
  | UIPage
  | UIAsset string
  | UIHealthy
  | UIRemoved bool
  | UINoContent
  | UIScoreboard scoreboard_response

definition ui_status :: "ui_reply \<Rightarrow> int" where
  "ui_status r = (case r of UIError code _ \<Rightarrow> code | UINoContent \<Rightarrow> 204 | _ \<Rightarrow> 200)"

definition maxUIBody :: nat where "maxUIBody = 2 ^ 20"

definition decodeJSONBody :: "(string \<Rightarrow> goerr option \<Rightarrow> goerr + 'b) \<Rightarrow> body option \<Rightarrow> body_error + 'b" where
  "decodeJSONBody dec body =
     (case body of
        None \<Rightarrow> Inl EmptyBody
      | Some b \<Rightarrow>
          (let (bytes, rest, k) = read_limit maxUIBody (bd_chunks b);
               end_error = (if concat rest \<noteq> [] then Some (errorf ''http: request body too large'') else bd_end b)
           in case dec bytes end_error of
                Inl e \<Rightarrow> Inl (InvalidJSON e)
              | Inr v \<Rightarrow> Inr v))"

definition resolveForceUntil ::
    "(string \<Rightarrow> goerr + duration) \<Rightarrow> (string \<Rightarrow> goerr + time) \<Rightarrow> string \<Rightarrow> string \<Rightarrow> time \<Rightarrow> until_error + time" where
  "resolveForceUntil parseDuration parseTime durationStr0 untilStr0 now =
     (let durationStr = trim_space durationStr0; untilStr = trim_space untilStr0 in
      if durationStr = [] \<and> untilStr = [] then Inl NeitherGiven
      else if durationStr \<noteq> [] \<and> untilStr \<noteq> [] then Inl BothGiven
      else if durationStr \<noteq> [] then
        (case parseDuration durationStr of
           Inl e \<Rightarrow> Inl (InvalidDuration durationStr e)
         | Inr d \<Rightarrow> if d \<le> 0 then Inl (DurationNotPositive d) else Inr (time_add now d))
      else
        (case parseTime untilStr of
           Inl e \<Rightarrow> Inl (InvalidUntil untilStr e)
         | Inr t \<Rightarrow> if \<not> after t now then Inl (UntilNotFuture untilStr) else Inr t))"

subsection \<open>Handlers\<close>

definition writeScoreboard :: "'s ui_env \<Rightarrow> 's ui_backend \<Rightarrow> 's \<Rightarrow> ui_reply \<times> 's" where
  "writeScoreboard env be s =
     (let s0 = ue_others env 0 s;
          entries = ub_Snapshot be (ue_order env) s0;
          (forces, s1) = ub_ForceSnapshot be (ue_clock env 0) (ue_others env 1 s0);
          s2 = ue_others env 2 s1; ids = ub_PoolIDs be s2;
          s3 = ue_others env 3 s2; cooled = ub_CooledHostsByUpstream be (ue_clock env 1) s3;
          s4 = ue_others env 4 s3; cascades = ub_CascadeActiveCount be (ue_clock env 2) s4
      in (UIScoreboard \<lparr>sr_pool_ids = ids, sr_entries = entries, sr_forces = forces,
            sr_cooled_by_upstream = cooled, sr_cascade_active = cascades, sr_generated_at = ue_clock env 3\<rparr>, s4))"

text \<open>The two handlers that act on one host and answer whether there was something to remove.\<close>

definition host_action :: "ui_codec \<Rightarrow> ui_request \<Rightarrow> (string \<Rightarrow> 's \<Rightarrow> bool \<times> 's) \<Rightarrow> 's ui_env \<Rightarrow> 's \<Rightarrow> ui_reply \<times> 's" where
  "host_action codec r act env s =
     (if uq_method r \<noteq> ''POST'' then (UIError 405 MethodNotAllowed, s)
      else (case decodeJSONBody (uc_host codec) (uq_body r) of
        Inl e \<Rightarrow> (UIError 400 (BadBody e), s)
      | Inr host0 \<Rightarrow>
          (let host = trim_space host0 in
           if host = [] then (UIError 400 HostRequired, s)
           else (let (removed, s') = act host (ue_others env 0 s) in (UIRemoved removed, s')))))"

definition handleForget :: "ui_codec \<Rightarrow> 's ui_env \<Rightarrow> 's ui_backend \<Rightarrow> ui_request \<Rightarrow> 's \<Rightarrow> ui_reply \<times> 's" where
  "handleForget codec env be r s = host_action codec r (ub_Forget be) env s"

definition handleForceClear :: "ui_codec \<Rightarrow> 's ui_env \<Rightarrow> 's ui_backend \<Rightarrow> ui_request \<Rightarrow> 's \<Rightarrow> ui_reply \<times> 's" where
  "handleForceClear codec env be r s = host_action codec r (ub_ClearForce be) env s"

definition force_reply :: "force_error option \<times> 's \<Rightarrow> ui_reply \<times> 's" where
  "force_reply res =
     (case fst res of
        None \<Rightarrow> UINoContent
      | Some ErrUnknownUpstream \<Rightarrow> UIError 400 (ForceRejected ErrUnknownUpstream)
      | Some e \<Rightarrow> UIError 500 (ForceRejected e), snd res)"

definition handleForce :: "ui_codec \<Rightarrow> 's ui_env \<Rightarrow> 's ui_backend \<Rightarrow> ui_request \<Rightarrow> 's \<Rightarrow> ui_reply \<times> 's" where
  "handleForce codec env be r s =
     (if uq_method r \<noteq> ''POST'' then (UIError 405 MethodNotAllowed, s)
      else (case decodeJSONBody (uc_force codec) (uq_body r) of
        Inl e \<Rightarrow> (UIError 400 (BadBody e), s)
      | Inr body \<Rightarrow>
          (let host = trim_space (fb_host body); uid = trim_space (fb_upstream_id body) in
           if host = [] \<or> uid = [] then (UIError 400 HostAndUpstreamRequired, s)
           else (case resolveForceUntil (uc_ParseDuration codec) (uc_ParseTime codec)
                        (fb_duration body) (fb_until body) (ue_clock env 0) of
             Inl e \<Rightarrow> (UIError 400 (BadUntil e), s)
           | Inr until \<Rightarrow>
               force_reply (ub_Force be (ue_clock env 1) host uid until (ue_others env 0 s))))))"

text \<open>The body of a reset is read and ignored.\<close>

definition handleReset :: "'s ui_env \<Rightarrow> 's ui_backend \<Rightarrow> ui_request \<Rightarrow> 's \<Rightarrow> ui_reply \<times> 's" where
  "handleReset env be r s =
     (if uq_method r \<noteq> ''POST'' then (UIError 405 MethodNotAllowed, s)
      else (UINoContent, ub_Reset be (ue_others env 0 s)))"

text \<open>\<open>mountHandlers\<close>: the routes.\<close>

definition ui_serve :: "ui_codec \<Rightarrow> 's ui_env \<Rightarrow> 's ui_backend \<Rightarrow> ui_request \<Rightarrow> 's \<Rightarrow> ui_reply \<times> 's" where
  "ui_serve codec env be r s =
     (if uq_path r = ''/healthz'' then (UIHealthy, s)
      else if uq_path r = ''/api/scoreboard'' then
        (if uq_method r \<noteq> ''GET'' then (UIError 405 MethodNotAllowed, s) else writeScoreboard env be s)
      else if uq_path r = ''/api/forget'' then handleForget codec env be r s
      else if uq_path r = ''/api/force'' then handleForce codec env be r s
      else if uq_path r = ''/api/force/clear'' then handleForceClear codec env be r s
      else if uq_path r = ''/api/reset'' then handleReset env be r s
      else if has_prefix (uq_path r) ''/static/'' then
        (let file = trim_prefix (uq_path r) ''/static/''
         in (if uc_asset codec file then UIAsset file else UIError 404 NotFound, s))
      else (if uq_path r = ''/'' then UIPage else UIError 404 NotFound, s))"

end
