(* ===== verification/UIProps.thy ===== *)
theory UIProps
  imports OperatorUI
begin

text \<open>
  Correctness of the operator interface: what each answer means for the scoreboard and for the routing that
  follows, the view, and that no sequence of requests breaks the scoreboard.
\<close>

subsection \<open>What a pick depends on\<close>

lemma pick_pool_cong:
  assumes "sb_pool_entries s' = sb_pool_entries s" and "sb_rules s' = sb_rules s"
    and "\<And>uid. entry_at (sb_entries s') host uid = entry_at (sb_entries s) host uid"
  shows "pick_pool s' host tried now = pick_pool s host tried now"
proof -
  have "rank_of s' host pr n c = rank_of s host pr n c" for pr n c
    unfolding rank_of_def assms(3) ..
  then have r: "rank_of s' host = rank_of s host" by (simp add: fun_eq_iff)
  show ?thesis unfolding pick_pool_def assms(1,2) r ..
qed

lemma HasUpstream_cong: "sb_pool_entries s' = sb_pool_entries s \<Longrightarrow> HasUpstream s' uid = HasUpstream s uid"
  by (simp add: HasUpstream_def)

lemma Pick_host_cong:
  assumes "sb_pool_entries s' = sb_pool_entries s" and "sb_rules s' = sb_rules s" and "sb_cfg s' = sb_cfg s"
    and "\<And>uid. entry_at (sb_entries s') host uid = entry_at (sb_entries s) host uid"
    and "cascadeActive s' host now = cascadeActive s host now"
    and "pin_for s' now host tried = pin_for s now host tried"
  shows "fst (Pick now d host tried s') = fst (Pick now d host tried s)"
  unfolding Pick_choose_ranked assms(1,3,5,6) pick_pool_cong [OF assms(1,2,4)] ..

lemma pin_for_cong:
  assumes "sb_pool_entries s' = sb_pool_entries s"
    and "fmlookup (sb_forces s') host = fmlookup (sb_forces s) host"
  shows "pin_for s' now host tried = pin_for s now host tried"
  unfolding pin_for_def assms(2) HasUpstream_cong [OF assms(1)] ..

subsection \<open>The interface and its laws\<close>

text \<open>
  What the handlers rely on: every operation of the backend keeps its invariant and its pool, and \<open>Force\<close>
  refuses without a trace.
\<close>

locale ui_laws =
  fixes be :: "'s ui_backend" and inv :: "'s \<Rightarrow> bool"
  assumes snapshot_inv: "inv s \<Longrightarrow> inv (snd (ub_ForceSnapshot be now s))"
    and forget_inv: "inv s \<Longrightarrow> inv (snd (ub_Forget be host s))"
    and force_inv: "inv s \<Longrightarrow> inv (snd (ub_Force be now host uid until s))"
    and clear_inv: "inv s \<Longrightarrow> inv (snd (ub_ClearForce be host s))"
    and reset_inv: "inv s \<Longrightarrow> inv (ub_Reset be s)"
    and snapshot_pool: "ub_PoolIDs be (snd (ub_ForceSnapshot be now s)) = ub_PoolIDs be s"
    and forget_pool: "ub_PoolIDs be (snd (ub_Forget be host s)) = ub_PoolIDs be s"
    and force_pool: "ub_PoolIDs be (snd (ub_Force be now host uid until s)) = ub_PoolIDs be s"
    and clear_pool: "ub_PoolIDs be (snd (ub_ClearForce be host s)) = ub_PoolIDs be s"
    and reset_pool: "ub_PoolIDs be (ub_Reset be s) = ub_PoolIDs be s"
    and force_refused: "fst (ub_Force be now host uid until s) \<noteq> None \<Longrightarrow> snd (ub_Force be now host uid until s) = s"
    and force_named: "host \<noteq> [] \<Longrightarrow> uid \<noteq> [] \<Longrightarrow>
          fst (ub_Force be now host uid until s) \<in> {None, Some ErrUnknownUpstream}"
begin

definition fair :: "'s ui_env \<Rightarrow> bool" where
  "fair env \<longleftrightarrow> (\<forall>i s. inv s \<longrightarrow> inv (ue_others env i s))"

lemma host_action_inv:
  assumes "inv s" and "fair env" and "\<And>host s. inv s \<Longrightarrow> inv (snd (act host s))"
  shows "inv (snd (host_action codec r act env s))"
  using assms by (simp add: host_action_def fair_def Let_def case_prod_unfold split: sum.split)

lemma force_reply_state [simp]: "snd (force_reply res) = snd res"
  by (simp add: force_reply_def)

lemma force_request_inv:
  assumes "inv s" and "fair env" shows "inv (snd (handleForce codec env be r s))"
  using assms force_inv by (simp add: handleForce_def fair_def Let_def split: sum.split)

lemma view_inv:
  assumes "inv s" and "fair env" shows "inv (snd (writeScoreboard env be s))"
  using assms snapshot_inv by (simp add: writeScoreboard_def fair_def Let_def case_prod_unfold)

lemma ui_serve_inv:
  assumes "inv s" and "fair env" shows "inv (snd (ui_serve codec env be r s))"
  using assms host_action_inv [OF assms] force_request_inv [OF assms] view_inv [OF assms]
    forget_inv clear_inv reset_inv
  by (simp add: ui_serve_def handleForget_def handleForceClear_def handleReset_def fair_def Let_def)

text \<open>Without interference, an error answer means that nothing happened, and it is a 400, 404 or 405.\<close>

definition alone :: "'s ui_env \<Rightarrow> bool" where
  "alone env \<longleftrightarrow> (\<forall>i s. ue_others env i s = s)"

lemma force_reply_error:
  assumes "force_reply (ub_Force be now host uid until s) = (UIError code e, s')" and "host \<noteq> []" and "uid \<noteq> []"
  shows "s' = s \<and> code = 400"
  using assms(1) force_refused [of now host uid until s] force_named [OF assms(2,3), of now until s]
  by (auto simp: force_reply_def split: option.splits force_error.splits)

lemma force_request_error:
  assumes "alone env" and "handleForce codec env be r s = (UIError code e, s')"
  shows "s' = s \<and> code \<in> {400, 405}"
  using assms force_reply_error
  by (auto simp: handleForce_def alone_def Let_def split: if_splits sum.splits)

lemma ui_error_harmless:
  assumes "alone env" and "ui_serve codec env be r s = (UIError code e, s')"
  shows "s' = s \<and> code \<in> {400, 404, 405}"
  using assms(2) force_request_error [OF assms(1), of codec r s code e s']
  by (auto simp: ui_serve_def handleForget_def handleForceClear_def host_action_def handleReset_def
      writeScoreboard_def Let_def split: if_splits sum.splits prod.splits)

end

lemma scoreboard_ui_simps [simp]:
  "ub_Snapshot scoreboard_ui = sb_Snapshot" "ub_ForceSnapshot scoreboard_ui = ForceSnapshot"
  "ub_CooledHostsByUpstream scoreboard_ui = CooledHostsByUpstream"
  "ub_CascadeActiveCount scoreboard_ui = CascadeActiveCount" "ub_PoolIDs scoreboard_ui = PoolIDs"
  "ub_Forget scoreboard_ui = Forget" "ub_Force scoreboard_ui = Force"
  "ub_ClearForce scoreboard_ui = ClearForce" "ub_Reset scoreboard_ui = sb_Reset"
  by (simp_all add: scoreboard_ui_def)

lemma ui_pool_ids:
  "PoolIDs (snd (ForceSnapshot now s)) = PoolIDs s" "PoolIDs (snd (Forget host s)) = PoolIDs s"
  "PoolIDs (snd (Force now host uid until s)) = PoolIDs s" "PoolIDs (snd (ClearForce host s)) = PoolIDs s"
  "PoolIDs (sb_Reset s) = PoolIDs s"
  by (auto simp: PoolIDs_def ForceSnapshot_def Forget_def Force_def ClearForce_def sb_Reset_def Let_def split: option.splits)

interpretation sb_ui: ui_laws scoreboard_ui "sb_inv C" for C
proof unfold_locales
  show "fst (ub_Force scoreboard_ui now host uid until s) \<noteq> None \<Longrightarrow> snd (ub_Force scoreboard_ui now host uid until s) = s"
    for now host uid until s by (auto simp: Force_def split: if_splits)
  show "host \<noteq> [] \<Longrightarrow> uid \<noteq> [] \<Longrightarrow> fst (ub_Force scoreboard_ui now host uid until s) \<in> {None, Some ErrUnknownUpstream}"
    for now host uid until s by (simp add: Force_def)
qed (simp_all add: inv_intros ui_pool_ids)

subsection \<open>Answers and the scoreboard\<close>


subsection \<open>Pins\<close>

lemma resolveForceUntil_future:
  assumes "resolveForceUntil pd pt ds us now = Inr until" shows "now < until"
  using assms by (auto simp: resolveForceUntil_def Let_def time_add_def after_def split: if_splits sum.splits)

lemma Force_elsewhere:
  assumes "host \<noteq> h"
  shows "fst (Pick t d host tried (snd (Force now h uid until s))) = fst (Pick t d host tried s)"
  by (rule Pick_host_cong)
    (use assms in \<open>auto simp: Force_def cascadeActive_def intro!: pin_for_cong\<close>)

lemma Force_pinned:
  assumes "Force now h uid until s = (None, s')" and "now < until" and "t < until" and "uid \<notin> set tried"
    and "\<not> cascadeActive s h t"
  shows "\<exists>up. fst (Pick t d h tried s') = Inr up \<and> up_id up = uid"
proof -
  have has: "HasUpstream s uid" and s': "s' = s\<lparr>sb_forces := fmupd h \<lparr>fo_upstream_id = uid, fo_until = until\<rparr> (sb_forces s)\<rparr>"
    using assms(1,2) by (auto simp: Force_def after_def HasUpstream_def split: if_splits)
  have p: "pin_for s' t h tried = Some uid"
    using s' has assms(3,4) by (simp add: pin_for_def after_def HasUpstream_def)
  have "\<not> cascadeActive s' h t" using assms(5) s' by (simp add: cascadeActive_def)
  then obtain up where "fst (Pick t d h tried s') = Inr up" using p by (simp add: Pick_unfold)
  then show ?thesis using Pick_pin_result(1) [OF _ p] by (metis prod.collapse)
qed


subsection \<open>Forgetting and resetting\<close>

text \<open>A scoreboard that never saw the host.\<close>

definition never_saw :: "string \<Rightarrow> scoreboard \<Rightarrow> scoreboard" where
  "never_saw h s =
     s\<lparr>sb_entries := fmfilter (\<lambda>k. k \<noteq> h) (sb_entries s), sb_cascade := fmfilter (\<lambda>k. k \<noteq> h) (sb_cascade s),
       sb_debounce := fmfilter (\<lambda>k. fst k \<noteq> h) (sb_debounce s)\<rparr>"

lemma Forget_never_saw: "h \<noteq> [] \<Longrightarrow> snd (Forget h s) = never_saw h s"
  by (simp add: Forget_def never_saw_def Let_def fmfilter_alt_defs)

lemma never_saw_elsewhere:
  "host \<noteq> h \<Longrightarrow> fst (Pick t d host tried (never_saw h s)) = fst (Pick t d host tried s)"
  by (rule Pick_host_cong) (auto simp: never_saw_def entry_at_def cascadeActive_def intro!: pin_for_cong)

lemma never_saw_fresh:
  "fst (Pick t d h tried (never_saw h s)) =
     fst (Pick t d h tried (s\<lparr>sb_entries := fmempty, sb_cascade := fmempty, sb_debounce := fmempty\<rparr>))"
  by (rule Pick_host_cong) (auto simp: never_saw_def entry_at_def cascadeActive_def intro!: pin_for_cong)

text \<open>
  C33: after a 200 to the forget action the host is routed as on a scoreboard that has learned nothing,
  its next failure counts at once, its pin stays, and every other host is routed as before; the answer says
  whether anything was there.
\<close>

theorem forget_makes_fresh:
  assumes "\<forall>i t. ue_others env i t = t" and "uq_path r = ''/api/forget''"
    and "ui_serve codec env scoreboard_ui r s = (UIRemoved removed, s')"
  shows "\<exists>host0 h. decodeJSONBody (uc_host codec) (uq_body r) = Inr host0 \<and> h = trim_space host0 \<and> h \<noteq> [] \<and>
           (\<forall>t d tried. fst (Pick t d h tried s') =
              fst (Pick t d h tried (s\<lparr>sb_entries := fmempty, sb_cascade := fmempty, sb_debounce := fmempty\<rparr>))) \<and>
           (\<forall>uid k now w. fst (acceptForDebounce (h, uid, k) now w (sb_debounce s'))) \<and>
           sb_forces s' = sb_forces s \<and>
           (\<forall>host t d tried. host \<noteq> h \<longrightarrow> fst (Pick t d host tried s') = fst (Pick t d host tried s)) \<and>
           (removed = False \<longrightarrow> s' = s)"
proof -
  obtain host0 where b: "decodeJSONBody (uc_host codec) (uq_body r) = Inr host0" "trim_space host0 \<noteq> []"
      and f: "Forget (trim_space host0) s = (removed, s')"
    using assms by (auto simp: ui_serve_def handleForget_def host_action_def Let_def split: if_splits sum.splits prod.splits)
  let ?h = "trim_space host0"
  have s': "s' = never_saw ?h s" using Forget_never_saw [OF b(2), of s] f by simp
  have "fst (acceptForDebounce (?h, uid, k) now w (sb_debounce s'))" for uid k now w
    by (simp add: s' never_saw_def acceptForDebounce_def)
  moreover have "sb_forces s' = sb_forces s" by (simp add: s' never_saw_def)
  moreover have "s' = s" if "removed = False"
  proof -
    from that have n: "fmlookup (sb_entries s) ?h = None" "fmlookup (sb_cascade s) ?h = None"
        "\<forall>k \<in> fset (fmdom (sb_debounce s)). fst k \<noteq> ?h"
      using f b(2) by (auto simp: Forget_def Let_def)
    have "fmdrop ?h (sb_entries s) = sb_entries s" "fmdrop ?h (sb_cascade s) = sb_cascade s"
      using n by (auto intro!: fmap_ext)
    moreover have "fmfilter (\<lambda>k. fst k \<noteq> ?h) (sb_debounce s) = sb_debounce s"
      using n(3) by (intro fmap_ext) (auto simp: fmlookup_dom_iff)
    ultimately show ?thesis using f b(2) by (simp add: Forget_def Let_def)
  qed
  moreover have "\<forall>t d tried. fst (Pick t d ?h tried s') =
      fst (Pick t d ?h tried (s\<lparr>sb_entries := fmempty, sb_cascade := fmempty, sb_debounce := fmempty\<rparr>))"
    unfolding s' by (intro allI never_saw_fresh)
  moreover have "\<forall>host t d tried. host \<noteq> ?h \<longrightarrow> fst (Pick t d host tried s') = fst (Pick t d host tried s)"
    unfolding s' by (intro allI impI never_saw_elsewhere)
  ultimately show ?thesis using b by (intro exI [of _ host0] exI [of _ ?h]) simp
qed

subsection \<open>The view\<close>

lemma pin_for_live:
  assumes "now \<le> t"
  shows "pin_for (s\<lparr>sb_forces := live_forces now (sb_forces s)\<rparr>) t host tried = pin_for s t host tried"
  using assms by (auto simp: pin_for_def live_forces_def HasUpstream_def after_def split: option.splits)

lemma sb_Snapshot_entries:
  assumes "range_ok ord"
  shows "v \<in> set (sb_Snapshot ord s) \<longleftrightarrow>
           (\<exists>e. entry_at (sb_entries s) (ev_host v) (ev_upstream_id v) = Some e \<and>
                v = entry_view_of (ev_host v) (ev_upstream_id v) e)"
proof -
  have set: "set (ord l k) = fset k" for l k using assms by (simp add: range_ok_def)
  have "v \<in> set (sb_Snapshot ord s) \<longleftrightarrow>
      (\<exists>host m uid e. fmlookup (sb_entries s) host = Some m \<and> fmlookup m uid = Some e \<and> v = entry_view_of host uid e)"
    by (force simp: sb_Snapshot_def Let_def set fmlookup_dom_iff)
  then show ?thesis by (auto simp: entry_at_def entry_view_of_def split: option.splits)
qed

lemma sb_Snapshot_distinct:
  assumes "range_ok ord"
  shows "distinct (map (\<lambda>v. (ev_host v, ev_upstream_id v)) (sb_Snapshot ord s))"
proof -
  have d: "distinct (ord l k)" for l k using assms by (simp add: range_ok_def)
  have keys: "map (\<lambda>v. (ev_host v, ev_upstream_id v))
      (concat (map (\<lambda>host. map (\<lambda>uid. entry_view_of host uid (g host uid)) (us host)) hs)) =
      concat (map (\<lambda>host. map (Pair host) (us host)) hs)" for hs us g
    by (induction hs) (simp_all add: entry_view_of_def)
  have "distinct (concat (map (\<lambda>host. map (Pair host) (us host)) hs))"
    if "distinct hs" "\<And>h. distinct (us h)" for hs :: "string list" and us :: "string \<Rightarrow> string list"
    using that(1) by (induction hs) (auto simp: distinct_map that(2) inj_on_def)
  with d show ?thesis unfolding sb_Snapshot_def Let_def keys by simp
qed

lemma action_no_view:
  "fst (host_action codec r act env s) \<noteq> UIScoreboard v" "fst (handleForce codec env be r s) \<noteq> UIScoreboard v"
  "fst (handleReset env be r s) \<noteq> UIScoreboard v"
  by (auto simp: host_action_def handleForce_def force_reply_def handleReset_def Let_def
      split: sum.splits prod.splits option.splits force_error.splits)

lemma view_route:
  assumes "ui_serve codec env be r s = (UIScoreboard v, s')"
  shows "uq_path r = ''/api/scoreboard'' \<and> (UIScoreboard v, s') = writeScoreboard env be s"
  using assms action_no_view(1) [of codec r _ env s v] action_no_view(2) [of codec env be r s v]
    action_no_view(3) [of env be r s v]
  by (auto simp: ui_serve_def handleForget_def handleForceClear_def Let_def split: if_splits) (metis fst_conv)+

text \<open>
  C34: the view lists every entry of the scoreboard once with its score, cooldown and counters, exactly the live
  pins, ordered by host, and the pool; and asking for it is invisible to routing: every later pick gives the same answer.
\<close>

theorem view_faithful_invisible:
  assumes "\<forall>i t. ue_others env i t = t" and "range_ok (ue_order env)"
    and "ui_serve codec env scoreboard_ui r s = (UIScoreboard v, s')"
  shows "(\<forall>x. x \<in> set (sr_entries v) \<longleftrightarrow>
            (\<exists>e. entry_at (sb_entries s) (ev_host x) (ev_upstream_id x) = Some e \<and>
                 x = entry_view_of (ev_host x) (ev_upstream_id x) e)) \<and>
         distinct (map (\<lambda>x. (ev_host x, ev_upstream_id x)) (sr_entries v)) \<and>
         (\<forall>h f. (h, f) \<in> set (sr_forces v) \<longleftrightarrow> fmlookup (sb_forces s) h = Some f \<and> ue_clock env 0 < fo_until f) \<and>
         sorted (map fst (sr_forces v)) \<and> sr_pool_ids v = PoolIDs s \<and>
         (\<forall>t d host tried. ue_clock env 0 \<le> t \<longrightarrow> fst (Pick t d host tried s') = fst (Pick t d host tried s))"
proof -
  let ?live = "live_forces (ue_clock env 0) (sb_forces s)"
  have "uq_path r = ''/api/scoreboard'' \<and> (UIScoreboard v, s') = writeScoreboard env scoreboard_ui s"
    using assms(3) by (rule view_route)
  then have v: "sr_entries v = sb_Snapshot (ue_order env) s"
      "sr_forces v = map (\<lambda>host. (host, the (fmlookup ?live host))) (sorted_list_of_fset (fmdom ?live))"
      "sr_pool_ids v = PoolIDs s" "s' = s\<lparr>sb_forces := ?live\<rparr>"
    using assms(1) by (simp_all add: writeScoreboard_def ForceSnapshot_def PoolIDs_def Let_def)
  have live: "fmlookup ?live h = Some f \<longleftrightarrow> fmlookup (sb_forces s) h = Some f \<and> ue_clock env 0 < fo_until f" for h f
    by (auto simp: live_forces_def after_def)
  have "(h, f) \<in> set (sr_forces v) \<longleftrightarrow> fmlookup ?live h = Some f" for h f
    unfolding v(2) by (auto simp: sorted_list_of_fset.rep_eq fmlookup_dom_iff)
  then have "\<forall>h f. (h, f) \<in> set (sr_forces v) \<longleftrightarrow> fmlookup (sb_forces s) h = Some f \<and> ue_clock env 0 < fo_until f"
    unfolding live by blast
  moreover have "sorted (map fst (sr_forces v))"
    unfolding v(2) by (simp add: comp_def sorted_list_of_fset.rep_eq)
  moreover have "fst (Pick t d host tried s') = fst (Pick t d host tried s)" if "ue_clock env 0 \<le> t" for t d host tried
    unfolding v(4) by (rule Pick_host_cong) (simp_all add: cascadeActive_def pin_for_live [OF that])
  ultimately show ?thesis
    unfolding v(1,3) using sb_Snapshot_distinct [OF assms(2)]
    by (intro conjI allI impI sb_Snapshot_entries [OF assms(2)]) simp_all
qed

end
