(* ===== verification/Socks.thy ===== *)
theory Socks
  imports HttpListener Systems
begin

text \<open>
  The SOCKS5 listener, \<open>internal/listener/socks.go\<close>: the dial callback with its outcome counter, and the life of the
  server as a transition system of three kinds of goroutines: \<open>Serve\<close>, the handlers of the accepted connections, and
  \<open>Shutdown\<close>. The SOCKS5 protocol library, the network and the contexts are parameters and choices of the steps.
\<close>

subsection \<open>Construction and dialling\<close>

record socks_config =
  sx_addr :: string
  sx_metrics :: "listener_metric list option"

text \<open>A nil scoreboard is the flag \<open>haveSb = False\<close>; \<open>lib\<close> is the outcome of building the protocol server.\<close>

definition NewSOCKS :: "string \<Rightarrow> bool \<Rightarrow> bool option \<Rightarrow> goerr option \<Rightarrow> goerr + socks_config" where
  "NewSOCKS addr haveSb withMetrics lib =
     (if \<not> haveSb then Inl (errorf ''listener.NewSOCKS: scoreboard is nil'')
      else (case lib of
              Some e \<Rightarrow> Inl (errorf_w ''build socks5 server'' e)
            | None \<Rightarrow> Inr \<lparr>sx_addr = addr, sx_metrics = (if withMetrics = Some True then Some [] else None)\<rparr>))"

definition socks_observe :: "string \<Rightarrow> socks_config \<Rightarrow> socks_config" where
  "socks_observe outcome c = c\<lparr>sx_metrics := map_option (\<lambda>ms. ms @ [LOutcome outcome]) (sx_metrics c)\<rparr>"

text \<open>The error of a dial that ended without a connection.\<close>

definition dial_error :: "'c dial_end \<Rightarrow> goerr option" where
  "dial_error r = (case r of Connected _ _ \<Rightarrow> None | Cooling e \<Rightarrow> Some e | Bailed e \<Rightarrow> Some e | Exhausted e \<Rightarrow> Some e)"

definition dial_outcome :: "'c dial_end \<Rightarrow> string" where
  "dial_outcome r =
     (case dial_error r of
        None \<Rightarrow> ''success''
      | Some e \<Rightarrow> if errors_is e ErrCascadeCooling then ''cascade'' else ''exhausted'')"

definition socks_Dial ::
    "(nat \<Rightarrow> 'c attempt_env) \<Rightarrow> time \<Rightarrow> time \<Rightarrow> string \<Rightarrow> scoreboard \<times> socks_config \<Rightarrow>
     (goerr + 'c) \<times> string list \<times> scoreboard \<times> socks_config" where
  "socks_Dial env startNow tripNow addr w =
     (let (s, c) = w; (r, dialled, s') = DialFor env startNow tripNow addr s
      in ((case r of Connected conn _ \<Rightarrow> Inr conn | Cooling e \<Rightarrow> Inl e | Bailed e \<Rightarrow> Inl e | Exhausted e \<Rightarrow> Inl e),
          dialled, s', socks_observe (dial_outcome r) c))"

subsection \<open>The server\<close>

text \<open>Connections are numbered. The positions of \<open>Serve\<close> and \<open>Shutdown\<close>, and the listener.\<close>

datatype lis = NoListener | Listening | LisClosed

datatype serve_pc =
    NotServing
  | Accepting
  | Accepted nat     \<comment> \<open>returned by \<open>Accept\<close>, not yet counted\<close>
  | Counted nat      \<comment> \<open>after \<open>wg.Add\<close>\<close>
  | Registered nat   \<comment> \<open>after \<open>registerConn\<close>, before the handler starts\<close>
  | ServeReturned "goerr option"

datatype shut_pc =
    NotShut
  | WaitReady
  | CloseListener
  | Draining "goerr option"   \<comment> \<open>with the error of closing the listener\<close>
  | ForceClosing "goerr option"
  | Grace "goerr option"
  | ShutReturned "goerr option"

record socks_server =
  ss_done :: bool
  ss_ready :: bool
  ss_bind_err :: "goerr option"
  ss_lis :: lis
  ss_serve :: serve_pc
  ss_shut :: shut_pc
  ss_wg :: "nat fset"       \<comment> \<open>the connections that count in \<open>wg\<close>\<close>
  ss_conns :: "nat fset"
  ss_handled :: "nat fset"  \<comment> \<open>those whose handler goroutine was started\<close>
  ss_closed :: "nat fset"
  ss_drained :: bool        \<comment> \<open>\<open>wg.Wait\<close> has returned\<close>

definition socks_init :: socks_server where
  "socks_init =
     \<lparr>ss_done = False, ss_ready = False, ss_bind_err = None, ss_lis = NoListener, ss_serve = NotServing,
      ss_shut = NotShut, ss_wg = {||}, ss_conns = {||}, ss_handled = {||}, ss_closed = {||}, ss_drained = False\<rparr>"

definition registerConn :: "nat \<Rightarrow> socks_server \<Rightarrow> socks_server" where
  "registerConn c s = s\<lparr>ss_conns := finsert c (ss_conns s)\<rparr>"

definition unregisterConn :: "nat \<Rightarrow> socks_server \<Rightarrow> socks_server" where
  "unregisterConn c s = s\<lparr>ss_conns := ss_conns s |-| {|c|}\<rparr>"

definition snapshotConns :: "socks_server \<Rightarrow> nat fset" where "snapshotConns s = ss_conns s"
definition ActiveConns :: "socks_server \<Rightarrow> nat" where "ActiveConns s = fcard (ss_conns s)"
definition markDone :: "socks_server \<Rightarrow> socks_server" where "markDone s = s\<lparr>ss_done := True\<rparr>"
definition isShuttingDown :: "socks_server \<Rightarrow> bool" where "isShuttingDown s = ss_done s"

definition accept_failed :: "bool \<Rightarrow> goerr \<Rightarrow> socks_server \<Rightarrow> goerr option" where
  "accept_failed net_closed e s =
     (if isShuttingDown s \<and> net_closed then None else Some (errorf_w ''socks accept'' e))"

text \<open>
  \<open>Serve\<close>. \<open>Accept\<close> gives new connections from an open listener only, and fails with \<open>net.ErrClosed\<close> on a
  closed one; it can fail otherwise too.
\<close>

inductive serve_step :: "socks_server \<Rightarrow> socks_server \<Rightarrow> bool" where
  bind: "ss_serve s = NotServing \<Longrightarrow>
    serve_step s (s\<lparr>ss_lis := Listening, ss_ready := True, ss_serve := Accepting\<rparr>)"
| bind_fail: "ss_serve s = NotServing \<Longrightarrow>
    serve_step s (s\<lparr>ss_bind_err := Some (errorf_w ''socks listen'' e), ss_ready := True,
      ss_serve := ServeReturned (Some (errorf_w ''socks listen'' e))\<rparr>)"
| accept: "ss_serve s = Accepting \<Longrightarrow> ss_lis s = Listening \<Longrightarrow> c |\<notin>| ss_wg s \<Longrightarrow> c |\<notin>| ss_handled s \<Longrightarrow>
    serve_step s (s\<lparr>ss_serve := Accepted c\<rparr>)"
| accept_closed: "ss_serve s = Accepting \<Longrightarrow> ss_lis s = LisClosed \<Longrightarrow>
    serve_step s (s\<lparr>ss_serve := ServeReturned (accept_failed True e s)\<rparr>)"
| accept_error: "ss_serve s = Accepting \<Longrightarrow>
    serve_step s (s\<lparr>ss_serve := ServeReturned (accept_failed False e s)\<rparr>)"
| count: "ss_serve s = Accepted c \<Longrightarrow>
    serve_step s (s\<lparr>ss_wg := finsert c (ss_wg s), ss_serve := Counted c\<rparr>)"
| register: "ss_serve s = Counted c \<Longrightarrow> serve_step s ((registerConn c s)\<lparr>ss_serve := Registered c\<rparr>)"
| spawn: "ss_serve s = Registered c \<Longrightarrow>
    serve_step s (s\<lparr>ss_handled := finsert c (ss_handled s), ss_serve := Accepting\<rparr>)"

text \<open>The deferred calls of a handler whose \<open>ServeConn\<close> ended, last one first.\<close>

inductive handler_step :: "socks_server \<Rightarrow> socks_server \<Rightarrow> bool" where
  handler_close: "c |\<in>| ss_handled s \<Longrightarrow> c |\<in>| ss_conns s \<Longrightarrow> handler_step s (s\<lparr>ss_closed := finsert c (ss_closed s)\<rparr>)"
| handler_unregister: "c |\<in>| ss_handled s \<Longrightarrow> c |\<in>| ss_closed s \<Longrightarrow> handler_step s (unregisterConn c s)"
| handler_done: "c |\<in>| ss_handled s \<Longrightarrow> c |\<in>| ss_wg s \<Longrightarrow> c |\<notin>| ss_conns s \<Longrightarrow>
    handler_step s (s\<lparr>ss_wg := ss_wg s |-| {|c|}\<rparr>)"

text \<open>\<open>Shutdown\<close>; \<open>ctx\<close> is the error of a context that ended, \<open>e\<close> that of closing the listener, None for \<open>net.ErrClosed\<close>.\<close>

inductive shutdown_step :: "socks_server \<Rightarrow> socks_server \<Rightarrow> bool" where
  mark: "ss_shut s = NotShut \<Longrightarrow> shutdown_step s ((markDone s)\<lparr>ss_shut := WaitReady\<rparr>)"
| ready: "ss_shut s = WaitReady \<Longrightarrow> ss_ready s \<Longrightarrow> shutdown_step s (s\<lparr>ss_shut := CloseListener\<rparr>)"
| ready_ctx: "ss_shut s = WaitReady \<Longrightarrow> shutdown_step s (s\<lparr>ss_shut := ShutReturned (Some ctx)\<rparr>)"
| no_listener: "ss_shut s = CloseListener \<Longrightarrow> ss_lis s = NoListener \<Longrightarrow>
    shutdown_step s (s\<lparr>ss_shut := Draining None\<rparr>)"
| close: "ss_shut s = CloseListener \<Longrightarrow> ss_lis s \<noteq> NoListener \<Longrightarrow>
    shutdown_step s (s\<lparr>ss_lis := LisClosed, ss_shut := Draining e\<rparr>)"
| drained: "ss_shut s \<in> {Draining e, ForceClosing e, Grace e} \<Longrightarrow> ss_wg s = {||} \<Longrightarrow> \<not> ss_drained s \<Longrightarrow>
    shutdown_step s (s\<lparr>ss_drained := True\<rparr>)"
| drain_return: "ss_shut s = Draining e \<Longrightarrow> ss_drained s \<Longrightarrow> shutdown_step s (s\<lparr>ss_shut := ShutReturned e\<rparr>)"
| drain_ctx: "ss_shut s = Draining e \<Longrightarrow> shutdown_step s (s\<lparr>ss_shut := ForceClosing e\<rparr>)"
| force_close: "ss_shut s = ForceClosing e \<Longrightarrow>
    shutdown_step s (s\<lparr>ss_closed := ss_closed s |\<union>| snapshotConns s, ss_shut := Grace e\<rparr>)"
| grace_over: "ss_shut s = Grace e \<Longrightarrow>
    shutdown_step s (s\<lparr>ss_shut := ShutReturned (if e = None then Some ctx else e)\<rparr>)"

definition socks_step :: "socks_server \<Rightarrow> socks_server \<Rightarrow> bool" where
  "socks_step s s' \<longleftrightarrow> serve_step s s' \<or> handler_step s s' \<or> shutdown_step s s'"

inductive_cases serve_stepE: "serve_step s s'"
inductive_cases handler_stepE: "handler_step s s'"
inductive_cases shutdown_stepE: "shutdown_step s s'"

subsection \<open>What holds in every state\<close>

text \<open>The connection in the hands of \<open>Serve\<close>, and all connections accepted and not finished.\<close>

definition held :: "socks_server \<Rightarrow> nat fset" where
  "held s = (case ss_serve s of Accepted c \<Rightarrow> {|c|} | Counted c \<Rightarrow> {|c|} | Registered c \<Rightarrow> {|c|} | _ \<Rightarrow> {||})"

definition in_flight :: "socks_server \<Rightarrow> nat fset" where
  "in_flight s = ss_wg s |\<union>| held s"

definition serve_ok :: "socks_server \<Rightarrow> bool" where
  "serve_ok s \<longleftrightarrow>
     (case ss_serve s of
        NotServing \<Rightarrow> \<not> ss_ready s \<and> ss_lis s = NoListener
      | Accepted c \<Rightarrow> c |\<notin>| ss_wg s \<and> c |\<notin>| ss_handled s \<and> ss_lis s \<noteq> NoListener
      | Counted c \<Rightarrow> c |\<in>| ss_wg s \<and> c |\<notin>| ss_conns s \<and> c |\<notin>| ss_handled s \<and> ss_lis s \<noteq> NoListener
      | Registered c \<Rightarrow> c |\<in>| ss_conns s \<and> c |\<notin>| ss_handled s \<and> ss_lis s \<noteq> NoListener
      | Accepting \<Rightarrow> ss_lis s \<noteq> NoListener
      | ServeReturned e \<Rightarrow> ss_ready s \<and> (e = None \<longrightarrow> ss_done s)) \<and>
     (ss_lis s \<noteq> NoListener \<longrightarrow> ss_ready s) \<and> ss_conns s |\<subseteq>| ss_wg s \<and>
     (\<forall>c. c |\<in>| ss_wg s \<longrightarrow> (c |\<in>| ss_handled s \<and> (c |\<in>| ss_conns s \<or> c |\<in>| ss_closed s)) \<or> c |\<in>| held s)"

definition past_close :: "socks_server \<Rightarrow> bool" where
  "past_close s \<longleftrightarrow> (\<exists>e. ss_shut s \<in> {Draining e, ForceClosing e, Grace e}) \<or> ss_drained s"

definition few :: "nat fset \<Rightarrow> bool" where "few A \<longleftrightarrow> (\<exists>c. A |\<subseteq>| {|c|})"

definition shut_ok :: "socks_server \<Rightarrow> bool" where
  "shut_ok s \<longleftrightarrow>
     (ss_shut s \<noteq> NotShut \<longrightarrow> ss_done s) \<and>
     (ss_shut s = CloseListener \<longrightarrow> ss_ready s) \<and>
     (past_close s \<longrightarrow> ss_ready s \<and> ss_lis s \<noteq> Listening) \<and>
     (ss_drained s \<longrightarrow> few (in_flight s)) \<and>
     (ss_shut s = ShutReturned None \<longrightarrow> ss_drained s) \<and>
     (\<forall>e. ss_shut s = Grace e \<longrightarrow> few (in_flight s |-| ss_closed s))"

definition socks_inv :: "socks_server \<Rightarrow> bool" where
  "socks_inv s \<longleftrightarrow> serve_ok s \<and> shut_ok s"

lemma few_empty [simp]: "few {||}"
  by (simp add: few_def)

lemma few_mono: "A |\<subseteq>| B \<Longrightarrow> few B \<Longrightarrow> few A"
  unfolding few_def by blast

lemma few_held: "A |\<subseteq>| held s \<Longrightarrow> few A"
  by (auto simp: few_def held_def split: serve_pc.splits)

lemma few_card:
  assumes "few A" shows "fcard A \<le> 1"
proof -
  from assms obtain c where "A |\<subseteq>| {|c|}" by (auto simp: few_def)
  from fcard_mono [OF this] show ?thesis by (simp add: fcard.rep_eq)
qed

lemmas socks_defs = serve_ok_def shut_ok_def past_close_def held_def in_flight_def

lemma serve_step_ok:
  assumes "serve_step s s'" and "serve_ok s" shows "serve_ok s'"
  using assms(1)
proof (cases rule: serve_step.cases)
  case (accept c)
  then show ?thesis using assms(2) by (auto simp: serve_ok_def held_def)
next
  case (count c)
  then show ?thesis using assms(2) by (auto simp: serve_ok_def held_def)
next
  case (register c)
  then show ?thesis using assms(2) by (auto simp: serve_ok_def held_def registerConn_def)
next
  case (spawn c)
  then show ?thesis using assms(2) by (auto simp: serve_ok_def held_def)
qed (use assms(2) in \<open>simp_all add: serve_ok_def held_def accept_failed_def isShuttingDown_def\<close>)

lemma handler_step_ok:
  assumes "handler_step s s'" and "serve_ok s" shows "serve_ok s'"
  using assms
  by (cases rule: handler_step.cases; cases "ss_serve s"; simp add: serve_ok_def held_def unregisterConn_def) auto

lemma shutdown_step_ok:
  assumes "shutdown_step s s'" and "serve_ok s" shows "serve_ok s'"
  using assms
  by (cases rule: shutdown_step.cases; cases "ss_serve s"; simp add: serve_ok_def held_def markDone_def snapshotConns_def)
    auto

text \<open>Only \<open>Accept\<close> on an open listener adds to the connections in flight; closing marks stay.\<close>

lemma serve_step_flight:
  assumes "serve_step s s'" and "serve_ok s" and "ss_ready s" and "ss_lis s \<noteq> Listening"
  shows "in_flight s' |\<subseteq>| in_flight s" and "ss_lis s' \<noteq> Listening" and "ss_ready s'"
  using assms
  by (cases rule: serve_step.cases; auto simp: serve_ok_def held_def in_flight_def registerConn_def)+

lemma serve_step_frame:
  assumes "serve_step s s'"
  shows "ss_shut s' = ss_shut s" "ss_done s' = ss_done s" "ss_closed s' = ss_closed s" "ss_drained s' = ss_drained s"
    and "ss_ready s \<Longrightarrow> ss_ready s'"
  using assms by (cases rule: serve_step.cases; simp add: registerConn_def)+

lemma handler_step_frame:
  assumes "handler_step s s'"
  shows "ss_shut s' = ss_shut s" "ss_done s' = ss_done s" "ss_closed s |\<subseteq>| ss_closed s'" "ss_drained s' = ss_drained s"
    "ss_ready s' = ss_ready s" "ss_lis s' = ss_lis s" "in_flight s' |\<subseteq>| in_flight s"
  using assms by (cases rule: handler_step.cases; auto simp: unregisterConn_def in_flight_def held_def)+

lemma shut_ok_other:
  assumes "shut_ok s" and "ss_shut s' = ss_shut s" and "ss_done s' = ss_done s" and "ss_drained s' = ss_drained s"
    and "ss_ready s \<Longrightarrow> ss_ready s'" and "ss_closed s |\<subseteq>| ss_closed s'"
    and "past_close s \<Longrightarrow> ss_lis s' \<noteq> Listening \<and> in_flight s' |\<subseteq>| in_flight s"
  shows "shut_ok s'"
proof -
  have p: "past_close s' = past_close s" using assms(2,4) by (simp add: past_close_def)
  have "few (in_flight s')" if "ss_drained s'"
    using assms(1,4,7) that few_mono by (auto simp: shut_ok_def past_close_def)
  moreover have "few (in_flight s' |-| ss_closed s')" if "ss_shut s' = Grace e" for e
  proof -
    from that have "past_close s" "few (in_flight s |-| ss_closed s)"
      using assms(1,2) by (auto simp: shut_ok_def past_close_def)
    then show ?thesis using assms(6,7) by (elim few_mono [rotated]) auto
  qed
  ultimately show ?thesis using assms p unfolding shut_ok_def by metis
qed

lemma shutdown_step_shut_ok:
  assumes "shutdown_step s s'" and "serve_ok s" and "shut_ok s" shows "shut_ok s'"
  using assms(1)
proof (cases rule: shutdown_step.cases)
  case mark
  then show ?thesis using assms(3) by (auto simp: shut_ok_def past_close_def markDone_def in_flight_def held_def)
next
  case (drained e)
  have "few (in_flight s)" using drained(3) few_held [of "in_flight s" s] by (simp add: in_flight_def)
  then show ?thesis using assms(3) drained by (auto simp: shut_ok_def past_close_def in_flight_def held_def)
next
  case (force_close e)
  have "in_flight s |-| (ss_closed s |\<union>| ss_conns s) |\<subseteq>| held s"
    using assms(2) by (auto simp: serve_ok_def in_flight_def)
  then have "few (in_flight s |-| (ss_closed s |\<union>| ss_conns s))" by (rule few_held)
  then show ?thesis
    using assms(3) force_close by (auto simp: shut_ok_def past_close_def in_flight_def held_def snapshotConns_def)
next
  case (no_listener)
  then show ?thesis using assms(3) by (auto simp: shut_ok_def past_close_def in_flight_def held_def)
next
  case (close e)
  then show ?thesis using assms(2,3) by (auto simp: shut_ok_def past_close_def in_flight_def held_def)
qed (use assms(2,3) in \<open>auto simp: shut_ok_def past_close_def in_flight_def held_def\<close>)

lemma socks_step_inv:
  assumes "socks_step s s'" and "socks_inv s" shows "socks_inv s'"
proof -
  have inv: "serve_ok s" "shut_ok s" using assms(2) by (simp_all add: socks_inv_def)
  consider "serve_step s s'" | "handler_step s s'" | "shutdown_step s s'" using assms(1) by (auto simp: socks_step_def)
  then show ?thesis
  proof cases
    case 1
    have "ss_ready s \<and> ss_lis s \<noteq> Listening" if "past_close s" using inv(2) that by (simp add: shut_ok_def)
    then have "shut_ok s'"
      using shut_ok_other [OF inv(2) serve_step_frame(1,2,4) [OF 1] serve_step_frame(5) [OF 1]]
        serve_step_flight [OF 1 inv(1)] serve_step_frame(3) [OF 1] by simp
    then show ?thesis using serve_step_ok [OF 1 inv(1)] by (simp add: socks_inv_def)
  next
    case 2
    have "ss_lis s \<noteq> Listening" if "past_close s" using inv(2) that by (simp add: shut_ok_def)
    then have "shut_ok s'"
      using shut_ok_other [OF inv(2) handler_step_frame(1,2,4) [OF 2]] handler_step_frame [OF 2] by simp
    then show ?thesis using handler_step_ok [OF 2 inv(1)] by (simp add: socks_inv_def)
  next
    case 3
    then show ?thesis using shutdown_step_ok shutdown_step_shut_ok inv by (simp add: socks_inv_def)
  qed
qed

interpretation socks: invariant_system "\<lambda>s. s = socks_init" socks_step socks_inv
proof unfold_locales
  show "s = socks_init \<Longrightarrow> socks_inv s" for s
    by (simp add: socks_inv_def serve_ok_def shut_ok_def past_close_def socks_init_def)
qed (rule socks_step_inv)

text \<open>\<open>Shutdown\<close> can always go on, and each of its steps brings it closer to its return.\<close>

definition shut_rank :: "socks_server \<Rightarrow> nat" where
  "shut_rank s =
     2 * (case ss_shut s of NotShut \<Rightarrow> 6 | WaitReady \<Rightarrow> 5 | CloseListener \<Rightarrow> 4 | Draining _ \<Rightarrow> 3 | ForceClosing _ \<Rightarrow> 2
          | Grace _ \<Rightarrow> 1 | ShutReturned _ \<Rightarrow> 0) + (if ss_drained s then 0 else 1)"

lemma shutdown_step_rank: "shutdown_step s s' \<Longrightarrow> shut_rank s' < shut_rank s"
  by (cases rule: shutdown_step.cases) (auto simp: shut_rank_def markDone_def)

lemma shutdown_step_possible:
  assumes "\<nexists>e. ss_shut s = ShutReturned e" shows "\<exists>s'. shutdown_step s s'"
proof (cases "ss_shut s")
  case CloseListener
  then show ?thesis using shutdown_step.no_listener shutdown_step.close by (cases "ss_lis s = NoListener") blast+
qed (use assms in \<open>auto intro: shutdown_step.mark shutdown_step.ready_ctx shutdown_step.drain_ctx shutdown_step.force_close
      shutdown_step.grace_over\<close>)

lemma shutdown_steps_rank: "(shutdown_step ^^ n) s s' \<Longrightarrow> shut_rank s' + n \<le> shut_rank s"
proof (induction n arbitrary: s')
  case (Suc n)
  then obtain t where "(shutdown_step ^^ n) s t" "shutdown_step t s'" by auto
  then show ?case using Suc.IH [of t] shutdown_step_rank [of t s'] by simp
qed simp

text \<open>
  C36: in every reachable state of the SOCKS listener the registry holds counted connections only; \<open>Serve\<close> returns without
  an error only after \<open>Shutdown\<close> began; when \<open>Shutdown\<close> has returned nil the listener is closed and at most one
  connection is still in flight, and when it force-closes, it closes all but at most one; \<open>Shutdown\<close> is never
  stuck and returns after at most 13 steps of its own.
\<close>

theorem socks_shutdown_sound:
  assumes "socks.reachable s"
  shows "ss_conns s |\<subseteq>| ss_wg s \<and>
         (ss_serve s = ServeReturned None \<longrightarrow> ss_done s) \<and>
         (ss_shut s = ShutReturned None \<longrightarrow> ss_done s \<and> ss_lis s \<noteq> Listening \<and> fcard (in_flight s) \<le> 1) \<and>
         (\<forall>e. ss_shut s = Grace e \<longrightarrow> fcard (in_flight s |-| ss_closed s) \<le> 1) \<and>
         ((\<nexists>e. ss_shut s = ShutReturned e) \<longrightarrow> (\<exists>s'. shutdown_step s s')) \<and>
         (\<forall>n s'. (shutdown_step ^^ n) s s' \<longrightarrow> n \<le> 13)"
proof -
  have "socks_inv s" by (rule socks.reachable_inv [OF assms])
  then have i: "serve_ok s" "shut_ok s" by (simp_all add: socks_inv_def)
  have "shut_rank s \<le> 13" by (simp add: shut_rank_def split: shut_pc.splits)
  then have "\<forall>n s'. (shutdown_step ^^ n) s s' \<longrightarrow> n \<le> 13" using shutdown_steps_rank by fastforce
  moreover have "ss_serve s = ServeReturned None \<longrightarrow> ss_done s" "ss_conns s |\<subseteq>| ss_wg s"
    using i(1) by (auto simp: serve_ok_def)
  ultimately show ?thesis
    using i(2) few_card shutdown_step_possible by (auto simp: shut_ok_def past_close_def)
qed

text \<open>
  \<open>Shutdown\<close> can return nil while a connection goes on to be served: \<open>Serve\<close> had taken it from the listener but not
  counted it yet, so that the wait for the handlers found nothing to wait for; it is not closed by \<open>Shutdown\<close>.
\<close>

theorem late_connection:
  "\<exists>s. socks.reachable s \<and> ss_shut s = ShutReturned None \<and> 0 |\<in>| ss_handled s \<and> 0 |\<in>| ss_conns s \<and> ss_closed s = {||}"
proof -
  let ?a = "socks_init\<lparr>ss_lis := Listening, ss_ready := True, ss_serve := Accepting\<rparr>"
  let ?b = "?a\<lparr>ss_serve := Accepted 0\<rparr>"
  let ?c = "(markDone ?b)\<lparr>ss_shut := WaitReady\<rparr>"
  let ?d = "?c\<lparr>ss_shut := CloseListener\<rparr>"
  let ?e = "?d\<lparr>ss_lis := LisClosed, ss_shut := Draining None\<rparr>"
  let ?f = "?e\<lparr>ss_drained := True\<rparr>"
  let ?g = "?f\<lparr>ss_shut := ShutReturned None\<rparr>"
  let ?h = "?g\<lparr>ss_wg := {|0|}, ss_serve := Counted 0\<rparr>"
  let ?i = "(registerConn 0 ?h)\<lparr>ss_serve := Registered 0\<rparr>"
  let ?j = "?i\<lparr>ss_handled := {|0|}, ss_serve := Accepting\<rparr>"
  note defs = socks_step_def socks_init_def markDone_def registerConn_def
  have "socks.reachable socks_init" by (auto simp: socks.reachable_def)
  then have "socks.reachable ?a" using serve_step.bind [of socks_init] by (elim socks.reachable_step) (simp add: defs)
  then have "socks.reachable ?b" using serve_step.accept [of ?a 0] by (elim socks.reachable_step) (simp add: defs)
  then have "socks.reachable ?c" using shutdown_step.mark [of ?b] by (elim socks.reachable_step) (simp add: defs)
  then have "socks.reachable ?d" using shutdown_step.ready [of ?c] by (elim socks.reachable_step) (simp add: defs)
  then have "socks.reachable ?e" using shutdown_step.close [of ?d None] by (elim socks.reachable_step) (simp add: defs)
  then have "socks.reachable ?f" using shutdown_step.drained [of ?e None] by (elim socks.reachable_step) (simp add: defs)
  then have "socks.reachable ?g" using shutdown_step.drain_return [of ?f None] by (elim socks.reachable_step) (simp add: defs)
  then have "socks.reachable ?h" using serve_step.count [of ?g 0] by (elim socks.reachable_step) (simp add: defs)
  then have "socks.reachable ?i" using serve_step.register [of ?h 0] by (elim socks.reachable_step) (simp add: defs)
  then have "socks.reachable ?j" using serve_step.spawn [of ?i 0] by (elim socks.reachable_step) (simp add: defs)
  then show ?thesis by (intro exI [of _ ?j]) (simp add: socks_init_def markDone_def registerConn_def)
qed

end
