(* ===== verification/Metrics.thy ===== *)
theory Metrics
  imports Control Reloader
begin

text \<open>
  The metrics registry, \<open>internal/metrics/metrics.go\<close>. The Prometheus collectors are what their documentation
  says: a counter vector counts per tuple of label values, a histogram keeps what it observed, a gauge vector holds the last
  value per label, \<open>Reset\<close> empties it. The events are those of the scoreboard, the listeners, the control endpoint,
  the persistence loop, the reloader and the pool composer.
\<close>

subsection \<open>Labels\<close>

definition OutcomeSuccess :: string where "OutcomeSuccess = ''success''"
definition OutcomeCascade :: string where "OutcomeCascade = ''cascade''"
definition OutcomeExhausted :: string where "OutcomeExhausted = ''exhausted''"
definition DialOutcomes :: "string list" where "DialOutcomes = [''success'', ''refused'', ''timeout'', ''other'']"
definition ResultSuccess :: string where "ResultSuccess = ''success''"
definition ResultError :: string where "ResultError = ''error''"

definition ReportRejects :: "string list" where
  "ReportRejects = [''bad_json'', ''missing_field'', ''unknown_outcome'', ''unknown_upstream'',
     ''scoreboard_unavailable'', ''auth_missing'', ''auth_failed'']"

subsection \<open>The registry\<close>

type_synonym counter_vec = "(string list, nat) fmap"

record registry =
  mr_DialAttempts :: counter_vec
  mr_DialLatency :: "(string list, duration list) fmap"
  mr_StatusFailures :: counter_vec
  mr_RequestOutcomes :: counter_vec
  mr_CascadeTrips :: nat
  mr_ProbePicks :: nat
  mr_PersistenceWrites :: counter_vec
  mr_ConfigReloads :: counter_vec
  mr_UpstreamPoolSize :: int
  mr_ScoreboardEntries :: int
  mr_UpstreamCooledHosts :: "(string list, int) fmap"
  mr_CascadeActiveHosts :: int
  mr_ReportsReceived :: counter_vec
  mr_ReportsRejected :: counter_vec
  mr_PoolHotSwaps :: counter_vec

definition metrics_New :: registry where
  "metrics_New =
     \<lparr>mr_DialAttempts = fmempty, mr_DialLatency = fmempty, mr_StatusFailures = fmempty, mr_RequestOutcomes = fmempty,
      mr_CascadeTrips = 0, mr_ProbePicks = 0, mr_PersistenceWrites = fmempty, mr_ConfigReloads = fmempty,
      mr_UpstreamPoolSize = 0, mr_ScoreboardEntries = 0, mr_UpstreamCooledHosts = fmempty, mr_CascadeActiveHosts = 0,
      mr_ReportsReceived = fmempty, mr_ReportsRejected = fmempty, mr_PoolHotSwaps = fmempty\<rparr>"

definition vec_value :: "counter_vec \<Rightarrow> string list \<Rightarrow> nat" where
  "vec_value v labels = (case fmlookup v labels of None \<Rightarrow> 0 | Some n \<Rightarrow> n)"

definition vec_inc :: "string list \<Rightarrow> counter_vec \<Rightarrow> counter_vec" where
  "vec_inc labels v = fmupd labels (Suc (vec_value v labels)) v"

definition observed :: "(string list, duration list) fmap \<Rightarrow> string list \<Rightarrow> duration list" where
  "observed h labels = (case fmlookup h labels of None \<Rightarrow> [] | Some ds \<Rightarrow> ds)"

definition vec_observe :: "string list \<Rightarrow> duration \<Rightarrow> (string list, duration list) fmap \<Rightarrow> (string list, duration list) fmap" where
  "vec_observe labels d h = fmupd labels (observed h labels @ [d]) h"

text \<open>Every method accepts a nil registry, which is None.\<close>

definition reg_ObserveDial :: "string \<Rightarrow> string \<Rightarrow> duration \<Rightarrow> registry option \<Rightarrow> registry option" where
  "reg_ObserveDial uid outcome latency r =
     (case r of
        None \<Rightarrow> None
      | Some m \<Rightarrow> Some (m\<lparr>mr_DialAttempts := vec_inc [uid, outcome] (mr_DialAttempts m),
                        mr_DialLatency := vec_observe [uid, outcome] latency (mr_DialLatency m)\<rparr>))"

definition reg_ObserveStatusFailure :: "string \<Rightarrow> string \<Rightarrow> registry option \<Rightarrow> registry option" where
  "reg_ObserveStatusFailure uid code r =
     (case r of None \<Rightarrow> None | Some m \<Rightarrow> Some (m\<lparr>mr_StatusFailures := vec_inc [uid, code] (mr_StatusFailures m)\<rparr>))"

definition reg_ObserveRequestOutcome :: "string \<Rightarrow> registry option \<Rightarrow> registry option" where
  "reg_ObserveRequestOutcome outcome r =
     (case r of None \<Rightarrow> None | Some m \<Rightarrow> Some (m\<lparr>mr_RequestOutcomes := vec_inc [outcome] (mr_RequestOutcomes m)\<rparr>))"

definition reg_ObserveCascadeTrip :: "registry option \<Rightarrow> registry option" where
  "reg_ObserveCascadeTrip r =
     (case r of None \<Rightarrow> None | Some m \<Rightarrow> Some (m\<lparr>mr_CascadeTrips := Suc (mr_CascadeTrips m)\<rparr>))"

definition reg_ObserveProbePick :: "registry option \<Rightarrow> registry option" where
  "reg_ObserveProbePick r =
     (case r of None \<Rightarrow> None | Some m \<Rightarrow> Some (m\<lparr>mr_ProbePicks := Suc (mr_ProbePicks m)\<rparr>))"

definition reg_ObservePersistenceWrite :: "string \<Rightarrow> registry option \<Rightarrow> registry option" where
  "reg_ObservePersistenceWrite result r =
     (case r of None \<Rightarrow> None | Some m \<Rightarrow> Some (m\<lparr>mr_PersistenceWrites := vec_inc [result] (mr_PersistenceWrites m)\<rparr>))"

definition reg_ObserveConfigReload :: "string \<Rightarrow> registry option \<Rightarrow> registry option" where
  "reg_ObserveConfigReload result r =
     (case r of None \<Rightarrow> None | Some m \<Rightarrow> Some (m\<lparr>mr_ConfigReloads := vec_inc [result] (mr_ConfigReloads m)\<rparr>))"

definition reg_ObservePoolHotSwap :: "string \<Rightarrow> registry option \<Rightarrow> registry option" where
  "reg_ObservePoolHotSwap result r =
     (case r of None \<Rightarrow> None | Some m \<Rightarrow> Some (m\<lparr>mr_PoolHotSwaps := vec_inc [result] (mr_PoolHotSwaps m)\<rparr>))"

definition reg_ObserveReportReceived :: "string \<Rightarrow> string \<Rightarrow> registry option \<Rightarrow> registry option" where
  "reg_ObserveReportReceived outcome uid r =
     (case r of None \<Rightarrow> None | Some m \<Rightarrow> Some (m\<lparr>mr_ReportsReceived := vec_inc [outcome, uid] (mr_ReportsReceived m)\<rparr>))"

definition reg_ObserveReportRejected :: "string \<Rightarrow> registry option \<Rightarrow> registry option" where
  "reg_ObserveReportRejected reason r =
     (case r of None \<Rightarrow> None | Some m \<Rightarrow> Some (m\<lparr>mr_ReportsRejected := vec_inc [reason] (mr_ReportsRejected m)\<rparr>))"

definition reg_SetUpstreamPoolSize :: "int \<Rightarrow> registry option \<Rightarrow> registry option" where
  "reg_SetUpstreamPoolSize n r = (case r of None \<Rightarrow> None | Some m \<Rightarrow> Some (m\<lparr>mr_UpstreamPoolSize := n\<rparr>))"

definition reg_SetScoreboardSnapshot ::
    "int \<Rightarrow> (string \<Rightarrow> int) \<Rightarrow> int \<Rightarrow> string list \<Rightarrow> registry option \<Rightarrow> registry option" where
  "reg_SetScoreboardSnapshot totalEntries cooledByUpstream cascadeHosts poolIDs r =
     (case r of
        None \<Rightarrow> None
      | Some m \<Rightarrow>
          Some (m\<lparr>mr_ScoreboardEntries := totalEntries,
                  mr_UpstreamCooledHosts := fold (\<lambda>uid g. fmupd [uid] (cooledByUpstream uid) g) poolIDs fmempty,
                  mr_CascadeActiveHosts := cascadeHosts\<rparr>))"

subsection \<open>Events and what they count\<close>

datatype event =
    OfScoreboard metric
  | OfListener listener_metric
  | OfControl report_metric
  | OfPersistence string
  | OfReload string
  | OfHotSwap string

definition emit_event :: "event \<Rightarrow> registry option \<Rightarrow> registry option" where
  "emit_event e =
     (case e of
        OfScoreboard (ObserveDial uid outcome d) \<Rightarrow> reg_ObserveDial uid outcome d
      | OfScoreboard ObserveCascadeTrip \<Rightarrow> reg_ObserveCascadeTrip
      | OfScoreboard ObserveProbePick \<Rightarrow> reg_ObserveProbePick
      | OfListener (LDial uid outcome d) \<Rightarrow> reg_ObserveDial uid outcome d
      | OfListener (LStatusFailure uid code) \<Rightarrow> reg_ObserveStatusFailure uid code
      | OfListener (LOutcome outcome) \<Rightarrow> reg_ObserveRequestOutcome outcome
      | OfControl (ReportReceived outcome uid) \<Rightarrow> reg_ObserveReportReceived outcome uid
      | OfControl (ReportRejected reason) \<Rightarrow> reg_ObserveReportRejected reason
      | OfPersistence result \<Rightarrow> reg_ObservePersistenceWrite result
      | OfReload result \<Rightarrow> reg_ObserveConfigReload result
      | OfHotSwap result \<Rightarrow> reg_ObservePoolHotSwap result)"

text \<open>The exposed counter series, and the one an event belongs to.\<close>

datatype series =
    DialAttempts string string
  | StatusFailures string string
  | RequestOutcomes string
  | CascadeTrips
  | ProbePicks
  | PersistenceWrites string
  | ConfigReloads string
  | ReportsReceived string string
  | ReportsRejected string
  | PoolHotSwaps string

fun series_of :: "event \<Rightarrow> series" where
  "series_of (OfScoreboard (ObserveDial uid outcome d)) = DialAttempts uid outcome"
| "series_of (OfScoreboard ObserveCascadeTrip) = CascadeTrips"
| "series_of (OfScoreboard ObserveProbePick) = ProbePicks"
| "series_of (OfListener (LDial uid outcome d)) = DialAttempts uid outcome"
| "series_of (OfListener (LStatusFailure uid code)) = StatusFailures uid code"
| "series_of (OfListener (LOutcome outcome)) = RequestOutcomes outcome"
| "series_of (OfControl (ReportReceived outcome uid)) = ReportsReceived outcome uid"
| "series_of (OfControl (ReportRejected reason)) = ReportsRejected reason"
| "series_of (OfPersistence result) = PersistenceWrites result"
| "series_of (OfReload result) = ConfigReloads result"
| "series_of (OfHotSwap result) = PoolHotSwaps result"

fun reading :: "registry \<Rightarrow> series \<Rightarrow> nat" where
  "reading m (DialAttempts uid outcome) = vec_value (mr_DialAttempts m) [uid, outcome]"
| "reading m (StatusFailures uid code) = vec_value (mr_StatusFailures m) [uid, code]"
| "reading m (RequestOutcomes outcome) = vec_value (mr_RequestOutcomes m) [outcome]"
| "reading m CascadeTrips = mr_CascadeTrips m"
| "reading m ProbePicks = mr_ProbePicks m"
| "reading m (PersistenceWrites result) = vec_value (mr_PersistenceWrites m) [result]"
| "reading m (ConfigReloads result) = vec_value (mr_ConfigReloads m) [result]"
| "reading m (ReportsReceived outcome uid) = vec_value (mr_ReportsReceived m) [outcome, uid]"
| "reading m (ReportsRejected reason) = vec_value (mr_ReportsRejected m) [reason]"
| "reading m (PoolHotSwaps result) = vec_value (mr_PoolHotSwaps m) [result]"

lemma vec_value_inc [simp]: "vec_value (vec_inc l v) l' = (if l' = l then Suc (vec_value v l) else vec_value v l')"
  by (simp add: vec_value_def vec_inc_def)

lemma observed_observe [simp]:
  "observed (vec_observe l d h) l' = (if l' = l then observed h l @ [d] else observed h l')"
  by (simp add: observed_def vec_observe_def)

text \<open>A sink counts each event in one place.\<close>

locale counting_sink =
  fixes observe :: "'e \<Rightarrow> 's \<Rightarrow> 's" and place :: "'e \<Rightarrow> 'p" and read :: "'s \<Rightarrow> 'p \<Rightarrow> nat"
  assumes observe_reads: "read (observe e s) p = read s p + (if place e = p then 1 else 0)"
begin

lemma observe_all: "read (fold observe es s) p = read s p + length (filter (\<lambda>e. place e = p) es)"
  by (induction es arbitrary: s) (simp_all add: observe_reads)

end

definition emit_on :: "event \<Rightarrow> registry \<Rightarrow> registry" where
  "emit_on e m = the (emit_event e (Some m))"

lemmas reg_defs = reg_ObserveDial_def reg_ObserveStatusFailure_def reg_ObserveRequestOutcome_def
  reg_ObserveCascadeTrip_def reg_ObserveProbePick_def reg_ObservePersistenceWrite_def reg_ObserveConfigReload_def
  reg_ObservePoolHotSwap_def reg_ObserveReportReceived_def reg_ObserveReportRejected_def

lemma emit_event_Some: "emit_event e (Some m) = Some (emit_on e m)"
  by (simp add: emit_event_def emit_on_def reg_defs split: event.split metric.split listener_metric.split report_metric.split)

lemma emit_events_Some: "fold emit_event es (Some m) = Some (fold emit_on es m)"
  by (induction es arbitrary: m) (simp_all add: emit_event_Some)

interpretation prom: counting_sink emit_on series_of reading
proof unfold_locales
  show "reading (emit_on e m) x = reading m x + (if series_of e = x then 1 else 0)" for e m x
    by (cases e rule: series_of.cases; cases x) (auto simp: emit_on_def emit_event_def reg_defs)
qed

text \<open>The latencies that dial events carry.\<close>

fun latencies :: "string \<Rightarrow> string \<Rightarrow> event \<Rightarrow> duration list" where
  "latencies uid outcome (OfScoreboard (ObserveDial u o' d)) = (if u = uid \<and> o' = outcome then [d] else [])"
| "latencies uid outcome (OfListener (LDial u o' d)) = (if u = uid \<and> o' = outcome then [d] else [])"
| "latencies uid outcome _ = []"

lemma emit_latency:
  "observed (mr_DialLatency (emit_on e m)) [uid, outcome] = observed (mr_DialLatency m) [uid, outcome] @ latencies uid outcome e"
  by (cases e rule: series_of.cases) (auto simp: emit_on_def emit_event_def reg_defs)

lemma emit_latencies:
  "observed (mr_DialLatency (fold emit_on es m)) [uid, outcome] =
     observed (mr_DialLatency m) [uid, outcome] @ concat (map (latencies uid outcome) es)"
  by (induction es arbitrary: m) (simp_all add: emit_latency)

lemma latencies_count: "length (latencies uid outcome e) = (if series_of e = DialAttempts uid outcome then 1 else 0)"
  by (cases e rule: series_of.cases) auto

text \<open>
  Every counter of a fresh registry reads the number of the events of its series, whatever the order and whichever
  component sent them; the latency histogram of an upstream and outcome has every latency once, so that its count is that of
  the attempts counter; and a nil registry takes every event and stays nil.
\<close>

theorem registry_counts:
  "\<exists>m. fold emit_event es (Some metrics_New) = Some m \<and>
       (\<forall>x. reading m x = length (filter (\<lambda>e. series_of e = x) es)) \<and>
       (\<forall>uid outcome. observed (mr_DialLatency m) [uid, outcome] = concat (map (latencies uid outcome) es) \<and>
          length (observed (mr_DialLatency m) [uid, outcome]) = reading m (DialAttempts uid outcome)) \<and>
       fold emit_event es None = None"
proof -
  let ?m = "fold emit_on es metrics_New"
  have zero: "reading metrics_New x = 0" for x by (cases x) (simp_all add: metrics_New_def vec_value_def)
  have r: "reading ?m x = length (filter (\<lambda>e. series_of e = x) es)" for x
    using prom.observe_all [of es metrics_New x] zero by simp
  have o: "observed (mr_DialLatency ?m) [uid, outcome] = concat (map (latencies uid outcome) es)" for uid outcome
    using emit_latencies [of es metrics_New uid outcome] by (simp add: metrics_New_def observed_def)
  have "length (concat (map (latencies uid outcome) es)) = length (filter (\<lambda>e. series_of e = DialAttempts uid outcome) es)"
    for uid outcome by (induction es) (simp_all add: latencies_count)
  moreover have "fold emit_event es None = None"
  proof (induction es)
    case (Cons e es)
    have "emit_event e None = None"
      by (simp add: emit_event_def reg_defs split: event.split metric.split listener_metric.split report_metric.split)
    with Cons show ?case by simp
  qed simp
  ultimately show ?thesis
    using emit_events_Some [of es metrics_New] r o by (intro exI [of _ ?m]) (simp del: reading.simps)
qed

subsection \<open>The gauges\<close>

text \<open>What the refresher hands to the registry.\<close>

definition export_gauges :: "gauge_view option \<Rightarrow> registry option \<Rightarrow> registry option" where
  "export_gauges gv r =
     (case gv of
        None \<Rightarrow> r
      | Some g \<Rightarrow>
          reg_SetScoreboardSnapshot (int (gv_entries g))
            (\<lambda>uid. case map_of (gv_cooled g) uid of None \<Rightarrow> 0 | Some n \<Rightarrow> int n)
            (int (gv_cascades g)) (map fst (gv_cooled g)) r)"

lemma gauge_series:
  "fmlookup (fold (\<lambda>uid g. fmupd [uid] (f uid) g) ids g0) [uid] =
     (if uid \<in> set ids then Some (f uid) else fmlookup g0 [uid])"
  by (induction ids arbitrary: g0) auto

text \<open>
  After a tick the cooled-hosts gauge has a series for every upstream the refresher knows and for no other, whatever the registry
  held before, with the number of hosts that upstream is cooling for; and the two totals are those of the scoreboard.
\<close>

theorem gauges_exact:
  assumes "rt_gauges rt = Some ids" and "export_gauges (gauge_tick now rt) (Some m) = Some m'"
  shows "fmlookup (mr_UpstreamCooledHosts m') [uid] =
           (if uid \<in> set ids then Some (int (CooledHostsByUpstream now (rt_sb rt) uid)) else None) \<and>
         mr_ScoreboardEntries m' = int (EntriesCount (rt_sb rt)) \<and>
         mr_CascadeActiveHosts m' = int (CascadeActiveCount now (rt_sb rt)) \<and>
         (\<forall>x. reading m' x = reading m x)"
proof -
  let ?cool = "\<lambda>uid. CooledHostsByUpstream now (rt_sb rt) uid"
  have "map_of (map (\<lambda>uid. (uid, ?cool uid)) ids) uid = (if uid \<in> set ids then Some (?cool uid) else None)" for uid
    by (induction ids) auto
  moreover have "map fst (map (\<lambda>uid. (uid, ?cool uid)) ids) = ids" by (simp add: comp_def)
  moreover have "reading m' x = reading m x" for x
    using assms by (cases x) (auto simp: export_gauges_def gauge_tick_def reg_SetScoreboardSnapshot_def)
  ultimately show ?thesis
    using assms by (auto simp: export_gauges_def gauge_tick_def reg_SetScoreboardSnapshot_def gauge_series)
qed

subsection \<open>Bounded label sets\<close>

lemma auth_gate_reason: "auth_gate hdr tokens = Some reason \<Longrightarrow> reason \<in> {''auth_missing'', ''auth_failed''}"
  by (auto simp: auth_gate_def checkAuth_def Let_def split: option.splits prod.splits auth_status.splits if_splits)

definition report_outcomes :: "string list" where
  "report_outcomes = [''ok'', ''rate_limited'', ''forbidden'', ''legal_block'', ''geo_block'', ''timeout'', ''refused'']"

lemma resolveOutcome_known: "resolveOutcome o' = Some k \<Longrightarrow> o' \<in> set report_outcomes"
  by (auto simp: resolveOutcome_def outcomeOK_def outcomeMap_def report_outcomes_def split: if_splits)

text \<open>
  No client of the control endpoint can make the registry grow: every report it sends ticks at most one counter, whose
  labels are one of seven outcomes with an upstream of the pool, or one of seven reasons.
\<close>

theorem report_series_bounded:
  assumes "handleReport (Some scoreboard_backend) decode parse_ip tokens now r s = (status, obs, s')"
  shows "length obs \<le> 1 \<and> length report_outcomes = 7 \<and> length ReportRejects = 7 \<and>
         (\<forall>o' \<in> set obs. case o' of
            ReportReceived outcome uid \<Rightarrow> outcome \<in> set report_outcomes \<and> uid \<in> set (PoolIDs s)
          | ReportRejected reason \<Rightarrow> reason \<in> set ReportRejects)"
proof -
  have "reason \<in> set ReportRejects" if "auth_gate (cq_header r) tokens = Some reason" for reason
    using auth_gate_reason [OF that] by (auto simp: ReportRejects_def)
  then show ?thesis
    using assms resolveOutcome_known
    by (auto simp: handleReport_def scoreboard_backend_def HasUpstream_iff Let_def report_outcomes_def ReportRejects_def
        split: if_splits option.splits sum.splits prod.splits)
qed

text \<open>The scoreboard's dial counter uses one outcome more than the constants of the package name.\<close>

lemma dial_outcomes_documented:
  "\<exists>outcome. observeDialFailure uid KindProxyAuth l s = emit (ObserveDial uid outcome l) s \<and> outcome \<notin> set DialOutcomes"
  by (rule exI [of _ "''proxy_auth''"]) (simp add: observeDialFailure_def kind_defs DialOutcomes_def)

end
