(* ===== verification/OperatorScenario.thy ===== *)
theory OperatorScenario
  imports Samples Reporting UIProps Socks Metrics
begin

text \<open>
  The properties of the client library, the operator interface and the SOCKS listener at concrete inputs.
\<close>

subsection \<open>The client library\<close>

definition demo_parse :: "string \<Rightarrow> goerr + url" where
  "demo_parse raw = Inr \<lparr>ul_scheme = ''http'', ul_host = drop 7 raw, ul_path = [], ul_raw_query = [], ul_fragment = []\<rparr>"

definition demo_options :: sdk_options where
  "demo_options = \<lparr>so_ProxyURL = ''http://p'', so_ControlURL = ''http://c'', so_KeepAlive = False, so_Timeout = 0,
     so_Logger = True, so_Token = ''tok''\<rparr>"

definition demo_client :: reporting_transport where
  "demo_client =
     \<lparr>rt_proxy = \<lparr>ul_scheme = ''http'', ul_host = ''p'', ul_path = [], ul_raw_query = [], ul_fragment = []\<rparr>,
      rt_disable_keep_alives = True, rt_control_url = ''http://c'', rt_timeout = 2000000000, rt_token = ''tok'',
      rt_logger = Some [], rt_slots = []\<rparr>"

lemma demo_client_New: "client_New demo_parse demo_options = Inr demo_client"
proof -
  have "\<not> contains_any ''tok'' token_space" by code_simp
  then show ?thesis
    by (simp add: client_New_def check_base_url_def demo_parse_def demo_options_def demo_client_def report_timeout_def
        time_defs trim_right_def)
qed

definition demo_req :: app_request where
  "demo_req = \<lparr>aq_url = Some \<lparr>ul_scheme = ''https'', ul_host = ''Ex.com'', ul_path = ''/'', ul_raw_query = [], ul_fragment = []\<rparr>,
     aq_host = []\<rparr>"

definition demo_base :: "app_request \<Rightarrow> base_result" where
  "demo_base req = \<lparr>br_connect = Some (header_set fmempty ''X-Tunnelsmith-Upstream'' ''b''),
     br_response = Some (429, fmempty), br_error = None\<rparr>"

definition demo_payload :: report_payload where
  "demo_payload = \<lparr>rp_host = ''Ex.com:443'', rp_upstream = ''b'', rp_outcome = ''rate_limited'', rp_http_status = Some 429\<rparr>"

lemma demo_host: "hostForReport (Some demo_req) = ''Ex.com:443''"
  unfolding demo_req_def by code_simp

lemma demo_attributed: "attributed (demo_base demo_req) fmempty = ''b''"
  by (simp add: attributed_def demo_base_def header_get_def header_values_def header_set_def)

lemma demo_requested: "requested_report demo_base demo_req = Some demo_payload"
proof -
  have "equal_fold ''https'' ''https''" by (simp add: equal_fold_def)
  then have "autoOutcomeFor (Some demo_req) 429 = ''rate_limited''"
    by (simp add: autoOutcomeFor_def demo_req_def autoOutcomeForStatus_def)
  moreover have "br_response (demo_base demo_req) = Some (429, fmempty)" by (simp add: demo_base_def)
  ultimately show ?thesis
    by (simp add: requested_report_def auto_report_def demo_attributed demo_host demo_payload_def)
qed

lemma demo_laws: "ip_laws (\<lambda>_. None)"
  by (simp add: ip_laws_def)

lemma demo_name:
  "host_text ''Ex.com''" "normalizeReportHostPart (\<lambda>_. None) ''Ex.com'' = Inr ''ex.com''" "requests_url demo_req ''Ex.com'' []"
proof -
  have "list_all (\<lambda>c. \<not> is_space c) ''Ex.com''" by code_simp
  then show "host_text ''Ex.com''" by (simp add: host_text_def plain_host_def)
  show "normalizeReportHostPart (\<lambda>_. None) ''Ex.com'' = Inr ''ex.com''" by code_simp
  have "to_lower ''https'' = ''https''" by code_simp
  then show "requests_url demo_req ''Ex.com'' []" by (simp add: requests_url_def demo_req_def url_authority_def)
qed


lemma demo_run: "sdk_run demo_client [Queued demo_payload] (postReport demo_payload demo_client)"
  using sdk_run.request [OF sdk_run.start [of demo_client], of demo_base demo_req]
  by (simp add: RoundTrip_state request_events_def demo_requested demo_client_def autoReportSlots_def)

lemma reports_accounted_witness:
  "rt_slots (postReport demo_payload demo_client) = [demo_payload] \<and> rt_logger (postReport demo_payload demo_client) = Some []"
proof -
  have l: "logged [Queued demo_payload] = []" by (simp only: event_counts logged_of.simps)
  from reports_accounted [OF demo_client_New demo_run] show ?thesis
    by (simp add: l demo_options_def postReport_def demo_client_def autoReportSlots_def)
qed

definition demo_decode :: report_decoder where
  "demo_decode s = Inr (\<lparr>rr_host = ''Ex.com:443'', rr_upstream = ''b'', rr_outcome = ''rate_limited'', rr_http_status = Some 429\<rparr>, True)"


subsection \<open>The operator interface\<close>

definition by_key :: range_order where
  "by_key loop keys = sorted_list_of_fset keys"

lemma by_key_ok: "range_ok by_key"
  by (simp add: range_ok_def by_key_def sorted_list_of_fset.rep_eq)

definition demo_ui_env :: "scoreboard ui_env" where
  "demo_ui_env = \<lparr>ue_clock = (\<lambda>i. 50 + int i), ue_others = (\<lambda>_ s. s), ue_order = by_key\<rparr>"

definition demo_codec :: ui_codec where
  "demo_codec =
     \<lparr>uc_host = (\<lambda>_ _. Inr ''h''),
      uc_force = (\<lambda>_ _. Inr \<lparr>fb_host = ''h'', fb_upstream_id = ''a'', fb_duration = ''30m'', fb_until = []\<rparr>),
      uc_ParseDuration = (\<lambda>_. Inr 1800), uc_ParseTime = (\<lambda>_. Inl (errorf [])), uc_asset = (\<lambda>_. False)\<rparr>"

definition ui_post :: "string \<Rightarrow> ui_request" where
  "ui_post path = \<lparr>uq_method = ''POST'', uq_path = path, uq_body = Some \<lparr>bd_chunks = [''{}''], bd_end = None, bd_closed = False\<rparr>\<rparr>"

lemma demo_ui_alone: "\<forall>i t. ue_others demo_ui_env i t = t"
  by (simp add: demo_ui_env_def)

lemma trim_h: "trim_space ''h'' = ''h''" "trim_space ''a'' = ''a''" "trim_space ''30m'' = ''30m''" "trim_space [] = []"
  by code_simp+

lemma demo_decoded:
  "decodeJSONBody (uc_host demo_codec) (uq_body (ui_post p)) = Inr ''h''"
  "decodeJSONBody (uc_force demo_codec) (uq_body (ui_post p)) =
     Inr \<lparr>fb_host = ''h'', fb_upstream_id = ''a'', fb_duration = ''30m'', fb_until = []\<rparr>"
  by (simp_all add: decodeJSONBody_def demo_codec_def ui_post_def case_prod_unfold Let_def)



lemma forget_makes_fresh_witness:
  "fst (Pick 60 demo_draws ''h'' []
     (snd (ui_serve demo_codec demo_ui_env scoreboard_ui (ui_post ''/api/forget'') demo_sb))) = Inr (demo_upstream ''a'')"
proof -
  have path: "uq_path (ui_post ''/api/forget'') = ''/api/forget''" by (simp add: ui_post_def)
  have m: "uq_method (ui_post ''/api/forget'') = ''POST''" by (simp add: ui_post_def)
  have o: "ue_others demo_ui_env 0 demo_sb = demo_sb" by (simp add: demo_ui_env_def)
  have "ui_serve demo_codec demo_ui_env scoreboard_ui (ui_post ''/api/forget'') demo_sb =
      host_action demo_codec (ui_post ''/api/forget'') Forget demo_ui_env demo_sb"
    by (simp add: ui_serve_def path handleForget_def)
  also have "\<dots> = (UIRemoved (fst (Forget ''h'' demo_sb)), snd (Forget ''h'' demo_sb))"
    by (simp add: host_action_def m o demo_decoded trim_h case_prod_unfold Let_def)
  finally obtain removed s' where u: "ui_serve demo_codec demo_ui_env scoreboard_ui (ui_post ''/api/forget'') demo_sb = (UIRemoved removed, s')"
    by blast
  have "fst (Pick 60 demo_draws ''h'' [] (demo_sb\<lparr>sb_entries := fmempty, sb_cascade := fmempty, sb_debounce := fmempty\<rparr>)) =
      Inr (demo_upstream ''a'')"
    by (simp add: pick_eval rank_less_def HasUpstream_def)
  then show ?thesis
    using forget_makes_fresh [OF demo_ui_alone path u] u by (auto simp: demo_decoded trim_h)
qed

lemma view_faithful_invisible_witness:
  "\<exists>v s'. ui_serve demo_codec demo_ui_env scoreboard_ui (ui_post ''/api/scoreboard''\<lparr>uq_method := ''GET''\<rparr>) demo_sb = (UIScoreboard v, s') \<and>
     (''p'', \<lparr>fo_upstream_id = ''b'', fo_until = 900\<rparr>) \<in> set (sr_forces v) \<and> sr_pool_ids v = [''a'', ''b'']"
proof -
  have o: "range_ok (ue_order demo_ui_env)" using by_key_ok by (simp add: demo_ui_env_def)
  obtain v s' where u: "ui_serve demo_codec demo_ui_env scoreboard_ui (ui_post ''/api/scoreboard''\<lparr>uq_method := ''GET''\<rparr>) demo_sb =
      (UIScoreboard v, s')"
    by (simp add: ui_serve_def ui_post_def writeScoreboard_def ForceSnapshot_def Let_def)
  from view_faithful_invisible [OF demo_ui_alone o u] u show ?thesis
    by (intro exI [of _ v] exI [of _ s']) (simp add: PoolIDs_def, simp add: demo_ui_env_def)
qed

subsection \<open>The SOCKS listener\<close>

lemma socks_shutdown_sound_witness: "\<exists>s. socks.reachable s \<and> ss_done s \<and> (\<exists>s'. shutdown_step s s')"
proof -
  have "socks_step socks_init ((markDone socks_init)\<lparr>ss_shut := WaitReady\<rparr>)"
    unfolding socks_step_def using shutdown_step.mark [of socks_init] by (simp add: socks_init_def)
  moreover have "socks.reachable socks_init" by (auto simp: socks.reachable_def)
  ultimately have r: "socks.reachable ((markDone socks_init)\<lparr>ss_shut := WaitReady\<rparr>)"
    by (metis socks.reachable_step)
  from socks_shutdown_sound [OF r] r show ?thesis
    by (intro exI [of _ "(markDone socks_init)\<lparr>ss_shut := WaitReady\<rparr>"]) (simp add: markDone_def)
qed

end
