(* ===== verification/Servers.thy ===== *)
theory Servers
  imports HttpListener Socks
begin

text \<open>
  The life of the servers that run on \<open>net/http\<close>: \<open>Serve\<close> and \<open>Shutdown\<close> of the operator UI (\<open>internal/ui/server.go\<close>), the
  metrics endpoint (\<open>internal/metrics/metrics.go\<close>), the control endpoint (\<open>internal/control/server.go\<close>) and the HTTP
  listener (\<open>internal/listener/http.go\<close>), which adds the CONNECT tunnels that \<open>net/http\<close> hands over. \<open>http.Server\<close>
  is what its documentation says: \<open>Shutdown\<close> closes the listener and the idle connections, waits for the others and not for
  hijacked ones, and makes \<open>Serve\<close> return \<open>ErrServerClosed\<close>.
\<close>

subsection \<open>A server on net/http\<close>

datatype net_serve =
    NotStarted
  | Bound                       \<comment> \<open>\<open>ready\<close> is closed, \<open>http.Server.Serve\<close> is about to be called\<close>
  | Serving
  | ServeEnd "goerr option"

datatype net_shut =
    ShutNotCalled
  | AwaitReady
  | EnterShutdown
  | AwaitIdle
  | GaveUp goerr                \<comment> \<open>the context ended first; \<open>http.Server.Shutdown\<close> is not called\<close>
  | ShutEnd "goerr option"

text \<open>\<open>ns_active\<close> are the connections that are not idle; \<open>ns_seen\<close> are the numbers given out.\<close>

record net_server =
  ns_ready :: bool
  ns_bind_err :: "goerr option"
  ns_lis :: lis
  ns_serve :: net_serve
  ns_in_shutdown :: bool
  ns_active :: "nat fset"
  ns_seen :: "nat fset"
  ns_shut :: net_shut

definition net_init :: net_server where
  "net_init =
     \<lparr>ns_ready = False, ns_bind_err = None, ns_lis = NoListener, ns_serve = NotStarted, ns_in_shutdown = False,
      ns_active = {||}, ns_seen = {||}, ns_shut = ShutNotCalled\<rparr>"

text \<open>\<open>Addr\<close> is not nil: the listener is bound and \<open>ready\<close> is closed.\<close>

definition net_Addr :: "'a net_server_scheme \<Rightarrow> bool" where
  "net_Addr s = (ns_ready s \<and> ns_lis s \<noteq> NoListener)"

text \<open>
  \<open>Serve\<close>: whatever fails before the listener is bound (listening, or the key pair of the control endpoint) is stored and
  returned. A request comes on a new connection or a kept one; \<open>name\<close> is the prefix of the server's errors.
\<close>

inductive net_serve_step :: "string \<Rightarrow> 'a net_server_scheme \<Rightarrow> 'a net_server_scheme \<Rightarrow> bool" for name where
  refuse: "ns_serve s = NotStarted \<Longrightarrow>
    net_serve_step name s (s\<lparr>ns_bind_err := Some e, ns_ready := True, ns_serve := ServeEnd (Some e)\<rparr>)"
| bind: "ns_serve s = NotStarted \<Longrightarrow>
    net_serve_step name s (s\<lparr>ns_lis := Listening, ns_ready := True, ns_serve := Bound\<rparr>)"
| start: "ns_serve s = Bound \<Longrightarrow> \<not> ns_in_shutdown s \<Longrightarrow> net_serve_step name s (s\<lparr>ns_serve := Serving\<rparr>)"
| start_late: "ns_serve s = Bound \<Longrightarrow> ns_in_shutdown s \<Longrightarrow>
    net_serve_step name s (s\<lparr>ns_lis := LisClosed, ns_serve := ServeEnd None\<rparr>)"
| stopped: "ns_serve s = Serving \<Longrightarrow> ns_in_shutdown s \<Longrightarrow> net_serve_step name s (s\<lparr>ns_serve := ServeEnd None\<rparr>)"
| failed: "ns_serve s = Serving \<Longrightarrow> \<not> ns_in_shutdown s \<Longrightarrow>
    net_serve_step name s (s\<lparr>ns_lis := LisClosed, ns_serve := ServeEnd (Some (errorf_w (name @ '' serve'') e))\<rparr>)"
| request: "ns_serve s = Serving \<or> ns_serve s = ServeEnd (Some e) \<Longrightarrow> ns_lis s \<noteq> NoListener \<Longrightarrow> \<not> ns_in_shutdown s \<Longrightarrow>
    c |\<notin>| ns_seen s \<Longrightarrow>
    net_serve_step name s (s\<lparr>ns_active := finsert c (ns_active s), ns_seen := finsert c (ns_seen s)\<rparr>)"
| request_done: "c |\<in>| ns_active s \<Longrightarrow> net_serve_step name s (s\<lparr>ns_active := ns_active s |-| {|c|}\<rparr>)"

text \<open>
  \<open>Shutdown\<close>; \<open>ctx\<close> is the error of its context once that has ended. When the server is ready and the context has ended, the
  \<open>select\<close> may take either way. \<open>lnerr\<close> is the error of closing the listener.
\<close>

inductive net_shutdown_step :: "goerr option \<Rightarrow> 'a net_server_scheme \<Rightarrow> 'a net_server_scheme \<Rightarrow> bool" for ctx where
  call: "ns_shut s = ShutNotCalled \<Longrightarrow> net_shutdown_step ctx s (s\<lparr>ns_shut := AwaitReady\<rparr>)"
| ready: "ns_shut s = AwaitReady \<Longrightarrow> ns_ready s \<Longrightarrow> net_shutdown_step ctx s (s\<lparr>ns_shut := EnterShutdown\<rparr>)"
| give_up: "ns_shut s = AwaitReady \<Longrightarrow> ctx = Some e \<Longrightarrow> net_shutdown_step ctx s (s\<lparr>ns_shut := GaveUp e\<rparr>)"
| enter: "ns_shut s = EnterShutdown \<Longrightarrow>
    net_shutdown_step ctx s (s\<lparr>ns_in_shutdown := True, ns_shut := AwaitIdle,
      ns_lis := (if ns_serve s = Serving then LisClosed else ns_lis s)\<rparr>)"
| idle: "ns_shut s = AwaitIdle \<Longrightarrow> ns_active s = {||} \<Longrightarrow> net_shutdown_step ctx s (s\<lparr>ns_shut := ShutEnd lnerr\<rparr>)"
| expired: "ns_shut s = AwaitIdle \<Longrightarrow> ctx = Some e \<Longrightarrow> net_shutdown_step ctx s (s\<lparr>ns_shut := ShutEnd (Some e)\<rparr>)"

inductive_cases net_serve_stepE: "net_serve_step name s s'"
inductive_cases net_shutdown_stepE: "net_shutdown_step ctx s s'"

text \<open>A server on its own: its context may end at any time.\<close>

definition net_step :: "'a net_server_scheme \<Rightarrow> 'a net_server_scheme \<Rightarrow> bool" where
  "net_step s s' \<longleftrightarrow> (\<exists>name. net_serve_step name s s') \<or> (\<exists>ctx. net_shutdown_step ctx s s')"

definition net_inv :: "'a net_server_scheme \<Rightarrow> bool" where
  "net_inv s \<longleftrightarrow>
     (ns_ready s \<longleftrightarrow> ns_serve s \<noteq> NotStarted) \<and>
     (ns_serve s = NotStarted \<longrightarrow> ns_lis s = NoListener \<and> ns_active s = {||}) \<and>
     (ns_serve s = Bound \<longrightarrow> ns_lis s = Listening \<and> ns_active s = {||}) \<and>
     (ns_serve s = Serving \<longrightarrow> ns_lis s = (if ns_in_shutdown s then LisClosed else Listening)) \<and>
     (\<forall>e. ns_serve s = ServeEnd e \<longrightarrow> ns_lis s \<noteq> Listening \<and> (e = None \<longrightarrow> ns_in_shutdown s)) \<and>
     (ns_in_shutdown s \<longleftrightarrow> ns_shut s = AwaitIdle \<or> (\<exists>e. ns_shut s = ShutEnd e)) \<and>
     (ns_in_shutdown s \<or> ns_shut s = EnterShutdown \<longrightarrow> ns_ready s) \<and>
     (ns_shut s = ShutEnd None \<longrightarrow> ns_active s = {||}) \<and> ns_active s |\<subseteq>| ns_seen s"

lemma net_serve_step_inv:
  assumes "net_serve_step name s s'" and "net_inv s" shows "net_inv s'"
  using assms(1) by (cases rule: net_serve_step.cases; use assms(2) in \<open>simp add: net_inv_def\<close>) auto

lemma net_shutdown_step_inv: "net_shutdown_step ctx s s' \<Longrightarrow> net_inv s \<Longrightarrow> net_inv s'"
  by (erule net_shutdown_stepE; cases "ns_serve s"; simp add: net_inv_def; fastforce?)

lemma net_init_inv: "net_inv net_init"
  by (simp add: net_inv_def net_init_def)

interpretation net: invariant_system "\<lambda>s. s = net_init" net_step net_inv
  by unfold_locales (auto simp: net_step_def net_init_inv intro: net_serve_step_inv net_shutdown_step_inv)

subsection \<open>The HTTP listener\<close>

text \<open>What its \<open>Shutdown\<close> does after \<open>http.Server.Shutdown\<close>: \<open>e\<close> is that call's error, \<open>c\<close> the context's.\<close>

datatype drain_pc =
    NotDraining
  | TakeTunnels "goerr option"
  | WaitTunnels "goerr option" "nat fset"
  | ForceTunnels "goerr option" goerr "nat fset"
  | ForcedTunnels "goerr option" goerr "nat fset"
  | DrainReturned "goerr option"

record http_life = net_server +
  li_hijacked :: "nat fset"     \<comment> \<open>handed over by \<open>net/http\<close>, not registered yet\<close>
  li_tunnels :: "nat fset"      \<comment> \<open>the map \<open>tunnels\<close>\<close>
  li_closed :: "nat fset"       \<comment> \<open>both connections closed\<close>
  li_done :: "nat fset"         \<comment> \<open>\<open>done\<close> closed\<close>
  li_drain :: drain_pc

definition life_init :: http_life where
  "life_init =
     net_server.extend net_init
       \<lparr>li_hijacked = {||}, li_tunnels = {||}, li_closed = {||}, li_done = {||}, li_drain = NotDraining\<rparr>"

text \<open>
  A CONNECT handler: it takes the connection over, fails to answer or registers the tunnel; the pump ends when a peer or
  \<open>Shutdown\<close> closes a connection, and closes both.
\<close>

inductive tunnel_step :: "http_life \<Rightarrow> http_life \<Rightarrow> bool" where
  hijack: "c |\<in>| ns_active s \<Longrightarrow>
    tunnel_step s (s\<lparr>ns_active := ns_active s |-| {|c|}, li_hijacked := finsert c (li_hijacked s)\<rparr>)"
| answer_failed: "c |\<in>| li_hijacked s \<Longrightarrow> tunnel_step s (s\<lparr>li_hijacked := li_hijacked s |-| {|c|}\<rparr>)"
| register_tunnel: "c |\<in>| li_hijacked s \<Longrightarrow>
    tunnel_step s (s\<lparr>li_hijacked := li_hijacked s |-| {|c|}, li_tunnels := finsert c (li_tunnels s)\<rparr>)"
| pump_end: "c |\<in>| li_tunnels s \<Longrightarrow>
    tunnel_step s (s\<lparr>li_closed := finsert c (li_closed s), li_done := finsert c (li_done s)\<rparr>)"
| unregister_tunnel: "c |\<in>| li_tunnels s \<Longrightarrow> c |\<in>| li_done s \<Longrightarrow>
    tunnel_step s (s\<lparr>li_tunnels := li_tunnels s |-| {|c|}\<rparr>)"

inductive drain_step :: "goerr option \<Rightarrow> http_life \<Rightarrow> http_life \<Rightarrow> bool" for ctx where
  gave_up: "li_drain s = NotDraining \<Longrightarrow> ns_shut s = GaveUp e \<Longrightarrow>
    drain_step ctx s (s\<lparr>li_drain := DrainReturned (Some e)\<rparr>)"
| server_down: "li_drain s = NotDraining \<Longrightarrow> ns_shut s = ShutEnd e \<Longrightarrow>
    drain_step ctx s (s\<lparr>li_drain := TakeTunnels e\<rparr>)"
| no_tunnels: "li_drain s = TakeTunnels e \<Longrightarrow> li_tunnels s = {||} \<Longrightarrow>
    drain_step ctx s (s\<lparr>li_drain := DrainReturned e\<rparr>)"
| take_tunnels: "li_drain s = TakeTunnels e \<Longrightarrow> li_tunnels s \<noteq> {||} \<Longrightarrow>
    drain_step ctx s (s\<lparr>li_drain := WaitTunnels e (li_tunnels s)\<rparr>)"
| tunnels_done: "li_drain s = WaitTunnels e ts \<Longrightarrow> ts |\<subseteq>| li_done s \<Longrightarrow>
    drain_step ctx s (s\<lparr>li_drain := DrainReturned e\<rparr>)"
| tunnels_expired: "li_drain s = WaitTunnels e ts \<Longrightarrow> ctx = Some c \<Longrightarrow>
    drain_step ctx s (s\<lparr>li_drain := ForceTunnels e c ts\<rparr>)"
| force: "li_drain s = ForceTunnels e c ts \<Longrightarrow>
    drain_step ctx s (s\<lparr>li_closed := li_closed s |\<union>| ts, li_drain := ForcedTunnels e c ts\<rparr>)"
| forced_done: "li_drain s = ForcedTunnels e c ts \<Longrightarrow> ts |\<subseteq>| li_done s \<Longrightarrow>
    drain_step ctx s (s\<lparr>li_drain := DrainReturned (if e = None then Some c else e)\<rparr>)"

inductive_cases tunnel_stepE: "tunnel_step s s'"
inductive_cases drain_stepE: "drain_step ctx s s'"

definition life_step :: "goerr option \<Rightarrow> http_life \<Rightarrow> http_life \<Rightarrow> bool" where
  "life_step ctx s s' \<longleftrightarrow>
     net_serve_step ''http'' s s' \<or> net_shutdown_step ctx s s' \<or> tunnel_step s s' \<or> drain_step ctx s s'"

text \<open>The tunnels whose end \<open>Shutdown\<close> waits for, and those that still carry traffic.\<close>

fun taken :: "drain_pc \<Rightarrow> nat fset" where
  "taken (WaitTunnels e ts) = ts"
| "taken (ForceTunnels e c ts) = ts"
| "taken (ForcedTunnels e c ts) = ts"
| "taken _ = {||}"

definition live :: "http_life \<Rightarrow> nat fset" where
  "live s = li_tunnels s |-| li_done s"

definition drain_pc_ok :: "http_life \<Rightarrow> bool" where
  "drain_pc_ok s \<longleftrightarrow>
     (case li_drain s of
        NotDraining \<Rightarrow> True
      | TakeTunnels e \<Rightarrow> ns_shut s = ShutEnd e
      | WaitTunnels e ts \<Rightarrow> ns_shut s = ShutEnd e
      | ForceTunnels e c ts \<Rightarrow> ns_shut s = ShutEnd e
      | ForcedTunnels e c ts \<Rightarrow> ns_shut s = ShutEnd e \<and> ts |\<subseteq>| li_closed s
      | DrainReturned e \<Rightarrow> (\<exists>e'. ns_shut s = ShutEnd e' \<and> (e = None \<longrightarrow> e' = None)) \<or> (\<exists>c. ns_shut s = GaveUp c \<and> e = Some c))"

definition tunnels_ok :: "http_life \<Rightarrow> bool" where
  "tunnels_ok s \<longleftrightarrow>
     (\<forall>c. c |\<in>| taken (li_drain s) \<longrightarrow> c |\<in>| li_tunnels s \<or> c |\<in>| li_done s) \<and>
     (\<forall>c. c |\<in>| li_hijacked s \<or> c |\<in>| li_tunnels s \<or> c |\<in>| li_done s \<longrightarrow> c |\<in>| ns_seen s) \<and>
     (\<forall>c. c |\<in>| ns_active s \<or> c |\<in>| li_hijacked s \<longrightarrow> c |\<notin>| li_tunnels s \<and> c |\<notin>| li_done s) \<and>
     (\<forall>c. c |\<in>| ns_active s \<longrightarrow> c |\<notin>| li_hijacked s)"

definition life_inv :: "http_life \<Rightarrow> bool" where
  "life_inv s \<longleftrightarrow> net_inv s \<and> drain_pc_ok s \<and> tunnels_ok s"

lemma serve_frame:
  assumes "net_serve_step name s s'"
  shows "li_hijacked s' = li_hijacked s" "li_tunnels s' = li_tunnels s" "li_closed s' = li_closed s" "li_done s' = li_done s"
    "li_drain s' = li_drain s" "ns_shut s' = ns_shut s" "ns_in_shutdown s' = ns_in_shutdown s"
  using assms by (cases rule: net_serve_step.cases; simp)+

lemma shutdown_frame:
  assumes "net_shutdown_step ctx s s'"
  shows "li_hijacked s' = li_hijacked s" "li_tunnels s' = li_tunnels s" "li_closed s' = li_closed s" "li_done s' = li_done s"
    "li_drain s' = li_drain s" "ns_active s' = ns_active s" "ns_seen s' = ns_seen s"
  using assms by (cases rule: net_shutdown_step.cases; simp)+

lemma shutdown_pc: "net_shutdown_step ctx s s' \<Longrightarrow> (\<nexists>e. ns_shut s = ShutEnd e) \<and> (\<nexists>e. ns_shut s = GaveUp e)"
  by (cases rule: net_shutdown_step.cases) auto

lemma tunnel_frame:
  assumes "tunnel_step s s'"
  shows "li_drain s' = li_drain s" "ns_shut s' = ns_shut s" "ns_serve s' = ns_serve s" "ns_lis s' = ns_lis s"
    "ns_ready s' = ns_ready s" "ns_in_shutdown s' = ns_in_shutdown s" "ns_seen s' = ns_seen s"
    "li_closed s |\<subseteq>| li_closed s'" "li_done s |\<subseteq>| li_done s'" "ns_active s' |\<subseteq>| ns_active s"
    "li_tunnels s |\<union>| li_done s |\<subseteq>| li_tunnels s' |\<union>| li_done s'"
  using assms by (cases rule: tunnel_step.cases; auto)+

lemma drain_frame:
  assumes "drain_step ctx s s'"
  shows "ns_shut s' = ns_shut s" "ns_serve s' = ns_serve s" "ns_lis s' = ns_lis s" "ns_ready s' = ns_ready s"
    "ns_in_shutdown s' = ns_in_shutdown s" "ns_seen s' = ns_seen s" "ns_active s' = ns_active s"
    "li_hijacked s' = li_hijacked s" "li_tunnels s' = li_tunnels s" "li_done s' = li_done s"
  using assms by (cases rule: drain_step.cases; simp)+

lemma net_inv_frame:
  assumes "net_inv s" and "ns_shut s' = ns_shut s" "ns_serve s' = ns_serve s" "ns_lis s' = ns_lis s"
    "ns_ready s' = ns_ready s" "ns_in_shutdown s' = ns_in_shutdown s" "ns_seen s' = ns_seen s" "ns_active s' |\<subseteq>| ns_active s"
  shows "net_inv s'"
proof -
  have "ns_active s = {||} \<Longrightarrow> ns_active s' = {||}" using assms(8) by simp
  moreover have "ns_active s |\<subseteq>| ns_seen s \<Longrightarrow> ns_active s' |\<subseteq>| ns_seen s" using assms(8) by (rule order_trans)
  ultimately show ?thesis using assms(1) unfolding net_inv_def assms(2-7) by metis
qed

lemma tunnels_ok_serve:
  assumes "net_serve_step name s s'" and "tunnels_ok s" shows "tunnels_ok s'"
  using assms(1) by (cases rule: net_serve_step.cases; use assms(2) in \<open>simp add: tunnels_ok_def\<close>) auto

lemma tunnels_ok_tunnel:
  assumes "tunnel_step s s'" and "net_inv s" and "tunnels_ok s" shows "tunnels_ok s'"
proof -
  have "ns_active s |\<subseteq>| ns_seen s" using assms(2) by (simp add: net_inv_def)
  with assms(1) show ?thesis
    by (cases rule: tunnel_step.cases; use assms(3) in \<open>simp add: tunnels_ok_def\<close>) auto
qed

lemma tunnels_ok_drain:
  assumes "drain_step ctx s s'" and "tunnels_ok s" shows "tunnels_ok s'"
  using assms(1) by (cases rule: drain_step.cases; use assms(2) in \<open>simp add: tunnels_ok_def\<close>)

lemma drain_pc_ok_drain:
  assumes "drain_step ctx s s'" and "drain_pc_ok s" shows "drain_pc_ok s'"
  using assms(1) by (cases rule: drain_step.cases; use assms(2) in \<open>simp add: drain_pc_ok_def\<close>)

lemma drain_pc_ok_frame:
  assumes "drain_pc_ok s" and "li_drain s' = li_drain s" and "ns_shut s' = ns_shut s" and "li_closed s |\<subseteq>| li_closed s'"
  shows "drain_pc_ok s'"
  using assms by (auto simp: drain_pc_ok_def split: drain_pc.splits)

lemma drain_pc_ok_shutdown:
  assumes "net_shutdown_step ctx s s'" and "drain_pc_ok s" shows "drain_pc_ok s'"
  using shutdown_pc [OF assms(1)] shutdown_frame [OF assms(1)] assms(2)
  by (auto simp: drain_pc_ok_def split: drain_pc.splits)

lemma life_step_inv:
  assumes "life_step ctx s s'" and "life_inv s" shows "life_inv s'"
proof -
  have inv: "net_inv s" "drain_pc_ok s" "tunnels_ok s" using assms(2) by (simp_all add: life_inv_def)
  consider "net_serve_step ''http'' s s'" | "net_shutdown_step ctx s s'" | "tunnel_step s s'" | "drain_step ctx s s'"
    using assms(1) by (auto simp: life_step_def)
  then show ?thesis
  proof cases
    case 1
    then show ?thesis
      using net_serve_step_inv tunnels_ok_serve drain_pc_ok_frame [OF inv(2)] serve_frame [OF 1] inv
      by (simp add: life_inv_def)
  next
    case 2
    then have "tunnels_ok s'" using shutdown_frame [OF 2] inv(3) by (simp add: tunnels_ok_def)
    then show ?thesis
      using net_shutdown_step_inv [OF 2] drain_pc_ok_shutdown [OF 2] inv by (simp add: life_inv_def)
  next
    case 3
    then show ?thesis
      using tunnels_ok_tunnel net_inv_frame [OF inv(1), of s'] drain_pc_ok_frame [OF inv(2)] tunnel_frame [OF 3] inv
      by (simp add: life_inv_def)
  next
    case 4
    then show ?thesis
      using tunnels_ok_drain drain_pc_ok_drain net_inv_frame [OF inv(1), of s'] drain_frame [OF 4] inv
      by (simp add: life_inv_def)
  qed
qed

lemma life_init_inv: "life_inv life_init"
  by (simp add: life_inv_def net_inv_def drain_pc_ok_def tunnels_ok_def life_init_def net_init_def net_server.defs)

interpretation life: invariant_system "\<lambda>s. s = life_init" "\<lambda>s s'. \<exists>ctx. life_step ctx s s'" life_inv
  by unfold_locales (auto simp: life_init_inv intro: life_step_inv)

subsection \<open>What Shutdown waits for\<close>

text \<open>Once \<open>net/http\<close> is shutting down, nothing is added to the connections in flight.\<close>

definition in_hand :: "http_life \<Rightarrow> nat fset" where
  "in_hand s = ns_active s |\<union>| li_hijacked s |\<union>| live s"

lemma life_step_shutting:
  assumes "life_step ctx s s'" and "ns_in_shutdown s"
  shows "ns_in_shutdown s'" and "in_hand s' |\<subseteq>| in_hand s" and "li_done s |\<subseteq>| li_done s'"
proof -
  consider "net_serve_step ''http'' s s'" | "net_shutdown_step ctx s s'" | "tunnel_step s s'" | "drain_step ctx s s'"
    using assms(1) by (auto simp: life_step_def)
  then have "ns_in_shutdown s' \<and> in_hand s' |\<subseteq>| in_hand s \<and> li_done s |\<subseteq>| li_done s'"
  proof cases
    case 1
    then show ?thesis using assms(2) by (cases rule: net_serve_step.cases) (auto simp: in_hand_def live_def)
  next
    case 2
    then show ?thesis using assms(2) by (cases rule: net_shutdown_step.cases) (auto simp: in_hand_def live_def)
  next
    case 3
    then show ?thesis using assms(2) by (cases rule: tunnel_step.cases) (auto simp: in_hand_def live_def)
  next
    case 4
    then show ?thesis using assms(2) by (cases rule: drain_step.cases) (auto simp: in_hand_def live_def)
  qed
  then show "ns_in_shutdown s'" and "in_hand s' |\<subseteq>| in_hand s" and "li_done s |\<subseteq>| li_done s'" by auto
qed

text \<open>\<open>Shutdown\<close> after it took the tunnels \<open>ts\<close>, with the error \<open>e\<close> of \<open>http.Server.Shutdown\<close>.\<close>

fun draining :: "goerr option \<Rightarrow> nat fset \<Rightarrow> http_life \<Rightarrow> drain_pc \<Rightarrow> bool" where
  "draining e ts s (WaitTunnels e' ts') \<longleftrightarrow> e' = e \<and> ts' = ts"
| "draining e ts s (ForceTunnels e' c ts') \<longleftrightarrow> e' = e \<and> ts' = ts"
| "draining e ts s (ForcedTunnels e' c ts') \<longleftrightarrow> e' = e \<and> ts' = ts"
| "draining e ts s (DrainReturned r) \<longleftrightarrow> ts |\<subseteq>| li_done s \<and> (e \<noteq> None \<longrightarrow> r = e)"
| "draining e ts s _ \<longleftrightarrow> False"

lemma draining_mono: "draining e ts s pc \<Longrightarrow> li_done s |\<subseteq>| li_done s' \<Longrightarrow> draining e ts s' pc"
  by (cases pc) auto

lemma draining_step:
  assumes "life_step ctx s s'" and "ns_in_shutdown s" and "draining e ts s (li_drain s)"
  shows "draining e ts s' (li_drain s')"
proof (cases "li_drain s' = li_drain s")
  case True
  then show ?thesis using draining_mono [OF assms(3)] life_step_shutting(3) [OF assms(1,2)] by simp
next
  case False
  then have "drain_step ctx s s'"
    using assms(1) serve_frame(5) shutdown_frame(5) tunnel_frame(1) unfolding life_step_def by metis
  then show ?thesis using assms(3) by (cases rule: drain_step.cases) auto
qed

lemma draining_steps:
  assumes "(\<lambda>a b. \<exists>ctx. life_step ctx a b)\<^sup>*\<^sup>* s s'" and "ns_in_shutdown s" and "draining e ts s (li_drain s)"
  shows "ns_in_shutdown s' \<and> draining e ts s' (li_drain s') \<and> in_hand s' |\<subseteq>| in_hand s"
  using assms
proof (induction rule: rtranclp_induct)
  case (step t u)
  then obtain ctx where "life_step ctx t u" by auto
  with step show ?case using life_step_shutting [of ctx t u] draining_step [of ctx t u e ts] by auto
qed simp

text \<open>
  C27: what the \<open>Shutdown\<close> of the HTTP listener achieves. When it returns, the CONNECT tunnels that were registered when
  \<open>http.Server.Shutdown\<close> ended carry no more traffic, however connections, handlers and pumps interleave; the only tunnels
  still alive are those of connections that were then being served or handed over, which it never sees; a nil error means that
  no connection was being served; and the error of \<open>http.Server.Shutdown\<close> is the one returned.
\<close>

theorem http_shutdown_covers:
  assumes "life.reachable s" and "drain_step ctx s t" and "li_drain s = TakeTunnels e"
    and "(\<lambda>a b. \<exists>ctx. life_step ctx a b)\<^sup>*\<^sup>* t s'" and "li_drain s' = DrainReturned r"
  shows "ns_in_shutdown s' \<and> li_tunnels s |\<inter>| live s' = {||} \<and> live s' |\<subseteq>| ns_active s |\<union>| li_hijacked s \<and>
         (r = None \<longrightarrow> ns_active s = {||}) \<and> (e \<noteq> None \<longrightarrow> r = e)"
proof -
  have inv: "net_inv s" "drain_pc_ok s" using life.reachable_inv [OF assms(1)] by (simp_all add: life_inv_def)
  then have e: "ns_shut s = ShutEnd e" using assms(3) by (simp add: drain_pc_ok_def)
  then have down: "ns_in_shutdown s" and idle: "e = None \<longrightarrow> ns_active s = {||}" using inv(1) by (auto simp: net_inv_def)
  from assms(2) have "draining e (li_tunnels s) t (li_drain t)" using assms(3) by (cases rule: drain_step.cases) auto
  moreover have step: "life_step ctx s t" using assms(2) by (simp add: life_step_def)
  ultimately have d: "draining e (li_tunnels s) s' (li_drain s')" "ns_in_shutdown s'" "in_hand s' |\<subseteq>| in_hand s"
    using draining_steps [OF assms(4)] life_step_shutting [OF step down] by auto
  have over: "li_tunnels s |\<subseteq>| li_done s'" and r: "e \<noteq> None \<longrightarrow> r = e" using d(1) assms(5) by auto
  have "live s' |\<subseteq>| ns_active s |\<union>| li_hijacked s"
    using d(3) over by (auto simp: in_hand_def live_def)
  then show ?thesis using over d(2) r idle by (auto simp: live_def)
qed

text \<open>A tunnel can outlive a \<open>Shutdown\<close> that returned nil: its connection had been handed over and not yet registered.\<close>

theorem late_tunnel:
  "\<exists>s. life.reachable s \<and> li_drain s = DrainReturned None \<and> 0 |\<in>| live s \<and> li_closed s = {||}"
proof -
  have go: "life.reachable t" if "life.reachable s" "life_step ctx s t" for s t ctx
    using life.reachable_step [OF that(1)] that(2) by blast
  let ?a = "life_init\<lparr>ns_lis := Listening, ns_ready := True, ns_serve := Bound\<rparr>"
  let ?b = "?a\<lparr>ns_serve := Serving\<rparr>"
  let ?c = "?b\<lparr>ns_active := finsert 0 {||}, ns_seen := finsert 0 {||}\<rparr>"
  let ?d = "?c\<lparr>ns_active := finsert 0 {||} |-| {|0|}, li_hijacked := finsert 0 {||}\<rparr>"
  let ?e = "?d\<lparr>ns_shut := AwaitReady\<rparr>"
  let ?f = "?e\<lparr>ns_shut := EnterShutdown\<rparr>"
  let ?g = "?f\<lparr>ns_in_shutdown := True, ns_shut := AwaitIdle, ns_lis := LisClosed\<rparr>"
  let ?h = "?g\<lparr>ns_shut := ShutEnd None\<rparr>"
  let ?i = "?h\<lparr>li_drain := TakeTunnels None\<rparr>"
  let ?j = "?i\<lparr>li_drain := DrainReturned None\<rparr>"
  let ?k = "?j\<lparr>li_hijacked := finsert 0 {||} |-| {|0|}, li_tunnels := finsert 0 {||}\<rparr>"
  note defs = life_init_def net_init_def net_server.defs life_step_def
  have "life.reachable life_init" by (auto simp: life.reachable_def)
  then have "life.reachable ?a" by (rule go [where ctx = None]) (use net_serve_step.bind [of life_init] in \<open>simp add: defs\<close>)
  then have "life.reachable ?b" by (rule go [where ctx = None]) (use net_serve_step.start [of ?a] in \<open>simp add: defs\<close>)
  then have "life.reachable ?c" by (rule go [where ctx = None]) (use net_serve_step.request [of ?b e 0] in \<open>simp add: defs\<close>)
  then have "life.reachable ?d" by (rule go [where ctx = None]) (use tunnel_step.hijack [of 0 ?c] in \<open>simp add: defs\<close>)
  then have "life.reachable ?e" by (rule go [where ctx = None]) (use net_shutdown_step.call [of ?d] in \<open>simp add: defs\<close>)
  then have "life.reachable ?f" by (rule go [where ctx = None]) (use net_shutdown_step.ready [of ?e] in \<open>simp add: defs\<close>)
  then have "life.reachable ?g" by (rule go [where ctx = None]) (use net_shutdown_step.enter [of ?f] in \<open>simp add: defs\<close>)
  then have "life.reachable ?h" by (rule go [where ctx = None]) (use net_shutdown_step.idle [of ?g] in \<open>simp add: defs\<close>)
  then have "life.reachable ?i" by (rule go [where ctx = None]) (use drain_step.server_down [of ?h None] in \<open>simp add: defs\<close>)
  then have "life.reachable ?j" by (rule go [where ctx = None]) (use drain_step.no_tunnels [of ?i None] in \<open>simp add: defs\<close>)
  then have "life.reachable ?k" by (rule go [where ctx = None]) (use tunnel_step.register_tunnel [of 0 ?j] in \<open>simp add: defs\<close>)
  moreover have "li_drain ?k = DrainReturned None \<and> 0 |\<in>| live ?k \<and> li_closed ?k = {||}" by (simp add: defs live_def)
  ultimately show ?thesis by blast
qed

end
