(* ===== verification/RunLife.thy ===== *)
theory RunLife
  imports Servers
begin

text \<open>
  The end of \<open>run\<close> in \<open>cmd/tunnelsmith/main.go\<close>: the error group of the servers and the background loops, the signal, the
  \<open>Shutdown\<close> calls one after the other under one context of 30 seconds, and the wait for the group. It composes the life of the
  HTTP listener and of the servers on \<open>net/http\<close> (\<open>Servers\<close>) with that of the SOCKS listener (\<open>Socks\<close>). \<open>errgroup\<close> is what its
  documentation says: the first error cancels the group's context and is what \<open>Wait\<close> returns once all have returned.
\<close>

subsection \<open>The state and its steps\<close>

datatype main_pc =
    Running
  | Stopping "string list"      \<comment> \<open>the servers still to be shut down, the first one under way\<close>
  | WaitingGroup
  | Exited "goerr option"

text \<open>
  \<open>rn_side\<close> holds the metrics, UI and control servers that are configured; \<open>rn_group\<close> are the goroutines of the error group that
  have not returned, \<open>rn_err\<close> is the first error one returned, \<open>rn_ctx\<close> the error of the shutdown context once it has ended.
\<close>

record run_state =
  rn_http :: http_life
  rn_socks :: socks_server
  rn_side :: "(string, net_server) fmap"
  rn_group :: "string fset"
  rn_err :: "goerr option"
  rn_cancelled :: bool
  rn_ctx :: "goerr option"
  rn_main :: main_pc

definition side_names :: "string list" where
  "side_names = [''metrics'', ''ui'', ''control'']"

definition shutdown_order :: "string list" where
  "shutdown_order = [''http'', ''socks''] @ side_names"

definition servers :: "run_state \<Rightarrow> string fset" where
  "servers s = {|''http'', ''socks''|} |\<union>| fmdom (rn_side s)"

text \<open>Nothing has run yet; the group holds the servers and any number of background loops.\<close>

definition run_init :: "run_state \<Rightarrow> bool" where
  "run_init s \<longleftrightarrow>
     rn_http s = life_init \<and> rn_socks s = socks_init \<and> fmdom (rn_side s) |\<subseteq>| fset_of_list side_names \<and>
     (\<forall>n u. fmlookup (rn_side s) n = Some u \<longrightarrow> u = net_init) \<and>
     rn_group s |\<inter>| fset_of_list shutdown_order = servers s \<and> rn_err s = None \<and> \<not> rn_cancelled s \<and> rn_ctx s = None \<and>
     rn_main s = Running"

text \<open>A goroutine of the group returns: its first error is kept and cancels the context of the group.\<close>

definition group_return :: "string \<Rightarrow> goerr option \<Rightarrow> run_state \<Rightarrow> run_state" where
  "group_return n e s =
     s\<lparr>rn_group := rn_group s |-| {|n|},
       rn_err := (if rn_err s = None then e else rn_err s),
       rn_cancelled := (rn_cancelled s \<or> e \<noteq> None)\<rparr>"

text \<open>The steps of the SOCKS \<open>Shutdown\<close> that need the end of its context.\<close>

definition socks_ctx_ok :: "goerr option \<Rightarrow> socks_server \<Rightarrow> socks_server \<Rightarrow> bool" where
  "socks_ctx_ok ctx v v' \<longleftrightarrow>
     (\<forall>e. ss_shut v = WaitReady \<and> ss_shut v' = ShutReturned e \<longrightarrow> ctx \<noteq> None \<and> e = ctx) \<and>
     (\<forall>e. ss_shut v' = ForceClosing e \<longrightarrow> ctx \<noteq> None)"

definition run_result :: "goerr option \<Rightarrow> goerr option" where
  "run_result err =
     (case err of
        None \<Rightarrow> None
      | Some e \<Rightarrow> if errors_is e Canceled then None else Some (errorf_w ''listener exited'' e))"

text \<open>What the goroutines of the group do.\<close>

inductive group_step :: "run_state \<Rightarrow> run_state \<Rightarrow> bool" where
  http_serves: "net_serve_step ''http'' (rn_http s) h \<Longrightarrow> group_step s (s\<lparr>rn_http := h\<rparr>)"
| http_tunnels: "tunnel_step (rn_http s) h \<Longrightarrow> group_step s (s\<lparr>rn_http := h\<rparr>)"
| socks_serves: "serve_step (rn_socks s) v \<or> handler_step (rn_socks s) v \<Longrightarrow> group_step s (s\<lparr>rn_socks := v\<rparr>)"
| side_serves: "fmlookup (rn_side s) n = Some u \<Longrightarrow> net_serve_step n u v \<Longrightarrow>
    group_step s (s\<lparr>rn_side := fmupd n v (rn_side s)\<rparr>)"
| http_returns: "''http'' |\<in>| rn_group s \<Longrightarrow> ns_serve (rn_http s) = ServeEnd e \<Longrightarrow> group_step s (group_return ''http'' e s)"
| socks_returns: "''socks'' |\<in>| rn_group s \<Longrightarrow> ss_serve (rn_socks s) = ServeReturned e \<Longrightarrow>
    group_step s (group_return ''socks'' e s)"
| side_returns: "n |\<in>| rn_group s \<Longrightarrow> fmlookup (rn_side s) n = Some u \<Longrightarrow> ns_serve u = ServeEnd e \<Longrightarrow>
    group_step s (group_return n e s)"
| task_returns: "n |\<in>| rn_group s \<Longrightarrow> n \<notin> set shutdown_order \<Longrightarrow> group_step s (group_return n e s)"

text \<open>What the main goroutine does, and what happens to its contexts. A server that is not configured is nil and skipped.\<close>

inductive main_step :: "run_state \<Rightarrow> run_state \<Rightarrow> bool" where
  signal: "main_step s (s\<lparr>rn_cancelled := True\<rparr>)"
| stop: "rn_main s = Running \<Longrightarrow> rn_cancelled s \<Longrightarrow> main_step s (s\<lparr>rn_main := Stopping shutdown_order\<rparr>)"
| deadline: "rn_main s = Stopping ns \<Longrightarrow> rn_ctx s = None \<Longrightarrow> main_step s (s\<lparr>rn_ctx := Some e\<rparr>)"
| http_shutdown: "rn_main s = Stopping (''http'' # ns) \<Longrightarrow>
    net_shutdown_step (rn_ctx s) (rn_http s) h \<or> drain_step (rn_ctx s) (rn_http s) h \<Longrightarrow> main_step s (s\<lparr>rn_http := h\<rparr>)"
| http_down: "rn_main s = Stopping (''http'' # ns) \<Longrightarrow> li_drain (rn_http s) = DrainReturned e \<Longrightarrow>
    main_step s (s\<lparr>rn_main := Stopping ns\<rparr>)"
| socks_shutdown: "rn_main s = Stopping (''socks'' # ns) \<Longrightarrow> shutdown_step (rn_socks s) v \<Longrightarrow>
    socks_ctx_ok (rn_ctx s) (rn_socks s) v \<Longrightarrow> main_step s (s\<lparr>rn_socks := v\<rparr>)"
| socks_down: "rn_main s = Stopping (''socks'' # ns) \<Longrightarrow> ss_shut (rn_socks s) = ShutReturned e \<Longrightarrow>
    main_step s (s\<lparr>rn_main := Stopping ns\<rparr>)"
| side_shutdown: "rn_main s = Stopping (n # ns) \<Longrightarrow> n \<in> set side_names \<Longrightarrow> fmlookup (rn_side s) n = Some u \<Longrightarrow>
    net_shutdown_step (rn_ctx s) u v \<Longrightarrow> main_step s (s\<lparr>rn_side := fmupd n v (rn_side s)\<rparr>)"
| side_down: "rn_main s = Stopping (n # ns) \<Longrightarrow> n \<in> set side_names \<Longrightarrow> fmlookup (rn_side s) n = Some u \<Longrightarrow>
    ns_shut u = ShutEnd e \<or> ns_shut u = GaveUp c \<Longrightarrow> main_step s (s\<lparr>rn_main := Stopping ns\<rparr>)"
| side_nil: "rn_main s = Stopping (n # ns) \<Longrightarrow> n \<in> set side_names \<Longrightarrow> fmlookup (rn_side s) n = None \<Longrightarrow>
    main_step s (s\<lparr>rn_main := Stopping ns\<rparr>)"
| wait_group: "rn_main s = Stopping [] \<Longrightarrow> main_step s (s\<lparr>rn_main := WaitingGroup\<rparr>)"
| exit: "rn_main s = WaitingGroup \<Longrightarrow> rn_group s = {||} \<Longrightarrow> main_step s (s\<lparr>rn_main := Exited (run_result (rn_err s))\<rparr>)"

inductive_cases group_stepE: "group_step s s'"
inductive_cases main_stepE: "main_step s s'"

definition run_step :: "run_state \<Rightarrow> run_state \<Rightarrow> bool" where
  "run_step s s' \<longleftrightarrow> group_step s s' \<or> main_step s s'"

subsection \<open>What holds in every state\<close>

text \<open>Whether a server's \<open>Shutdown\<close> was called, has returned, and what its \<open>Serve\<close> returned.\<close>

definition untouched :: "run_state \<Rightarrow> string \<Rightarrow> bool" where
  "untouched s n \<longleftrightarrow>
     (if n = ''http'' then ns_shut (rn_http s) = ShutNotCalled \<and> li_drain (rn_http s) = NotDraining
      else if n = ''socks'' then ss_shut (rn_socks s) = NotShut
      else (\<forall>u. fmlookup (rn_side s) n = Some u \<longrightarrow> ns_shut u = ShutNotCalled))"

definition net_down :: "'a net_server_scheme \<Rightarrow> bool" where
  "net_down u \<longleftrightarrow> (\<exists>e. ns_shut u = ShutEnd e) \<or> (\<exists>c. ns_shut u = GaveUp c)"

definition down :: "run_state \<Rightarrow> string \<Rightarrow> bool" where
  "down s n \<longleftrightarrow>
     (if n = ''http'' then \<exists>e. li_drain (rn_http s) = DrainReturned e
      else if n = ''socks'' then \<exists>e. ss_shut (rn_socks s) = ShutReturned e
      else (\<forall>u. fmlookup (rn_side s) n = Some u \<longrightarrow> net_down u))"

fun net_result :: "net_serve \<Rightarrow> goerr option option" where
  "net_result (ServeEnd e) = Some e"
| "net_result _ = None"

fun socks_result :: "serve_pc \<Rightarrow> goerr option option" where
  "socks_result (ServeReturned e) = Some e"
| "socks_result _ = None"

definition serve_result :: "run_state \<Rightarrow> string \<Rightarrow> goerr option option" where
  "serve_result s n =
     (if n = ''http'' then net_result (ns_serve (rn_http s))
      else if n = ''socks'' then socks_result (ss_serve (rn_socks s))
      else Option.bind (fmlookup (rn_side s) n) (\<lambda>u. net_result (ns_serve u)))"

definition parts_ok :: "run_state \<Rightarrow> bool" where
  "parts_ok s \<longleftrightarrow>
     life_inv (rn_http s) \<and> socks_inv (rn_socks s) \<and> (ss_serve (rn_socks s) = ServeReturned None \<longrightarrow> ss_lis (rn_socks s) = LisClosed) \<and>
     (\<forall>n u. fmlookup (rn_side s) n = Some u \<longrightarrow> net_inv u \<and> n \<in> set side_names)"

definition phase_ok :: "run_state \<Rightarrow> bool" where
  "phase_ok s \<longleftrightarrow>
     (case rn_main s of
        Running \<Rightarrow> (\<forall>n \<in> set shutdown_order. untouched s n) \<and> rn_ctx s = None
      | Stopping ns \<Rightarrow> rn_cancelled s \<and>
          (\<exists>before. shutdown_order = before @ ns \<and> (\<forall>n \<in> set before. down s n) \<and> (\<forall>n \<in> set (tl ns). untouched s n))
      | WaitingGroup \<Rightarrow> rn_cancelled s \<and> (\<forall>n \<in> set shutdown_order. down s n)
      | Exited r \<Rightarrow> rn_cancelled s \<and> (\<forall>n \<in> set shutdown_order. down s n) \<and> rn_group s = {||} \<and> r = run_result (rn_err s))"

definition group_ok :: "run_state \<Rightarrow> bool" where
  "group_ok s \<longleftrightarrow>
     (rn_err s \<noteq> None \<longrightarrow> rn_cancelled s) \<and>
     (\<forall>n. n |\<in>| servers s \<and> n |\<notin>| rn_group s \<longrightarrow>
        (\<exists>e. serve_result s n = Some e \<and> (e \<noteq> None \<longrightarrow> rn_err s \<noteq> None))) \<and>
     (\<forall>n. n |\<in>| rn_group s \<and> n \<in> set shutdown_order \<longrightarrow> n |\<in>| servers s)"

definition run_inv :: "run_state \<Rightarrow> bool" where
  "run_inv s \<longleftrightarrow> parts_ok s \<and> phase_ok s \<and> group_ok s"

lemma side_names_distinct [simp]: "n \<in> set side_names \<Longrightarrow> n \<noteq> ''http'' \<and> n \<noteq> ''socks''"
  by (auto simp: side_names_def)

lemma run_init_inv: "run_init s \<Longrightarrow> run_inv s"
proof -
  assume init: "run_init s"
  have "net_inv u \<and> n \<in> set side_names" if "fmlookup (rn_side s) n = Some u" for n u
    using init that fmdomI [OF that] net_init_inv by (auto simp: run_init_def fset_of_list.rep_eq)
  note side = this
  have fresh: "ns_shut u = ShutNotCalled" if "fmlookup (rn_side s) n = Some u" for n u
    using init that unfolding run_init_def net_init_def by fastforce
  have "parts_ok s"
    using side init life_init_inv socks.init_inv by (simp add: run_init_def parts_ok_def socks_init_def)
  moreover have "phase_ok s"
    using init fresh
    by (simp add: run_init_def phase_ok_def untouched_def life_init_def net_init_def socks_init_def net_server.defs)
  moreover have "group_ok s"
    using init by (auto simp: run_init_def group_ok_def fset_of_list.rep_eq fset_eq_iff)
  ultimately show ?thesis by (simp add: run_inv_def)
qed

subsection \<open>Its preservation\<close>

lemma net_serve_frame:
  assumes "net_serve_step name u v"
  shows "ns_shut v = ns_shut u" "ns_in_shutdown v = ns_in_shutdown u"
    "net_result (ns_serve u) = Some e \<Longrightarrow> net_result (ns_serve v) = Some e"
  using assms by (cases rule: net_serve_step.cases; simp)+

lemma net_shutdown_frame: "net_shutdown_step ctx u v \<Longrightarrow> ns_serve v = ns_serve u"
  by (cases rule: net_shutdown_step.cases) auto

lemma socks_serve_frame:
  assumes "serve_step u v \<or> handler_step u v"
  shows "ss_shut v = ss_shut u" "socks_result (ss_serve u) = Some e \<Longrightarrow> socks_result (ss_serve v) = Some e"
    "ss_serve v = ServeReturned None \<Longrightarrow> ss_serve u = ServeReturned None \<or> ss_lis u = LisClosed"
  using assms
  by (auto elim!: serve_stepE handler_stepE simp: registerConn_def unregisterConn_def accept_failed_def split: if_splits)

lemma socks_serve_lis:
  assumes "serve_step u v \<or> handler_step u v" and "socks_inv u"
  shows "ss_lis v = LisClosed \<longleftrightarrow> ss_lis u = LisClosed"
proof -
  have "ss_serve u = NotServing \<Longrightarrow> ss_lis u = NoListener" using assms(2) by (auto simp: socks_inv_def serve_ok_def)
  then show ?thesis
    using assms(1) by (auto elim!: serve_stepE handler_stepE simp: registerConn_def unregisterConn_def)
qed

lemma socks_shutdown_frame:
  assumes "shutdown_step u v"
  shows "ss_serve v = ss_serve u" "ss_lis u = LisClosed \<Longrightarrow> ss_lis v = LisClosed"
  using assms by (auto elim!: shutdown_stepE simp: markDone_def)

lemma parts_ok_side:
  "parts_ok s \<Longrightarrow> n \<in> set side_names \<Longrightarrow> net_inv v \<Longrightarrow> parts_ok (s\<lparr>rn_side := fmupd n v (rn_side s)\<rparr>)"
  by (auto simp: parts_ok_def)

lemma parts_ok_group:
  assumes "group_step s s'" and "parts_ok s" shows "parts_ok s'"
  using assms(1)
proof (cases rule: group_step.cases)
  case (http_serves h)
  then have "life_step None (rn_http s) h" by (simp add: life_step_def)
  then show ?thesis using assms(2) http_serves life_step_inv by (auto simp: parts_ok_def)
next
  case (http_tunnels h)
  then have "life_step None (rn_http s) h" by (simp add: life_step_def)
  then show ?thesis using assms(2) http_tunnels life_step_inv by (auto simp: parts_ok_def)
next
  case (socks_serves v)
  then have "socks_step (rn_socks s) v" by (auto simp: socks_step_def)
  then show ?thesis using assms(2) socks_serves(1) socks_step_inv socks_serve_frame(3) [OF socks_serves(2)]
      socks_serve_lis [OF socks_serves(2)]
    by (auto simp: parts_ok_def)
next
  case (side_serves n u v)
  then have "net_inv v" "n \<in> set side_names" using assms(2) net_serve_step_inv [OF side_serves(3)] by (auto simp: parts_ok_def)
  then show ?thesis using parts_ok_side [OF assms(2)] side_serves(1) by simp
qed (use assms(2) in \<open>simp_all add: parts_ok_def group_return_def\<close>)

lemma parts_ok_main:
  assumes "main_step s s'" and "parts_ok s" shows "parts_ok s'"
  using assms(1)
proof (cases rule: main_step.cases)
  case (http_shutdown ns h)
  then have "life_step (rn_ctx s) (rn_http s) h" by (auto simp: life_step_def)
  then show ?thesis using assms(2) http_shutdown life_step_inv by (auto simp: parts_ok_def)
next
  case (socks_shutdown ns v)
  then have "socks_step (rn_socks s) v" by (simp add: socks_step_def)
  then show ?thesis using assms(2) socks_shutdown socks_step_inv socks_shutdown_frame [OF socks_shutdown(3)]
    by (auto simp: parts_ok_def)
next
  case (side_shutdown n ns u v)
  then have "net_inv v" "n \<in> set side_names" using assms(2) net_shutdown_step_inv [OF side_shutdown(5)] by (auto simp: parts_ok_def)
  then show ?thesis using parts_ok_side [OF assms(2)] side_shutdown(1) by simp
qed (use assms(2) in \<open>simp_all add: parts_ok_def\<close>)

text \<open>The goroutines of the group change no \<open>Shutdown\<close>, and the results of \<open>Serve\<close> are final.\<close>

lemma untouched_group:
  assumes "group_step s s'" shows "untouched s' n = untouched s n"
  using assms
proof (cases rule: group_step.cases)
  case (side_serves m u v)
  then show ?thesis using net_serve_frame(1) [OF side_serves(3)] by (auto simp: untouched_def)
qed (auto simp: untouched_def group_return_def serve_frame tunnel_frame net_serve_frame dest: serve_step_frame(1) handler_step_frame(1))

lemma down_group:
  assumes "group_step s s'" shows "down s' n = down s n"
  using assms
proof (cases rule: group_step.cases)
  case (side_serves m u v)
  then show ?thesis using net_serve_frame(1) [OF side_serves(3)] by (auto simp: down_def net_down_def)
qed (auto simp: down_def group_return_def serve_frame tunnel_frame net_serve_frame dest: serve_step_frame(1) handler_step_frame(1))

lemma step_keeps_result:
  assumes "run_step s s'" and "serve_result s n = Some e" shows "serve_result s' n = Some e"
  using assms(1) unfolding run_step_def
proof
  assume "group_step s s'"
  then show ?thesis
  proof (cases rule: group_step.cases)
    case (socks_serves v)
    then show ?thesis using assms(2) socks_serve_frame(2) [OF socks_serves(2)] by (auto simp: serve_result_def)
  next
    case (http_tunnels h)
    then show ?thesis using assms(2) tunnel_frame(3) [OF http_tunnels(2)] by (auto simp: serve_result_def)
  next
    case (side_serves m u v)
    then show ?thesis using assms(2) net_serve_frame(3) [OF side_serves(3)] by (auto simp: serve_result_def)
  qed (use assms(2) in \<open>auto simp: serve_result_def group_return_def net_serve_frame(3)\<close>)
next
  assume "main_step s s'"
  then show ?thesis
  proof (cases rule: main_step.cases)
    case (http_shutdown ns h)
    then have "ns_serve h = ns_serve (rn_http s)" using net_shutdown_frame drain_frame(2) by auto
    then show ?thesis using assms(2) http_shutdown(1) by (auto simp: serve_result_def)
  next
    case (side_shutdown m ns u v)
    then show ?thesis using assms(2) net_shutdown_frame [OF side_shutdown(5)] by (auto simp: serve_result_def)
  qed (use assms(2) in \<open>auto simp: serve_result_def socks_shutdown_frame(1)\<close>)
qed

lemma step_servers:
  assumes "run_step s s'" shows "servers s' = servers s"
  using assms unfolding run_step_def
  by (auto elim!: group_stepE main_stepE simp: servers_def group_return_def dest: fmdomI)

lemma shutdown_order_split:
  assumes "shutdown_order = before @ n # ns" shows "n \<notin> set before \<and> n \<notin> set ns \<and> n \<in> set shutdown_order"
proof -
  have "distinct shutdown_order" by (simp add: shutdown_order_def side_names_def)
  then show ?thesis unfolding assms by auto
qed

lemma phase_ok_group:
  assumes "group_step s s'" and "phase_ok s" shows "phase_ok s'"
proof -
  note same = untouched_group [OF assms(1)] down_group [OF assms(1)]
  have "rn_main s' = rn_main s" "rn_ctx s' = rn_ctx s" "rn_cancelled s \<Longrightarrow> rn_cancelled s'"
    "rn_group s = {||} \<Longrightarrow> rn_group s' = {||} \<and> rn_err s' = rn_err s"
    using assms(1) by (auto elim!: group_stepE simp: group_return_def)
  then show ?thesis using assms(2) by (auto simp: phase_ok_def same split: main_pc.splits)
qed

text \<open>A \<open>Shutdown\<close> that goes on leaves the others as they are.\<close>

lemma phase_ok_progress:
  assumes "phase_ok s" and "rn_main s = Stopping (n # ns)"
    and "rn_main s' = rn_main s" "rn_cancelled s' = rn_cancelled s"
    and "\<And>m. m \<noteq> n \<Longrightarrow> untouched s' m = untouched s m \<and> down s' m = down s m"
  shows "phase_ok s'"
proof -
  obtain before where b: "shutdown_order = before @ n # ns" "\<forall>m \<in> set before. down s m" "\<forall>m \<in> set ns. untouched s m" "rn_cancelled s"
    using assms(1,2) by (auto simp: phase_ok_def)
  note split = shutdown_order_split [OF b(1)]
  have "\<forall>m \<in> set before. down s' m" using b(2) split assms(5) by metis
  moreover have "\<forall>m \<in> set ns. untouched s' m" using b(3) split assms(5) by metis
  ultimately show ?thesis using assms(2-4) b(1,4) by (auto simp: phase_ok_def)
qed

text \<open>The next server.\<close>

lemma phase_ok_next:
  assumes "phase_ok s" and "rn_main s = Stopping (n # ns)" and "down s n"
  shows "phase_ok (s\<lparr>rn_main := Stopping ns\<rparr>)"
proof -
  let ?s' = "s\<lparr>rn_main := Stopping ns\<rparr>"
  have same: "untouched ?s' m = untouched s m" "down ?s' m = down s m" for m by (simp_all add: untouched_def down_def)
  obtain before where b: "shutdown_order = before @ n # ns" "\<forall>m \<in> set before. down s m" "\<forall>m \<in> set ns. untouched s m" "rn_cancelled s"
    using assms(1,2) by (auto simp: phase_ok_def)
  have "shutdown_order = (before @ [n]) @ ns \<and> (\<forall>m \<in> set (before @ [n]). down s m)" using b assms(3) by simp
  then have "\<exists>before. shutdown_order = before @ ns \<and> (\<forall>m \<in> set before. down s m)" by blast
  moreover have "\<forall>m \<in> set (tl ns). untouched s m" using b(3) by (cases ns) simp_all
  ultimately show ?thesis using b(4) by (simp add: phase_ok_def same)
qed

lemma phase_ok_main:
  assumes "main_step s s'" and "phase_ok s" shows "phase_ok s'"
  using assms(1)
proof (cases rule: main_step.cases)
  case signal
  then show ?thesis using assms(2) by (auto simp: phase_ok_def untouched_def down_def split: main_pc.splits)
next
  case stop
  then have "\<forall>n \<in> set (tl shutdown_order). untouched s' n"
    using assms(2) by (auto simp: phase_ok_def untouched_def shutdown_order_def)
  then show ?thesis using stop by (auto simp: phase_ok_def intro: exI [of _ "[]"])
next
  case (deadline ns e)
  then show ?thesis using assms(2) by (auto simp: phase_ok_def untouched_def down_def)
next
  case (http_shutdown ns h)
  then show ?thesis by (intro phase_ok_progress [OF assms(2), of "''http''" ns]) (auto simp: untouched_def down_def)
next
  case (http_down ns e)
  then show ?thesis using phase_ok_next [OF assms(2) http_down(2)] by (simp add: down_def)
next
  case (socks_shutdown ns v)
  then show ?thesis by (intro phase_ok_progress [OF assms(2), of "''socks''" ns]) (auto simp: untouched_def down_def)
next
  case (socks_down ns e)
  then show ?thesis using phase_ok_next [OF assms(2) socks_down(2)] by (simp add: down_def)
next
  case (side_shutdown n ns u v)
  then show ?thesis by (intro phase_ok_progress [OF assms(2), of n ns]) (auto simp: untouched_def down_def)
next
  case (side_down n ns u e c)
  then show ?thesis using phase_ok_next [OF assms(2) side_down(2)] side_down by (auto simp: down_def net_down_def)
next
  case (side_nil n ns)
  then show ?thesis using phase_ok_next [OF assms(2) side_nil(2)] by (auto simp: down_def)
next
  case wait_group
  then show ?thesis using assms(2) by (auto simp: phase_ok_def down_def)
next
  case exit
  then show ?thesis using assms(2) by (auto simp: phase_ok_def down_def)
qed

lemma group_ok_return:
  assumes "group_ok s" and "n |\<in>| servers s \<Longrightarrow> serve_result s n = Some e"
  shows "group_ok (group_return n e s)"
proof -
  have same: "servers (group_return n e s) = servers s" "serve_result (group_return n e s) m = serve_result s m" for m
    by (simp_all add: servers_def serve_result_def group_return_def)
  show ?thesis using assms unfolding group_ok_def same by (auto simp: group_return_def)
qed

lemma group_ok_frame:
  assumes "group_ok s" and "run_step s s'" and "rn_group s' = rn_group s" and "rn_err s' = rn_err s"
    and "rn_cancelled s \<Longrightarrow> rn_cancelled s'"
  shows "group_ok s'"
proof -
  have "\<exists>e. serve_result s' n = Some e \<and> (e \<noteq> None \<longrightarrow> rn_err s \<noteq> None)"
    if n: "n |\<in>| servers s" "n |\<notin>| rn_group s" for n
    using n assms(1) step_keeps_result [OF assms(2)] unfolding group_ok_def by metis
  then show ?thesis using assms(1,3-5) unfolding group_ok_def step_servers [OF assms(2)] by metis
qed

lemma group_ok_step:
  assumes "run_step s s'" and "group_ok s" and "parts_ok s" shows "group_ok s'"
proof -
  have side: "n \<in> set side_names" if "fmlookup (rn_side s) n = Some u" for n u
    using assms(3) that by (auto simp: parts_ok_def)
  consider (ret) n e where "s' = group_return n e s" "n |\<in>| servers s \<Longrightarrow> serve_result s n = Some e"
    | (same) "rn_group s' = rn_group s" "rn_err s' = rn_err s" "rn_cancelled s \<Longrightarrow> rn_cancelled s'"
    using assms(1) unfolding run_step_def
  proof (elim disjE)
    assume "group_step s s'"
    then show thesis
    proof (cases rule: group_step.cases)
      case (side_returns n u e)
      then show thesis using that(1) [of n e] side_names_distinct [OF side [OF side_returns(3)]] by (simp add: serve_result_def)
    next
      case (task_returns n e)
      have "fmlookup (rn_side s) n = None" using side task_returns(3) by (cases "fmlookup (rn_side s) n") (auto simp: shutdown_order_def)
      then have "n |\<notin>| servers s" using task_returns(3) by (auto simp: servers_def shutdown_order_def fmdom_notI)
      then show thesis using that(1) [OF task_returns(1)] by simp
    qed (use that(1) [of "''http''"] that(1) [of "''socks''"] that(2) in \<open>simp_all add: serve_result_def\<close>)
  next
    assume "main_step s s'"
    then show thesis by (cases rule: main_step.cases) (use that(2) in simp_all)
  qed
  then show ?thesis
    by cases (use group_ok_return [OF assms(2)] group_ok_frame [OF assms(2,1)] in simp_all)
qed

lemma run_step_inv:
  assumes "run_step s s'" and "run_inv s" shows "run_inv s'"
  using assms group_ok_step [OF assms(1)] parts_ok_group parts_ok_main phase_ok_group phase_ok_main
  by (auto simp: run_inv_def run_step_def)

interpretation running: invariant_system run_init run_step run_inv
  by unfold_locales (auto intro: run_init_inv run_step_inv)


end
