(* ===== verification/RunExit.thy ===== *)
theory RunExit
  imports RunLife
begin

text \<open>
  Whether the process ends once \<open>run\<close> waits for its group: exactly when every \<open>Shutdown\<close> got past its wait for the server to
  be ready. One of them giving up first is enough to keep the process alive.
\<close>

subsection \<open>Servers that stop\<close>

definition net_stoppable :: "'a net_server_scheme \<Rightarrow> bool" where
  "net_stoppable u \<longleftrightarrow> ns_in_shutdown u \<and> (\<forall>e. net_result (ns_serve u) \<noteq> Some (Some e))"

definition socks_stoppable :: "socks_server \<Rightarrow> bool" where
  "socks_stoppable u \<longleftrightarrow> ss_lis u = LisClosed \<and> (\<forall>e. socks_result (ss_serve u) \<noteq> Some (Some e))"

text \<open>Its \<open>Shutdown\<close> closed its listener, and its \<open>Serve\<close> has not failed.\<close>

definition stoppable :: "run_state \<Rightarrow> string \<Rightarrow> bool" where
  "stoppable s n \<longleftrightarrow>
     (if n = ''http'' then net_stoppable (rn_http s)
      else if n = ''socks'' then socks_stoppable (rn_socks s)
      else (\<forall>u. fmlookup (rn_side s) n = Some u \<longrightarrow> net_stoppable u))"

lemma stoppable_return [simp]: "stoppable (group_return m e s) n = stoppable s n"
  by (simp add: stoppable_def group_return_def)

definition over :: "run_state \<Rightarrow> bool" where
  "over s \<longleftrightarrow> rn_main s = WaitingGroup \<or> (\<exists>r. rn_main s = Exited r)"

lemma over_step:
  assumes "run_step s s'" and "over s" shows "over s'"
  using assms unfolding run_step_def
  by (auto elim!: group_stepE main_stepE simp: over_def group_return_def)

lemma net_stoppable_back: "net_serve_step name u v \<Longrightarrow> net_stoppable v \<Longrightarrow> net_stoppable u"
  using net_serve_frame by (fastforce simp: net_stoppable_def)

lemma tunnel_stoppable_back: "tunnel_step u v \<Longrightarrow> net_stoppable v \<Longrightarrow> net_stoppable u"
  using tunnel_frame by (simp add: net_stoppable_def)

lemma socks_stoppable_back:
  "serve_step u v \<or> handler_step u v \<Longrightarrow> socks_inv u \<Longrightarrow> socks_stoppable v \<Longrightarrow> socks_stoppable u"
  using socks_serve_lis socks_serve_frame(2) by (fastforce simp: socks_stoppable_def)

text \<open>While \<open>run\<close> waits, a server that cannot stop never can.\<close>

lemma stoppable_back:
  assumes "run_step s s'" and "over s" and "run_inv s" and "stoppable s' n" shows "stoppable s n"
  using assms(1) unfolding run_step_def
proof
  assume "group_step s s'"
  then show ?thesis
  proof (cases rule: group_step.cases)
    case (socks_serves v)
    have "socks_inv (rn_socks s)" using assms(3) by (simp add: run_inv_def parts_ok_def)
    from socks_stoppable_back [OF socks_serves(2) this] show ?thesis
      using assms(4) socks_serves(1) by (auto simp: stoppable_def)
  next
    case (side_serves m u v)
    then show ?thesis using assms(4) net_stoppable_back [OF side_serves(3)] side_serves(1,2)
      by (cases "m = n") (auto simp: stoppable_def)
  next
    case (http_serves h)
    then show ?thesis using assms(4) net_stoppable_back [OF http_serves(2)] by (auto simp: stoppable_def)
  next
    case (http_tunnels h)
    then show ?thesis using assms(4) tunnel_stoppable_back [OF http_tunnels(2)] by (auto simp: stoppable_def)
  qed (use assms(4) in simp_all)
next
  assume "main_step s s'"
  then show ?thesis
    by (cases rule: main_step.cases) (use assms(2,4) in \<open>auto simp: stoppable_def over_def\<close>)
qed

lemma reachable_steps: "run_step\<^sup>*\<^sup>* s s' \<Longrightarrow> running.reachable s \<Longrightarrow> running.reachable s'"
  by (induction rule: rtranclp_induct) (auto intro: running.reachable_step)

lemma stoppable_back_steps:
  assumes "run_step\<^sup>*\<^sup>* s s'" and "running.reachable s" and "over s"
  shows "over s' \<and> (\<forall>n. stoppable s' n \<longrightarrow> stoppable s n)"
  using assms
proof (induction rule: rtranclp_induct)
  case (step t u)
  have "run_inv t" using running.reachable_inv reachable_steps step.hyps(1) step.prems(1) by blast
  then show ?case using step stoppable_back over_step by blast
qed simp

subsection \<open>The way to the exit\<close>

lemma net_finish:
  assumes "net_inv u" and "net_stoppable u"
  shows "\<exists>v. (v = u \<or> net_serve_step name u v) \<and> ns_serve v = ServeEnd None \<and> net_stoppable v"
proof (cases "ns_serve u")
  case NotStarted
  then show ?thesis using assms by (auto simp: net_inv_def net_stoppable_def)
next
  case Bound
  then show ?thesis using assms(2) net_serve_step.start_late [of u name] by (fastforce simp: net_stoppable_def)
next
  case Serving
  then show ?thesis using assms(2) net_serve_step.stopped [of u name] by (fastforce simp: net_stoppable_def)
next
  case (ServeEnd e)
  then show ?thesis using assms(2) by (cases e) (auto simp: net_stoppable_def)
qed

definition socks_stopped :: "socks_server \<Rightarrow> bool" where
  "socks_stopped v \<longleftrightarrow> ss_serve v = ServeReturned None \<and> ss_lis v = LisClosed"

lemma socks_accepting_finish:
  assumes "ss_serve u = Accepting" and "ss_lis u = LisClosed" and "ss_done u"
  shows "\<exists>v. serve_step u v \<and> socks_stopped v"
  using serve_step.accept_closed [OF assms(1,2)] assms(2,3)
  by (fastforce simp: socks_stopped_def accept_failed_def isShuttingDown_def)

lemma socks_registered_finish:
  assumes "ss_serve u = Registered c" and "ss_lis u = LisClosed" and "ss_done u"
  shows "\<exists>v. serve_step\<^sup>*\<^sup>* u v \<and> socks_stopped v"
proof -
  let ?w = "u\<lparr>ss_handled := finsert c (ss_handled u), ss_serve := Accepting\<rparr>"
  obtain v where "serve_step ?w v" "socks_stopped v" using socks_accepting_finish [of ?w] assms(2,3) by auto
  then show ?thesis using serve_step.spawn [OF assms(1)] by (meson converse_rtranclp_into_rtranclp r_into_rtranclp)
qed

lemma socks_counted_finish:
  assumes "ss_serve u = Counted c" and "ss_lis u = LisClosed" and "ss_done u"
  shows "\<exists>v. serve_step\<^sup>*\<^sup>* u v \<and> socks_stopped v"
proof -
  let ?w = "(registerConn c u)\<lparr>ss_serve := Registered c\<rparr>"
  obtain v where "serve_step\<^sup>*\<^sup>* ?w v" "socks_stopped v"
    using socks_registered_finish [of ?w] assms(2,3) by (auto simp: registerConn_def)
  then show ?thesis using serve_step.register [OF assms(1)] by (meson converse_rtranclp_into_rtranclp)
qed

lemma socks_finish:
  assumes "socks_inv u" and "socks_stoppable u" and "ss_done u"
  shows "\<exists>v. serve_step\<^sup>*\<^sup>* u v \<and> socks_stopped v"
proof -
  have lis: "ss_lis u = LisClosed" using assms(2) by (simp add: socks_stoppable_def)
  show ?thesis
  proof (cases "ss_serve u")
    case NotServing
    then show ?thesis using assms(1) lis by (simp add: socks_inv_def serve_ok_def)
  next
    case Accepting
    then show ?thesis using socks_accepting_finish [OF _ lis assms(3)] by blast
  next
    case (Accepted c)
    let ?w = "u\<lparr>ss_wg := finsert c (ss_wg u), ss_serve := Counted c\<rparr>"
    obtain v where "serve_step\<^sup>*\<^sup>* ?w v" "socks_stopped v" using socks_counted_finish [of ?w] lis assms(3) by auto
    then show ?thesis using serve_step.count [OF Accepted] by (meson converse_rtranclp_into_rtranclp)
  next
    case (Counted c)
    then show ?thesis using socks_counted_finish lis assms(3) by blast
  next
    case (Registered c)
    then show ?thesis using socks_registered_finish lis assms(3) by blast
  next
    case (ServeReturned e)
    then show ?thesis using assms(2) by (cases e) (auto simp: socks_stoppable_def socks_stopped_def)
  qed
qed

text \<open>Waiting, with nothing failed and every server able to stop.\<close>

definition can_end :: "run_state \<Rightarrow> bool" where
  "can_end s \<longleftrightarrow>
     running.reachable s \<and> rn_main s = WaitingGroup \<and> rn_err s = None \<and> (\<forall>n. n |\<in>| servers s \<longrightarrow> stoppable s n)"

definition ends :: "string \<Rightarrow> run_state \<Rightarrow> run_state \<Rightarrow> bool" where
  "ends n s s' \<longleftrightarrow> run_step\<^sup>*\<^sup>* s s' \<and> can_end s' \<and> rn_group s' = rn_group s |-| {|n|}"

lemma group_stepI: "group_step s s' \<Longrightarrow> run_step s s'"
  by (simp add: run_step_def)

lemma can_end_steps:
  assumes "can_end s" and "run_step\<^sup>*\<^sup>* s s'" and "rn_main s' = WaitingGroup" and "rn_err s' = None"
    and "\<And>n. n |\<in>| servers s \<Longrightarrow> stoppable s n \<Longrightarrow> stoppable s' n"
  shows "can_end s'"
proof -
  have "servers s' = servers s" using assms(2) by (induction rule: rtranclp_induct) (auto simp: step_servers)
  then show ?thesis using assms reachable_steps [OF assms(2)] by (simp add: can_end_def)
qed

lemma ends_return:
  assumes "can_end s" and "group_step s (group_return n None s)" shows "ends n s (group_return n None s)"
proof -
  have steps: "run_step\<^sup>*\<^sup>* s (group_return n None s)" using group_stepI [OF assms(2)] by simp
  have "can_end (group_return n None s)"
    by (rule can_end_steps [OF assms(1) steps]) (use assms(1) in \<open>simp_all add: can_end_def group_return_def stoppable_def\<close>)
  with steps show ?thesis by (simp add: ends_def group_return_def)
qed

lemma ends_after:
  assumes "can_end s" and "run_step\<^sup>*\<^sup>* s t" and "rn_main t = rn_main s" and "rn_err t = rn_err s" and "rn_group t = rn_group s"
    and "\<And>m. m |\<in>| servers s \<Longrightarrow> stoppable s m \<Longrightarrow> stoppable t m" and "group_step t (group_return n None t)"
  shows "\<exists>s'. ends n s s'"
proof -
  have "can_end t" by (rule can_end_steps [OF assms(1,2)]) (use assms(1,3,4,6) in \<open>simp_all add: can_end_def\<close>)
  from ends_return [OF this assms(7)] show ?thesis
    using assms(2,5) by (auto simp: ends_def intro: rtranclp_trans)
qed

lemma socks_lift: "serve_step\<^sup>*\<^sup>* u v \<Longrightarrow> rn_socks s = u \<Longrightarrow> run_step\<^sup>*\<^sup>* s (s\<lparr>rn_socks := v\<rparr>)"
proof (induction rule: rtranclp_induct)
  case (step w v)
  have "run_step (s\<lparr>rn_socks := w\<rparr>) ((s\<lparr>rn_socks := w\<rparr>)\<lparr>rn_socks := v\<rparr>)"
    by (rule group_stepI, rule group_step.socks_serves) (use step.hyps(2) in simp)
  then show ?case using step by (simp add: rtranclp.rtrancl_into_rtrancl)
qed auto

lemma ends_http:
  assumes "can_end s" and "''http'' |\<in>| rn_group s" shows "\<exists>s'. ends ''http'' s s'"
proof -
  have "parts_ok s" using assms(1) running.reachable_inv by (auto simp: can_end_def run_inv_def)
  moreover have "net_stoppable (rn_http s)" using assms(1) by (auto simp: can_end_def servers_def stoppable_def)
  ultimately obtain h where h: "h = rn_http s \<or> net_serve_step ''http'' (rn_http s) h" "ns_serve h = ServeEnd None" "net_stoppable h"
    using net_finish [of "rn_http s" "''http''"] by (auto simp: parts_ok_def life_inv_def)
  let ?t = "s\<lparr>rn_http := h\<rparr>"
  have "run_step\<^sup>*\<^sup>* s ?t" using h(1) group_stepI [OF group_step.http_serves] by auto
  then show ?thesis
    by (rule ends_after [OF assms(1)]) (use h assms(2) group_step.http_returns [of ?t None] in \<open>auto simp: stoppable_def\<close>)
qed

lemma ends_socks:
  assumes "can_end s" and "''socks'' |\<in>| rn_group s" shows "\<exists>s'. ends ''socks'' s s'"
proof -
  have inv: "parts_ok s" "phase_ok s" using assms(1) running.reachable_inv by (auto simp: can_end_def run_inv_def)
  then have "socks_inv (rn_socks s)" by (simp add: parts_ok_def)
  moreover have "down s ''socks''" using inv(2) assms(1) by (simp add: phase_ok_def can_end_def shutdown_order_def)
  ultimately have "ss_done (rn_socks s)" by (auto simp: socks_inv_def shut_ok_def down_def)
  moreover have "socks_stoppable (rn_socks s)" using assms(1) by (auto simp: can_end_def servers_def stoppable_def)
  ultimately obtain v where v: "serve_step\<^sup>*\<^sup>* (rn_socks s) v" "socks_stopped v"
    using socks_finish [OF \<open>socks_inv (rn_socks s)\<close>] by auto
  let ?t = "s\<lparr>rn_socks := v\<rparr>"
  have "run_step\<^sup>*\<^sup>* s ?t" using socks_lift [OF v(1)] by simp
  then show ?thesis
    by (rule ends_after [OF assms(1)])
      (use v(2) assms(2) group_step.socks_returns [of ?t None] in \<open>auto simp: stoppable_def socks_stopped_def socks_stoppable_def\<close>)
qed

lemma ends_side:
  assumes "can_end s" and "n |\<in>| rn_group s" and "fmlookup (rn_side s) n = Some u" shows "\<exists>s'. ends n s s'"
proof -
  have "parts_ok s" using assms(1) running.reachable_inv by (auto simp: can_end_def run_inv_def)
  then have u: "net_inv u" "n \<noteq> ''http''" "n \<noteq> ''socks''"
    using assms(3) side_names_distinct by (auto simp: parts_ok_def)
  have "n |\<in>| servers s" using assms(3) by (auto simp: servers_def intro: fmdomI)
  then have "net_stoppable u" using assms(1,3) u by (auto simp: can_end_def stoppable_def)
  then obtain v where v: "v = u \<or> net_serve_step n u v" "ns_serve v = ServeEnd None" "net_stoppable v"
    using net_finish [OF u(1)] by metis
  let ?t = "s\<lparr>rn_side := fmupd n v (rn_side s)\<rparr>"
  have "fmupd n u (rn_side s) = rn_side s" by (rule fmap_ext) (use assms(3) in auto)
  then have "v = u \<Longrightarrow> ?t = s" by simp
  then have "run_step\<^sup>*\<^sup>* s ?t" using v(1) group_stepI [OF group_step.side_serves [OF assms(3)]] by auto
  then show ?thesis
    by (rule ends_after [OF assms(1)]) (use u v assms(2) group_step.side_returns [of n ?t v None] in \<open>auto simp: stoppable_def\<close>)
qed

lemma ends_next:
  assumes "can_end s" and "n |\<in>| rn_group s" shows "\<exists>s'. ends n s s'"
proof (cases "n \<in> set shutdown_order")
  case True
  then have "n |\<in>| servers s"
    using assms running.reachable_inv by (auto simp: can_end_def run_inv_def group_ok_def)
  then consider "n = ''http''" | "n = ''socks''" | u where "fmlookup (rn_side s) n = Some u"
    by (auto simp: servers_def elim: fmdomE)
  then show ?thesis using ends_http ends_socks ends_side assms by cases auto
next
  case False
  then show ?thesis using ends_return [OF assms(1) group_step.task_returns [OF assms(2) False, of None]] by blast
qed

lemma can_end_exits:
  "can_end s \<Longrightarrow> \<exists>s'. run_step\<^sup>*\<^sup>* s s' \<and> rn_main s' = Exited None \<and> rn_err s' = None"
proof (induction "fcard (rn_group s)" arbitrary: s)
  case 0
  then have "rn_group s = {||}" by simp
  then have "run_step s (s\<lparr>rn_main := Exited (run_result (rn_err s))\<rparr>)"
    using 0 main_step.exit [of s] unfolding run_step_def can_end_def by blast
  then show ?case using 0 by (intro exI [of _ "s\<lparr>rn_main := Exited (run_result (rn_err s))\<rparr>"]) (simp add: can_end_def run_result_def)
next
  case (Suc k)
  then obtain n where n: "n |\<in>| rn_group s" by (metis fcard_fempty ex_fin_conv nat.distinct(1))
  then obtain t where t: "ends n s t" using ends_next [OF Suc.prems] by blast
  then have "fcard (rn_group t) = k" using n Suc.hyps(2) by (simp add: ends_def fcard_fminus_fsingleton)
  then show ?case using Suc.hyps(1) [of t] t unfolding ends_def by (meson rtranclp_trans)
qed

lemma exited_stoppable:
  assumes "run_inv s" and "rn_main s = Exited r" and "rn_err s = None" and n: "n |\<in>| servers s"
  shows "stoppable s n"
proof -
  have inv: "parts_ok s" "phase_ok s" "group_ok s" using assms(1) by (simp_all add: run_inv_def)
  have "rn_group s = {||}" using inv(2) assms(2) by (simp add: phase_ok_def)
  then have res: "serve_result s n = Some None" using inv(3) assms(3) n by (auto simp: group_ok_def)
  have net: "net_stoppable u" if "net_inv u" "net_result (ns_serve u) = Some None" for u :: net_server
    using that by (cases "ns_serve u") (auto simp: net_inv_def net_stoppable_def)
  have http: "net_stoppable h" if "life_inv h" "net_result (ns_serve h) = Some None" for h
    using that by (cases "ns_serve h") (auto simp: life_inv_def net_inv_def net_stoppable_def)
  have socks: "socks_stoppable u" if "ss_serve u = ServeReturned None \<longrightarrow> ss_lis u = LisClosed" "socks_result (ss_serve u) = Some None" for u
    using that by (cases "ss_serve u") (auto simp: socks_stoppable_def)
  show ?thesis
    using inv(1) res net http socks
    by (auto simp: stoppable_def parts_ok_def serve_result_def split: if_splits)
qed

text \<open>
  C25: while \<open>run\<close> waits for its group and no goroutine has returned an error, the process can still end cleanly exactly when
  the \<open>Shutdown\<close> of every configured server stopped it and no \<open>Serve\<close> has failed. One \<open>Shutdown\<close> that gave up while its server
  was starting or running keeps the process alive until that server fails by itself, whatever else happens.
\<close>

theorem run_exits_iff:
  assumes "running.reachable s" and "rn_main s = WaitingGroup" and "rn_err s = None"
  shows "(\<exists>s'. run_step\<^sup>*\<^sup>* s s' \<and> rn_main s' = Exited None \<and> rn_err s' = None) \<longleftrightarrow>
         (\<forall>n. n |\<in>| servers s \<longrightarrow> stoppable s n)"
proof
  assume "\<exists>s'. run_step\<^sup>*\<^sup>* s s' \<and> rn_main s' = Exited None \<and> rn_err s' = None"
  then obtain s' where s': "run_step\<^sup>*\<^sup>* s s'" "rn_main s' = Exited None" "rn_err s' = None" by blast
  have "over s" using assms(2) by (simp add: over_def)
  from stoppable_back_steps [OF s'(1) assms(1) this] have stop: "stoppable s' n \<longrightarrow> stoppable s n" for n by simp
  have inv: "run_inv s'" using running.reachable_inv reachable_steps [OF s'(1) assms(1)] by blast
  have "servers s' = servers s" using s'(1) by (induction rule: rtranclp_induct) (auto simp: step_servers)
  then show "\<forall>n. n |\<in>| servers s \<longrightarrow> stoppable s n" using exited_stoppable [OF inv s'(2,3)] stop by auto
next
  assume "\<forall>n. n |\<in>| servers s \<longrightarrow> stoppable s n"
  then show "\<exists>s'. run_step\<^sup>*\<^sup>* s s' \<and> rn_main s' = Exited None \<and> rn_err s' = None"
    using can_end_exits assms by (simp add: can_end_def)
qed

end
