(* ===== verification/ShutdownScenario.thy ===== *)
theory ShutdownScenario
  imports RunExit
begin

text \<open>
  Runs of the servers' shutdown: a tunnel that is cut when the context ends, a process that ends after two failed
  binds, and a process that never ends because the SOCKS listener's \<open>Shutdown\<close> gave up.
\<close>

subsection \<open>A tunnel that is cut\<close>

definition late_ctx :: goerr where "late_ctx = errorf ''context deadline exceeded''"

text \<open>The listener serves one CONNECT tunnel, and then \<open>http.Server.Shutdown\<close> has returned.\<close>

definition cut_taken :: http_life where
  "cut_taken = life_init\<lparr>ns_lis := LisClosed, ns_ready := True, ns_serve := Serving, ns_seen := {|0|}, li_tunnels := {|0|},
     ns_in_shutdown := True, ns_shut := ShutEnd None, li_drain := TakeTunnels None\<rparr>"

definition cut_waiting :: http_life where
  "cut_waiting = cut_taken\<lparr>li_drain := WaitTunnels None {|0|}\<rparr>"

definition cut_returned :: http_life where
  "cut_returned = cut_taken\<lparr>li_closed := {|0|}, li_done := {|0|}, li_drain := DrainReturned (Some late_ctx)\<rparr>"

lemmas start_defs = life_init_def net_init_def net_server.defs

lemma life_go: "life.reachable s \<Longrightarrow> life_step ctx s t \<Longrightarrow> life.reachable t"
  using life.reachable_step by blast

lemma life_go_serve: "life.reachable s \<Longrightarrow> net_serve_step ''http'' s t \<Longrightarrow> life.reachable t"
  and life_go_shutdown: "life.reachable s \<Longrightarrow> net_shutdown_step None s t \<Longrightarrow> life.reachable t"
  and life_go_tunnel: "life.reachable s \<Longrightarrow> tunnel_step s t \<Longrightarrow> life.reachable t"
  and life_go_drain: "life.reachable s \<Longrightarrow> drain_step None s t \<Longrightarrow> life.reachable t"
  using life_go [where ctx = None] unfolding life_step_def by blast+

lemma cut_taken_reachable: "life.reachable cut_taken"
proof -
  have "life.reachable life_init" by (auto simp: life.reachable_def)
  note life_go_serve [OF this net_serve_step.bind]
  note life_go_serve [OF this net_serve_step.start]
  note life_go_serve [OF this net_serve_step.request [where c = 0]]
  note life_go_tunnel [OF this tunnel_step.hijack [where c = 0]]
  note life_go_tunnel [OF this tunnel_step.register_tunnel [where c = 0]]
  note life_go_shutdown [OF this net_shutdown_step.call]
  note life_go_shutdown [OF this net_shutdown_step.ready]
  note life_go_shutdown [OF this net_shutdown_step.enter]
  note life_go_shutdown [OF this net_shutdown_step.idle [where lnerr = None]]
  note life_go_drain [OF this drain_step.server_down [where e = None]]
  from this show ?thesis by (simp add: start_defs cut_taken_def)
qed

lemma four_steps: "R a b \<Longrightarrow> R b c \<Longrightarrow> R c d \<Longrightarrow> R d e \<Longrightarrow> R\<^sup>*\<^sup>* a e"
  by (meson converse_rtranclp_into_rtranclp r_into_rtranclp)

lemma cut_steps: "(\<lambda>a b. \<exists>ctx. life_step ctx a b)\<^sup>*\<^sup>* cut_waiting cut_returned"
proof -
  let ?w = "cut_taken\<lparr>li_drain := ForceTunnels None late_ctx {|0|}\<rparr>"
  let ?x = "cut_taken\<lparr>li_closed := {|0|}, li_drain := ForcedTunnels None late_ctx {|0|}\<rparr>"
  let ?y = "?x\<lparr>li_done := {|0|}\<rparr>"
  note defs = life_step_def cut_waiting_def cut_taken_def cut_returned_def start_defs
  have "life_step (Some late_ctx) cut_waiting ?w"
    using drain_step.tunnels_expired [of cut_waiting None "{|0|}" "Some late_ctx" late_ctx] by (simp add: defs)
  moreover have "life_step None ?w ?x" using drain_step.force [of ?w None late_ctx "{|0|}" None] by (simp add: defs)
  moreover have "life_step None ?x ?y" using tunnel_step.pump_end [of 0 ?x] by (simp add: defs)
  moreover have "life_step None ?y cut_returned"
    using drain_step.forced_done [of ?y None late_ctx "{|0|}" None] by (simp add: defs)
  ultimately show ?thesis by (intro four_steps [where b = ?w and c = ?x and d = ?y]) blast+
qed

lemma http_shutdown_covers_witness:
  "li_tunnels cut_taken = {|0|} \<and> live cut_returned = {||} \<and> ns_in_shutdown cut_returned"
proof -
  have "drain_step None cut_taken cut_waiting"
    using drain_step.take_tunnels [of cut_taken None None] by (simp add: cut_taken_def cut_waiting_def)
  moreover have "li_drain cut_taken = TakeTunnels None" "li_drain cut_returned = DrainReturned (Some late_ctx)"
    by (simp_all add: cut_taken_def cut_returned_def)
  ultimately have "ns_in_shutdown cut_returned \<and> live cut_returned |\<subseteq>| ns_active cut_taken |\<union>| li_hijacked cut_taken"
    using http_shutdown_covers [OF cut_taken_reachable _ _ cut_steps] by blast
  then show ?thesis by (simp add: cut_taken_def start_defs)
qed

subsection \<open>A process that does not end\<close>

text \<open>The HTTP and SOCKS listeners and no other server; the group has no background loop.\<close>

definition run_start :: run_state where
  "run_start =
     \<lparr>rn_http = life_init, rn_socks = socks_init, rn_side = fmempty, rn_group = {|''http'', ''socks''|}, rn_err = None,
      rn_cancelled = False, rn_ctx = None, rn_main = Running\<rparr>"

lemma run_start_reachable: "running.reachable run_start"
proof -
  have "{|''http'', ''socks''|} |\<inter>| fset_of_list shutdown_order = {|''http'', ''socks''|}"
    by (auto simp: shutdown_order_def fset_of_list.rep_eq)
  then have "run_init run_start" by (simp add: run_init_def run_start_def servers_def)
  then show ?thesis by (auto simp: running.reachable_def)
qed

lemma go_group: "running.reachable s \<Longrightarrow> group_step s t \<Longrightarrow> running.reachable t"
  and go_main: "running.reachable s \<Longrightarrow> main_step s t \<Longrightarrow> running.reachable t"
  using running.reachable_step unfolding run_step_def by blast+

lemmas go_http = go_group [OF _ group_step.http_serves]
lemmas go_socks = go_group [OF _ group_step.socks_serves [OF disjI1]]
lemmas shut_http = go_main [OF _ main_step.http_shutdown [where ns = "[''socks'', ''metrics'', ''ui'', ''control'']"]]
lemmas shut_net = shut_http [OF _ _ disjI1]
lemmas shut_drain = shut_http [OF _ _ disjI2]
lemmas http_down = go_main [OF _ main_step.http_down [where ns = "[''socks'', ''metrics'', ''ui'', ''control'']"]]
lemmas shut_socks = go_main [OF _ main_step.socks_shutdown [where ns = "[''metrics'', ''ui'', ''control'']"]]
lemmas socks_down = go_main [OF _ main_step.socks_down [where ns = "[''metrics'', ''ui'', ''control'']"]]
lemmas no_metrics = go_main [OF _ main_step.side_nil [where n = "''metrics''" and ns = "[''ui'', ''control'']"]]
lemmas no_ui = go_main [OF _ main_step.side_nil [where n = "''ui''" and ns = "[''control'']"]]
lemmas no_control = go_main [OF _ main_step.side_nil [where n = "''control''" and ns = "[]"]]
lemmas waits = go_main [OF _ main_step.wait_group]

lemmas run_defs = start_defs run_start_def shutdown_order_def side_names_def socks_init_def markDone_def socks_ctx_ok_def

text \<open>
  The signal comes while a request is being served; \<open>http.Server.Shutdown\<close> waits for it until the context ends, and the
  \<open>select\<close> of the SOCKS \<open>Shutdown\<close>, with the server ready and the context over, takes the context.
\<close>

definition stuck_http :: http_life where
  "stuck_http = life_init\<lparr>ns_lis := LisClosed, ns_ready := True, ns_serve := Serving, ns_active := {|0|}, ns_seen := {|0|},
     ns_in_shutdown := True, ns_shut := ShutEnd (Some late_ctx), li_drain := DrainReturned (Some late_ctx)\<rparr>"

definition stuck :: run_state where
  "stuck = run_start\<lparr>rn_http := stuck_http,
     rn_socks := socks_init\<lparr>ss_done := True, ss_lis := Listening, ss_ready := True, ss_serve := Accepting,
       ss_shut := ShutReturned (Some late_ctx)\<rparr>,
     rn_cancelled := True, rn_ctx := Some late_ctx, rn_main := WaitingGroup\<rparr>"

definition stuck_serving :: http_life where
  "stuck_serving = life_init\<lparr>ns_lis := Listening, ns_ready := True, ns_serve := Serving, ns_active := {|0|}, ns_seen := {|0|}\<rparr>"

definition serving_socks :: socks_server where
  "serving_socks = socks_init\<lparr>ss_lis := Listening, ss_ready := True, ss_serve := Accepting\<rparr>"

definition both_serve :: run_state where
  "both_serve = run_start\<lparr>rn_http := stuck_serving, rn_socks := serving_socks\<rparr>"

lemma both_serve_reachable: "running.reachable both_serve"
proof -
  note go_http [OF run_start_reachable net_serve_step.bind]
  note go_http [OF this net_serve_step.start]
  note go_http [OF this net_serve_step.request [where c = 0]]
  note go_socks [OF this serve_step.bind]
  from this show ?thesis by (simp add: start_defs run_start_def both_serve_def serving_socks_def stuck_serving_def socks_init_def)
qed

definition stopping :: "goerr option \<Rightarrow> string list \<Rightarrow> run_state" where
  "stopping ctx ns = both_serve\<lparr>rn_cancelled := True, rn_ctx := ctx, rn_main := Stopping ns\<rparr>"

lemma stopping_reachable: "running.reachable (stopping None shutdown_order)"
proof -
  note go_main [OF both_serve_reachable main_step.signal]
  note go_main [OF this main_step.stop]
  from this show ?thesis by (simp add: both_serve_def run_start_def stopping_def)
qed

lemma http_entered: "running.reachable ((stopping None shutdown_order)\<lparr>rn_http := stuck_serving\<lparr>ns_lis := LisClosed,
    ns_in_shutdown := True, ns_shut := AwaitIdle\<rparr>\<rparr>)"
proof -
  note shut_net [OF stopping_reachable _ net_shutdown_step.call]
  note shut_net [OF this _ net_shutdown_step.ready]
  note shut_net [OF this _ net_shutdown_step.enter]
  from this show ?thesis
    by (simp add: stopping_def both_serve_def stuck_serving_def start_defs shutdown_order_def side_names_def)
qed

lemma http_gave_back: "running.reachable ((stopping (Some late_ctx) (tl shutdown_order))\<lparr>rn_http := stuck_http\<rparr>)"
proof -
  note go_main [OF http_entered main_step.deadline [where e = late_ctx and ns = shutdown_order]]
  note shut_net [OF this _ net_shutdown_step.expired [where e = late_ctx]]
  note shut_drain [OF this _ drain_step.server_down [where e = "Some late_ctx"]]
  note shut_drain [OF this _ drain_step.no_tunnels [where e = "Some late_ctx"]]
  note http_down [OF this, where e = "Some late_ctx"]
  from this show ?thesis
    by (simp add: stopping_def both_serve_def run_start_def stuck_serving_def stuck_http_def start_defs shutdown_order_def side_names_def)
qed

lemma stuck_reachable: "running.reachable stuck"
proof -
  note shut_socks [OF http_gave_back _ shutdown_step.mark]
  note shut_socks [OF this _ shutdown_step.ready_ctx [where ctx = late_ctx]]
  note socks_down [OF this, where e = "Some late_ctx"]
  from this have "running.reachable (stuck\<lparr>rn_main := Stopping side_names\<rparr>)"
    by (simp add: stopping_def both_serve_def serving_socks_def stuck_def run_defs)
  note no_metrics [OF this]
  note no_ui [OF this]
  note no_control [OF this]
  note waits [OF this]
  from this show ?thesis by (simp add: stuck_def run_start_def side_names_def)
qed

lemma run_exits_iff_witness:
  "\<not> (\<exists>s'. run_step\<^sup>*\<^sup>* stuck s' \<and> rn_main s' = Exited None \<and> rn_err s' = None)"
proof -
  have "''socks'' |\<in>| servers stuck \<and> \<not> stoppable stuck ''socks''"
    by (simp add: servers_def stoppable_def socks_stoppable_def stuck_def)
  moreover have "rn_main stuck = WaitingGroup" "rn_err stuck = None" by (simp_all add: stuck_def run_start_def)
  ultimately show ?thesis using run_exits_iff [OF stuck_reachable] by blast
qed

subsection \<open>A process that ends\<close>

text \<open>The same run when the request is done first: both listeners close, and both \<open>Serve\<close> loops return.\<close>

definition calm_http :: http_life where
  "calm_http = stuck_serving\<lparr>ns_lis := LisClosed, ns_active := {||}, ns_in_shutdown := True, ns_shut := ShutEnd None,
     li_drain := DrainReturned None\<rparr>"

definition calm_socks :: socks_server where
  "calm_socks = serving_socks\<lparr>ss_done := True, ss_lis := LisClosed, ss_drained := True, ss_shut := ShutReturned None\<rparr>"

definition calm :: run_state where
  "calm = (stopping None [])\<lparr>rn_http := calm_http, rn_socks := calm_socks, rn_main := WaitingGroup\<rparr>"

definition ended :: run_state where
  "ended = calm\<lparr>rn_http := calm_http\<lparr>ns_serve := ServeEnd None\<rparr>, rn_socks := calm_socks\<lparr>ss_serve := ServeReturned None\<rparr>,
     rn_group := {||}, rn_main := Exited None\<rparr>"

lemma calm_http_down: "running.reachable ((stopping None (tl shutdown_order))\<lparr>rn_http := calm_http\<rparr>)"
proof -
  note go_http [OF http_entered net_serve_step.request_done [where c = 0]]
  note shut_net [OF this _ net_shutdown_step.idle [where lnerr = None]]
  note shut_drain [OF this _ drain_step.server_down [where e = None]]
  note shut_drain [OF this _ drain_step.no_tunnels [where e = None]]
  note http_down [OF this, where e = None]
  from this show ?thesis
    by (simp add: stopping_def both_serve_def run_start_def stuck_serving_def calm_http_def start_defs shutdown_order_def side_names_def)
qed

lemma calm_reachable: "running.reachable calm"
proof -
  note shut_socks [OF calm_http_down _ shutdown_step.mark]
  note shut_socks [OF this _ shutdown_step.ready]
  note shut_socks [OF this _ shutdown_step.close [where e = None]]
  note shut_socks [OF this _ shutdown_step.drained [where e = None]]
  note shut_socks [OF this _ shutdown_step.drain_return [where e = None]]
  note socks_down [OF this, where e = None]
  from this have "running.reachable (calm\<lparr>rn_main := Stopping side_names\<rparr>)"
    by (simp add: stopping_def both_serve_def serving_socks_def calm_def calm_socks_def run_defs)
  note no_metrics [OF this]
  note no_ui [OF this]
  note no_control [OF this]
  note waits [OF this]
  from this show ?thesis by (simp add: calm_def stopping_def both_serve_def run_start_def side_names_def)
qed

lemma ended_reachable: "running.reachable ended"
proof -
  note go_http [OF calm_reachable net_serve_step.stopped]
  note go_socks [OF this serve_step.accept_closed]
  from this have "running.reachable (calm\<lparr>rn_http := calm_http\<lparr>ns_serve := ServeEnd None\<rparr>,
      rn_socks := calm_socks\<lparr>ss_serve := ServeReturned None\<rparr>\<rparr>)"
    by (simp add: calm_def calm_http_def calm_socks_def serving_socks_def stuck_serving_def start_defs socks_init_def
        accept_failed_def isShuttingDown_def stopping_def both_serve_def run_start_def)
  note go_group [OF this group_step.http_returns [where e = None]]
  note go_group [OF this group_step.socks_returns [where e = None]]
  note go_main [OF this main_step.exit]
  from this show ?thesis
    by (simp add: ended_def calm_def stopping_def both_serve_def run_start_def group_return_def run_result_def)
qed


end
