(* ===== verification/Runtime.thy ===== *)
theory Runtime
  imports Reloader Steps
begin

text \<open>
  The running program as a whole: start-up, hot-swaps, reloads and traffic over one scoreboard and one HTTP
  listener. The pool the scoreboard holds, the composer's view, the gauges and the cached transports agree in
  every reachable state.
\<close>

subsection \<open>Building a pool\<close>

lemma assertUniqueUpstreamIDs_None: "assertUniqueUpstreamIDs us = None \<longleftrightarrow> distinct (map uc_id us)"
proof -
  have "duplicate_ids i seen us = [] \<longleftrightarrow>
      distinct (map uc_id us) \<and> (\<forall>u \<in> set us. fmlookup seen (uc_id u) = None)" for i seen
  proof (induction us arbitrary: i seen)
    case (Cons u us)
    then show ?case by (auto split: option.splits)
  qed simp
  then show ?thesis by (simp add: assertUniqueUpstreamIDs_def)
qed

lemma assertRulePreferIDs_None:
  "assertRulePreferIDs rules us = None \<longleftrightarrow> (\<forall>r \<in> set rules. set (rc_prefer r) \<subseteq> set (map uc_id us))"
  by (auto simp: assertRulePreferIDs_def errors_join_def)

lemma build_upstream_cases:
  "build_upstream b t uc = Inr (u, q) \<Longrightarrow>
     q = PriorityValue uc \<and> (\<exists>up. u = Some up \<and> upstream_New b uc t = Inr up \<and> up_id up = uc_id uc)"
  by (auto simp: build_upstream_def upstream_New_id split: sum.splits)

lemma build_upstream_ok: "is_ok (upstream_New b uc t) \<Longrightarrow> is_ok (build_upstream b t uc)"
  by (auto simp: build_upstream_def split: sum.splits)

lemma build_entries:
  assumes "map_result (build_upstream b t) us = Inr entries"
  shows "map (\<lambda>(u, q). up_id (the u)) entries = map uc_id us"
    and "\<forall>e \<in> set entries. fst e \<noteq> None" and "entries = [] \<longleftrightarrow> us = []"
proof -
  show "map (\<lambda>(u, q). up_id (the u)) entries = map uc_id us"
    by (rule map_result_map [OF assms]) (auto dest: build_upstream_cases)
  have "list_all2 (\<lambda>x y. build_upstream b t x = Inr y) us entries"
    using assms by (simp add: map_result_Inr_iff)
  then show "\<forall>e \<in> set entries. fst e \<noteq> None"
    by (induction rule: list_all2_induct) (auto dest: build_upstream_cases)
  show "entries = [] \<longleftrightarrow> us = []"
    using map_result_length [OF assms] by (cases us; cases entries) auto
qed

text \<open>A pool implements a list of configured upstreams.\<close>

definition pool_for :: "upstream_config list \<Rightarrow> int \<Rightarrow> pool \<Rightarrow> bool" where
  "pool_for us cap p \<longleftrightarrow> pool_wf p \<and> pl_retry_cap p = cap \<and> mset (IDs p) = mset (map uc_id us)"

lemma NewPool_for:
  assumes "map_result (build_upstream b t) us = Inr entries" and "NewPool entries cap = Inr p"
  shows "pool_for us cap p"
  using NewPool_spec [OF assms(2)] NewPool_ids [OF assms(2)] build_entries(1) [OF assms(1)]
  by (simp add: pool_for_def)

lemma build_pool_for: "build_pool b t cap us = Inr p \<Longrightarrow> pool_for us cap p"
  by (auto simp: build_pool_def NewPool_for split: sum.splits)

lemma build_pool_ok:
  assumes "us \<noteq> []" and "1 \<le> cap" and "0 < t" and "\<forall>u \<in> set us. wf_upstream u \<and> b u = None"
  shows "is_ok (build_pool b t cap us)"
proof -
  have "is_ok (build_upstream b t u)" if "u \<in> set us" for u
    using assms(3,4) that by (intro build_upstream_ok upstream_New_ok) auto
  then have "is_ok (map_result (build_upstream b t) us)" by (simp add: map_result_ok_iff)
  then obtain entries where e: "map_result (build_upstream b t) us = Inr entries"
    by (cases "map_result (build_upstream b t) us") auto
  then have "is_ok (NewPool entries cap)"
    using build_entries [OF e] assms(1,2) by (simp add: NewPool_ok_iff)
  then show ?thesis by (auto simp: build_pool_def e split: sum.splits)
qed

lemma pool_for_distinct: "pool_for us cap p \<Longrightarrow> distinct (map uc_id us) \<Longrightarrow> distinct (IDs p)"
  unfolding pool_for_def by (metis mset_eq_imp_distinct_iff)

lemma pool_for_set: "pool_for us cap p \<Longrightarrow> set (IDs p) = set (map uc_id us)"
  unfolding pool_for_def by (metis set_mset_mset)

subsection \<open>The composer\<close>

text \<open>The expansion a block last installed.\<close>

definition block_current :: "composer \<Rightarrow> string \<Rightarrow> up_slice option" where
  "block_current c p = map_option (\<lambda>i. snd (pc_blocks c ! i)) (block_index p (pc_blocks c))"

definition composer_view :: "composer \<Rightarrow> upstream_config list" where
  "composer_view c = merged (pc_static c) (pc_blocks c)"

lemma block_index_Some: "block_index p bs = Some i \<Longrightarrow> i < length bs \<and> fst (bs ! i) = p"
  by (induction bs arbitrary: i) (auto split: if_splits)

lemma block_index_fst: "map fst bs = map fst bs' \<Longrightarrow> block_index p bs = block_index p bs'"
proof (induction bs arbitrary: bs')
  case (Cons b bs)
  then show ?case by (cases bs') auto
qed simp

lemma block_index_update [simp]:
  assumes "block_index p bs = Some i"
  shows "block_index q (bs[i := (p, next)]) = block_index q bs"
  using block_index_Some [OF assms]
  by (intro block_index_fst) (simp add: map_update list_update_same_conv)

lemma block_index_inj: "block_index p bs = Some i \<Longrightarrow> block_index q bs = Some i \<Longrightarrow> p = q"
  using block_index_Some by blast

lemma block_current_update:
  assumes "block_index p (pc_blocks c) = Some i"
  shows "block_current (c\<lparr>pc_blocks := (pc_blocks c)[i := (p, next)]\<rparr>) q =
         (if q = p then Some next else block_current c q)"
proof (cases "block_index q (pc_blocks c)")
  case None
  then show ?thesis using assms by (auto simp: block_current_def)
next
  case (Some j)
  have "q = p \<longleftrightarrow> j = i" using Some assms block_index_inj by auto
  then show ?thesis
    using Some block_index_Some [OF assms] assms by (simp add: block_current_def)
qed

lemma map_fst_update: "block_index p bs = Some i \<Longrightarrow> map fst (bs[i := (p, next)]) = map fst bs"
  using block_index_Some by (fastforce simp: map_update list_update_same_conv)

text \<open>The three outcomes of \<open>Update\<close>.\<close>

inductive update_outcome ::
    "(upstream_config \<Rightarrow> goerr option) \<Rightarrow> string \<Rightarrow> up_slice \<Rightarrow> composer \<times> runtime \<Rightarrow>
     (goerr + bool) \<times> composer \<times> runtime \<Rightarrow> bool"
  for b p "next" where
  update_failed:
    "block_current c p \<noteq> Some next \<Longrightarrow>
     update_outcome b p next (c, rt) (Inl e, c, observe_hotswap ''error'' rt)"
| update_same:
    "block_current c p = Some next \<Longrightarrow> update_outcome b p next (c, rt) (Inr False, c, rt)"
| update_applied:
    "block_index p (pc_blocks c) = Some i \<Longrightarrow> snd (pc_blocks c ! i) \<noteq> next \<Longrightarrow>
     c' = c\<lparr>pc_blocks := (pc_blocks c)[i := (p, next)]\<rparr> \<Longrightarrow>
     distinct (map uc_id (composer_view c')) \<Longrightarrow>
     build_pool b (pc_dialTimeout c) (pc_retryCap c) (composer_view c') = Inr pl \<Longrightarrow>
     ReplacePool (Some pl) (rt_sb rt) = Inr sb \<Longrightarrow>
     update_outcome b p next (c, rt) (Inr True, c', observe_hotswap ''success'' (install_pool sb pl rt))"

inductive_cases update_failedE: "update_outcome b p next (c, rt) (Inl e, c', rt')"
inductive_cases update_sameE: "update_outcome b p next (c, rt) (Inr False, c', rt')"
inductive_cases update_appliedE: "update_outcome b p next (c, rt) (Inr True, c', rt')"

lemma composer_Update_outcome: "update_outcome b p next cr (composer_Update b p next cr)"
proof (cases cr)
  case (Pair c rt)
  show ?thesis
  proof (cases "block_index p (pc_blocks c)")
    case None
    then show ?thesis
      by (auto simp: composer_Update_def Pair block_current_def intro: update_failed)
  next
    case (Some i)
    let ?c' = "c\<lparr>pc_blocks := (pc_blocks c)[i := (p, next)]\<rparr>"
    have v: "merged (pc_static c) ((pc_blocks c)[i := (p, next)]) = composer_view ?c'"
      by (simp add: composer_view_def)
    show ?thesis
    proof (cases "snd (pc_blocks c ! i) = next")
      case True
      with Some show ?thesis
        by (auto simp: composer_Update_def Pair block_current_def intro: update_same)
    next
      case False
      then have cur: "block_current c p \<noteq> Some next" using Some by (simp add: block_current_def)
      show ?thesis
        using Some False update_failed [OF cur] update_applied [OF Some False refl]
        by (auto simp: composer_Update_def Pair Let_def v assertUniqueUpstreamIDs_None
            split: option.splits sum.splits)
    qed
  qed
qed

lemma replaced_fields:
  assumes "ReplacePool (Some pl) s = Inr s'"
  shows "PoolIDs s' = IDs pl" and "sb_pool_entries s' = pl_entries pl" and "sb_pool s' = pl"
    and "sb_pool_retry_cap s' = pl_retry_cap pl" and "sb_entries s' = sb_entries s"
    and "fmlookup (sb_forces s') host = Some f \<longleftrightarrow>
           fmlookup (sb_forces s) host = Some f \<and> fo_upstream_id f \<in> set (IDs pl)"
proof -
  have s': "s' = s\<lparr>sb_pool := pl, sb_pool_entries := pl_entries pl, sb_pool_retry_cap := pl_retry_cap pl,
      sb_pool_len := pool_Len pl,
      sb_forces := fmfilter (\<lambda>host. case fmlookup (sb_forces s) host of
        Some f \<Rightarrow> fo_upstream_id f \<in> pe_id ` set (pl_entries pl) | None \<Rightarrow> False) (sb_forces s)\<rparr>"
    using assms by (simp add: ReplacePool_def Let_def Entries_def RetryCap_def)
  show "PoolIDs s' = IDs pl" "sb_pool_entries s' = pl_entries pl" "sb_pool s' = pl"
    "sb_pool_retry_cap s' = pl_retry_cap pl" "sb_entries s' = sb_entries s"
    by (simp_all add: s' PoolIDs_def IDs_def)
  show "fmlookup (sb_forces s') host = Some f \<longleftrightarrow>
      fmlookup (sb_forces s) host = Some f \<and> fo_upstream_id f \<in> set (IDs pl)"
    by (cases "fmlookup (sb_forces s) host") (auto simp: s' IDs_def)
qed

lemma install_pool_fields [simp]:
  "rt_sb (observe_hotswap r rt) = rt_sb rt" "rt_http (observe_hotswap r rt) = rt_http rt"
  "rt_gauges (observe_hotswap r rt) = rt_gauges rt" "rt_pool_size (observe_hotswap r rt) = rt_pool_size rt"
  "rt_sb (install_pool sb pl rt) = sb" "hl_transports (rt_http (install_pool sb pl rt)) = fmempty"
  "rt_gauges (install_pool sb pl rt) = map_option (\<lambda>_. IDs pl) (rt_gauges rt)"
  "rt_pool_size (install_pool sb pl rt) = pool_Len pl"
  by (simp_all add: observe_hotswap_def install_pool_def CloseTransportsExcept_def)


subsection \<open>Agreement of the parts\<close>

text \<open>
  What ties the parts together: distinct ids, the gauges and the pool size of the live pool, every cached transport
  dialling through the live upstream of its id, and, while pool blocks exist, the live pool being the one that
  the composer's view describes.
\<close>

definition transports_live :: "runtime \<Rightarrow> bool" where
  "transports_live rt \<longleftrightarrow>
     (\<forall>uid up. fmlookup (hl_transports (rt_http rt)) uid = Some up \<longrightarrow>
        up_id up = uid \<and> up \<in> pe_up ` set (sb_pool_entries (rt_sb rt)))"

definition parts_agree :: "runtime \<Rightarrow> bool" where
  "parts_agree rt \<longleftrightarrow>
     distinct (PoolIDs (rt_sb rt)) \<and> rt_pool_size rt = length (PoolIDs (rt_sb rt)) \<and>
     (\<forall>ids. rt_gauges rt = Some ids \<longrightarrow> ids = PoolIDs (rt_sb rt)) \<and> transports_live rt"

definition composer_synced :: "(upstream_config \<Rightarrow> goerr option) \<Rightarrow> composer \<Rightarrow> runtime \<Rightarrow> bool" where
  "composer_synced b c rt \<longleftrightarrow>
     pc_blocks c = [] \<or>
     distinct (map uc_id (composer_view c)) \<and>
     build_pool b (pc_dialTimeout c) (pc_retryCap c) (composer_view c) = Inr (sb_pool (rt_sb rt))"

definition rt_inv :: "(upstream_config \<Rightarrow> goerr option) \<Rightarrow> rat \<Rightarrow> composer \<times> runtime \<Rightarrow> bool" where
  "rt_inv b C cr \<longleftrightarrow>
     sb_inv C (rt_sb (snd cr)) \<and> parts_agree (snd cr) \<and> composer_synced b (fst cr) (snd cr)"

text \<open>
  The steps. A reload works on what \<open>config.Load\<close> accepted, with tuning inside the bound \<open>C\<close>. Traffic is any
  critical section of the scoreboard but a swap, and a transport is fetched for an upstream that the
  live pool holds (the pick and the fetch with no swap in between).
\<close>

inductive rt_step ::
    "(upstream_pool_config \<Rightarrow> string option) option \<Rightarrow> regex_compile \<Rightarrow> (upstream_config \<Rightarrow> goerr option) \<Rightarrow>
     rat \<Rightarrow> composer \<times> runtime \<Rightarrow> composer \<times> runtime \<Rightarrow> bool"
  for v re b C where
  rt_refresh: "rt_step v re b C cr (snd (refresh_callback b p hc prev next cr))"
| rt_heal: "rt_step v re b C cr (snd (runHeal b answer now d cr))"
| rt_reload:
    "\<forall>cfg. loaded = Inr cfg \<longrightarrow> Validate v re cfg = [] \<and> cfg_inv C (config_tuning cfg) \<Longrightarrow>
     rt_step v re b C (c, rt) (c, reload re b fs loaded (pc_blocks c \<noteq> []) rt)"
| rt_traffic:
    "sb_step C (rt_sb rt) sb \<Longrightarrow> sb_pool sb = sb_pool (rt_sb rt) \<Longrightarrow>
     rt_step v re b C (c, rt) (c, rt\<lparr>rt_sb := sb\<rparr>)"
| rt_transport:
    "up \<in> pe_up ` set (sb_pool_entries (rt_sb rt)) \<Longrightarrow>
     rt_step v re b C (c, rt) (c, rt\<lparr>rt_http := snd (transportFor up (rt_http rt))\<rparr>)"
| rt_listener:
    "hl_transports h = hl_transports (rt_http rt) \<Longrightarrow>
     rt_step v re b C (c, rt) (c, rt\<lparr>rt_http := h\<rparr>)"

lemma sb_inv_entries: "sb_inv C s \<Longrightarrow> sb_pool_entries s = pl_entries (sb_pool s)"
  by (simp add: sb_inv_parts Entries_def)

text \<open>Installing a pool of distinct ids over a sound scoreboard.\<close>

lemma installed_inv:
  assumes "sb_inv C (rt_sb rt)" and "pool_for us cap pl" and "distinct (map uc_id us)"
    and "ReplacePool (Some pl) (rt_sb rt) = Inr sb"
  shows "sb_inv C sb" and "parts_agree (install_pool sb pl rt)"
proof -
  show "sb_inv C sb" using assms by (auto simp: pool_for_def intro: sb_inv_ReplacePool)
  have "distinct (IDs pl)" using assms pool_for_distinct by blast
  then show "parts_agree (install_pool sb pl rt)"
    by (auto simp: parts_agree_def transports_live_def replaced_fields [OF assms(4)] pool_Len_def IDs_def)
qed

lemma parts_agree_hotswap [simp]: "parts_agree (observe_hotswap r rt) = parts_agree rt"
  by (simp add: parts_agree_def transports_live_def)

lemma composer_synced_hotswap [simp]: "composer_synced b c (observe_hotswap r rt) = composer_synced b c rt"
  by (simp add: composer_synced_def)

lemma composer_Update_inv:
  assumes "rt_inv b C cr"
  shows "rt_inv b C (snd (composer_Update b p next cr))"
  using composer_Update_outcome [of b p "next" cr]
proof (cases rule: update_outcome.cases)
  case (update_applied c i c' pl rt sb)
  have sb: "sb_inv C (rt_sb rt)" using assms update_applied by (simp add: rt_inv_def)
  have "pool_for (composer_view c') (pc_retryCap c) pl" by (rule build_pool_for [OF update_applied(7)])
  note inst = installed_inv [OF sb this update_applied(6,8)]
  have "composer_synced b c' (install_pool sb pl rt)"
    using update_applied replaced_fields(3) [OF update_applied(8)] by (simp add: composer_synced_def)
  with inst show ?thesis
    unfolding update_applied(2) by (simp add: rt_inv_def)
qed (use assms in \<open>simp_all add: rt_inv_def\<close>)

text \<open>What reloads and traffic leave alone.\<close>

definition same_pool :: "runtime \<Rightarrow> runtime \<Rightarrow> bool" where
  "same_pool rt rt' \<longleftrightarrow>
     sb_pool (rt_sb rt') = sb_pool (rt_sb rt) \<and> sb_pool_entries (rt_sb rt') = sb_pool_entries (rt_sb rt) \<and>
     rt_gauges rt' = rt_gauges rt \<and> rt_pool_size rt' = rt_pool_size rt \<and>
     hl_transports (rt_http rt') = hl_transports (rt_http rt)"

lemma same_pool_agree: "same_pool rt rt' \<Longrightarrow> parts_agree rt' = parts_agree rt"
  by (simp add: same_pool_def parts_agree_def transports_live_def PoolIDs_def)

lemma same_pool_synced: "same_pool rt rt' \<Longrightarrow> composer_synced b c rt' = composer_synced b c rt"
  by (simp add: same_pool_def composer_synced_def)

lemma same_pool_refl: "same_pool rt rt"
  by (simp add: same_pool_def)

lemma same_pool_trans: "same_pool r1 r2 \<Longrightarrow> same_pool r2 r3 \<Longrightarrow> same_pool r1 r3"
  by (simp add: same_pool_def)

lemma reload_parts_same_pool:
  "same_pool rt (reload_tuning cfg rt)" "same_pool rt (reload_rules rules cfg rt)"
  "same_pool rt (reload_tokens fs cfg rt)" "same_pool rt (observe_reload r rt)"
  by (auto simp: same_pool_def reload_tuning_def reload_rules_def reload_tokens_def observe_reload_def
      Reload_def ReplaceRules_def http_Reload_def ReloadConnectionRefused_def ReloadBodyBufferKB_def
      ReloadRules_def Let_def split: sum.splits)

lemma reload_parts_sb:
  "rt_sb (reload_tuning cfg rt) = Reload (config_tuning cfg) (rt_sb rt)"
  "rt_sb (reload_rules rules cfg rt) = ReplaceRules rules (rt_sb rt)"
  "rt_sb (reload_tokens fs cfg rt) = rt_sb rt" "rt_sb (observe_reload r rt) = rt_sb rt"
  by (auto simp: reload_tuning_def reload_rules_def reload_tokens_def observe_reload_def Let_def
      split: sum.splits)

text \<open>A reload leaves the runtime in one of three states.\<close>

inductive reload_outcome ::
    "regex_compile \<Rightarrow> (upstream_config \<Rightarrow> goerr option) \<Rightarrow> (string \<Rightarrow> token_file) \<Rightarrow> bool \<Rightarrow> runtime \<Rightarrow>
     goerr + config \<Rightarrow> runtime \<Rightarrow> bool"
  for re b fs hasPool rt where
  reload_refused:
    "loaded = Inl e \<or> loaded = Inr cfg \<and>
       (isl (NewRuleSet re (cf_rules cfg)) \<or>
        (\<exists>rules. NewRuleSet re (cf_rules cfg) = Inr rules \<and>
           CheckPreferIDs (projectedUpstreamIDs hasPool cfg rt) rules \<noteq> [])) \<Longrightarrow>
     reload_outcome re b fs hasPool rt loaded (observe_reload ''error'' rt)"
| reload_half:
    "\<not> hasPool \<Longrightarrow> cf_upstream_pools cfg = [] \<Longrightarrow> swapStaticPool b cfg (reload_tuning cfg rt) = Inl e \<Longrightarrow>
     reload_outcome re b fs hasPool rt (Inr cfg) (observe_reload ''error'' (reload_tuning cfg rt))"
| reload_done:
    "NewRuleSet re (cf_rules cfg) = Inr rules \<Longrightarrow>
     CheckPreferIDs (projectedUpstreamIDs hasPool cfg rt) rules = [] \<Longrightarrow>
     (if hasPool \<or> cf_upstream_pools cfg \<noteq> [] then rt2 = reload_tuning cfg rt
      else swapStaticPool b cfg (reload_tuning cfg rt) = Inr rt2) \<Longrightarrow>
     reload_outcome re b fs hasPool rt (Inr cfg)
       (observe_reload ''success'' (reload_tokens fs cfg (reload_rules rules cfg rt2)))"

lemma reload_outcome: "reload_outcome re b fs hasPool rt loaded (reload re b fs loaded hasPool rt)"
proof (cases loaded)
  case (Inl e)
  then show ?thesis by (auto simp: reload_def intro: reload_refused)
next
  case (Inr cfg)
  show ?thesis
  proof (cases "NewRuleSet re (cf_rules cfg)")
    case (Inl e)
    then show ?thesis by (auto simp: reload_def Inr intro!: reload_refused)
  next
    case rules: (Inr rules)
    show ?thesis
      using reload_done [OF rules, of hasPool rt]
      by (auto simp: reload_def Inr rules Let_def intro!: reload_refused reload_half split: sum.splits)
  qed
qed

lemma swapStaticPool_inv:
  assumes "swapStaticPool b cfg rt = Inr rt'" and "sb_inv C (rt_sb rt)" and "distinct (map uc_id (cf_upstreams cfg))"
  shows "sb_inv C (rt_sb rt')" and "parts_agree rt'"
proof -
  obtain entries pl sb where e: "map_result (build_upstream b (dial_timeout cfg)) (cf_upstreams cfg) = Inr entries"
    "NewPool entries (fc_max_retries_per_request (cf_failure cfg)) = Inr pl"
    "ReplacePool (Some pl) (rt_sb rt) = Inr sb" "rt' = install_pool sb pl rt"
    using assms(1) by (auto simp: swapStaticPool_def split: sum.splits if_splits)
  show "sb_inv C (rt_sb rt')" and "parts_agree rt'"
    using installed_inv [OF assms(2) NewPool_for [OF e(1,2)] assms(3) e(3)] by (simp_all add: e(4))
qed

lemma reload_inv:
  assumes inv: "rt_inv b C (c, rt)"
    and ok: "\<And>cfg. loaded = Inr cfg \<Longrightarrow> Validate v re cfg = [] \<and> cfg_inv C (config_tuning cfg)"
  shows "rt_inv b C (c, reload re b fs loaded (pc_blocks c \<noteq> []) rt)"
proof -
  have i: "sb_inv C (rt_sb rt)" "parts_agree rt" "composer_synced b c rt"
    using inv by (simp_all add: rt_inv_def)
  have keep: "rt_inv b C (c, observe_reload r rt')"
    if "sb_inv C (rt_sb rt')" "parts_agree rt'" "composer_synced b c rt'" for r rt'
    using that same_pool_agree [OF reload_parts_same_pool(4)] same_pool_synced [OF reload_parts_same_pool(4)]
    by (simp add: rt_inv_def reload_parts_sb)
  have tuned: "sb_inv C (rt_sb (reload_tuning cfg rt))" "parts_agree (reload_tuning cfg rt)"
      "composer_synced b c (reload_tuning cfg rt)" if "loaded = Inr cfg" for cfg
    using i ok [OF that] same_pool_agree [OF reload_parts_same_pool(1)] same_pool_synced [OF reload_parts_same_pool(1)]
    by (simp_all add: reload_parts_sb sb_inv_Reload)
  show ?thesis
    using reload_outcome [of re b fs "pc_blocks c \<noteq> []" rt loaded]
  proof (cases rule: reload_outcome.cases)
    case (reload_refused e cfg)
    then show ?thesis using keep i by simp
  next
    case (reload_half cfg e)
    then show ?thesis using keep tuned by simp
  next
    case (reload_done cfg rules rt2)
    have "sb_inv C (rt_sb rt2) \<and> parts_agree rt2 \<and> composer_synced b c rt2"
    proof (cases "pc_blocks c \<noteq> [] \<or> cf_upstream_pools cfg \<noteq> []")
      case True
      with reload_done tuned show ?thesis by simp
    next
      case False
      then have "swapStaticPool b cfg (reload_tuning cfg rt) = Inr rt2" "pc_blocks c = []"
        using reload_done by auto
      moreover have "distinct (map uc_id (cf_upstreams cfg))"
        using ok reload_done by (auto simp: Validate_Nil_iff wf_config_def)
      ultimately show ?thesis
        using swapStaticPool_inv tuned [OF reload_done(1)] by (simp add: composer_synced_def)
    qed
    moreover have "same_pool rt2 (reload_tokens fs cfg (reload_rules rules cfg rt2))"
      by (meson reload_parts_same_pool same_pool_trans)
    ultimately show ?thesis
      unfolding reload_done(2)
      using same_pool_agree same_pool_synced NewRuleSet_wf(1) [OF reload_done(3)]
      by (intro keep) (auto simp: reload_parts_sb intro: sb_inv_ReplaceRules)
  qed
qed

lemma transportFor_live:
  assumes "transports_live rt" and "up \<in> pe_up ` set (sb_pool_entries (rt_sb rt))"
  shows "transports_live (rt\<lparr>rt_http := snd (transportFor up (rt_http rt))\<rparr>)"
  using assms by (auto simp: transports_live_def transportFor_def split: option.splits)

lemma runHeal_cases:
  "snd (runHeal b answer now d cr) = cr \<or>
   (\<exists>next. snd (runHeal b answer now d cr) = snd (composer_Update b (hd_id_prefix d) next cr))"
  by (auto simp: runHeal_def split: sum.splits)

lemma rt_step_inv: "rt_step v re b C cr cr' \<Longrightarrow> rt_inv b C cr \<Longrightarrow> rt_inv b C cr'"
proof (induction rule: rt_step.induct)
  case (rt_refresh cr p hc prev "next")
  then show ?case
    by (auto simp: refresh_callback_def Let_def split_beta intro: composer_Update_inv)
next
  case (rt_heal cr answer now d)
  then show ?case
    using runHeal_cases [of b answer now d cr] by (auto intro: composer_Update_inv)
next
  case (rt_reload loaded c rt fs)
  then show ?case by (intro reload_inv) auto
next
  case (rt_traffic rt sb c)
  then have "sb_inv C (rt_sb rt)" by (simp add: rt_inv_def)
  moreover from this have "sb_inv C sb" using rt_traffic sb_step_inv by blast
  moreover from calculation have "same_pool rt (rt\<lparr>rt_sb := sb\<rparr>)"
    using rt_traffic by (simp add: same_pool_def sb_inv_entries)
  ultimately show ?case
    using rt_traffic by (simp add: rt_inv_def same_pool_agree same_pool_synced)
next
  case (rt_transport up rt c)
  then show ?case
    using transportFor_live by (auto simp: rt_inv_def parts_agree_def composer_synced_def)
next
  case (rt_listener h rt c)
  then have "same_pool rt (rt\<lparr>rt_http := h\<rparr>)" by (simp add: same_pool_def)
  then show ?case
    using rt_listener by (simp add: rt_inv_def same_pool_agree same_pool_synced)
qed

subsection \<open>Start-up\<close>

text \<open>The scores of a snapshot loaded into an empty scoreboard are within the bound.\<close>

definition snapshot_bounded ::
    "rat \<Rightarrow> (bytes \<Rightarrow> goerr + snapshot_file) \<Rightarrow> fs \<Rightarrow> config \<Rightarrow> bool" where
  "snapshot_bounded C dec disk cfg \<longleftrightarrow>
     cc_persist_path (cf_cache cfg) = [] \<or>
     (\<forall>s s'. sb_entries s = fmempty \<longrightarrow> LoadSnapshot dec (cc_persist_path (cf_cache cfg)) disk s = Inr s' \<longrightarrow>
        entries_inv C (sb_entries s'))"

text \<open>What a successful start-up went through.\<close>

inductive started ::
    "registry \<Rightarrow> (upstream_config \<Rightarrow> goerr option) \<Rightarrow> regex_compile \<Rightarrow> (bytes \<Rightarrow> goerr + snapshot_file) \<Rightarrow> fs \<Rightarrow>
     (string \<Rightarrow> token_file) \<Rightarrow> config \<Rightarrow> composer \<times> runtime \<times> heal_driver list \<Rightarrow> bool"
  for reg b re dec disk fs cfg where
  "expandUpstreamPools reg (cf_upstream_pools cfg) = Inr (expanded, blocks) \<Longrightarrow>
   us = cf_upstreams cfg @ expanded \<Longrightarrow> distinct (map uc_id us) \<Longrightarrow> assertRulePreferIDs (cf_rules cfg) us = None \<Longrightarrow>
   NewRuleSet re (cf_rules cfg) = Inr rules \<Longrightarrow>
   build_pool b (dial_timeout cfg) (fc_max_retries_per_request (cf_failure cfg)) us = Inr p \<Longrightarrow>
   drivers = buildAuthHealDrivers (map (\<lambda>b. (bk_id_prefix b, bk_healer b)) blocks) \<Longrightarrow>
   validateNoPoolPrefixCollision (map uc_id (cf_upstreams cfg)) drivers (map bk_id_prefix blocks) = None \<Longrightarrow>
   sb_New (Some p) (config_tuning cfg) rules True (fanoutFailureHook drivers \<noteq> None) = Inr sb0 \<Longrightarrow>
   startup_http cfg rules = Inr http \<Longrightarrow> startup_control fs cfg blocks = Inr srv \<Longrightarrow>
   started reg b re dec disk fs cfg
     (newPoolComposer (cf_upstreams cfg) blocks (fc_max_retries_per_request (cf_failure cfg)) (dial_timeout cfg),
      \<lparr>rt_sb = sb_Start (loaded_scoreboard dec disk cfg sb0), rt_http = http,
       rt_gauges = (if cf_metrics_bind cfg \<noteq> [] then Some (IDs p) else None),
       rt_pool_size = pool_Len p, rt_hotswaps = [], rt_reloads = [], rt_control = srv\<rparr>,
      connectAuthHealDriversToComposer drivers (Some ShutdownCtx))"

lemma run_build_started:
  assumes "run_build reg b re dec disk fs cfg = Inr res"
  shows "started reg b re dec disk fs cfg res"
proof -
  obtain expanded blocks where e: "expandUpstreamPools reg (cf_upstream_pools cfg) = Inr (expanded, blocks)"
    using assms by (cases "expandUpstreamPools reg (cf_upstream_pools cfg)") (auto simp: run_build_def)
  define us where "us = cf_upstreams cfg @ expanded"
  define drivers where "drivers = buildAuthHealDrivers (map (\<lambda>b. (bk_id_prefix b, bk_healer b)) blocks)"
  note run = assms [unfolded run_build_def Let_def e sum.case prod.case, folded us_def drivers_def]
  have "us \<noteq> []" and "distinct (map uc_id us)" and "assertRulePreferIDs (cf_rules cfg) us = None"
    using run by (auto simp flip: assertUniqueUpstreamIDs_None split: option.splits if_split_asm)
  note run = run [unfolded if_not_P [OF this(1)] this(3) this(2) [folded assertUniqueUpstreamIDs_None] option.case]
  obtain rules where r: "NewRuleSet re (cf_rules cfg) = Inr rules"
    using run by (auto split: sum.splits)
  note run = run [unfolded r sum.case]
  obtain p where p: "build_pool b (dial_timeout cfg) (fc_max_retries_per_request (cf_failure cfg)) us = Inr p"
    using run by (auto split: sum.splits)
  note run = run [unfolded p sum.case]
  obtain sb0 http srv where "validateNoPoolPrefixCollision (map uc_id (cf_upstreams cfg)) drivers (map bk_id_prefix blocks) = None"
      "sb_New (Some p) (config_tuning cfg) rules True (fanoutFailureHook drivers \<noteq> None) = Inr sb0"
      "startup_http cfg rules = Inr http" "startup_control fs cfg blocks = Inr srv"
    and res: "res =
     (newPoolComposer (cf_upstreams cfg) blocks (fc_max_retries_per_request (cf_failure cfg)) (dial_timeout cfg),
      \<lparr>rt_sb = sb_Start (loaded_scoreboard dec disk cfg sb0), rt_http = http, rt_gauges = (if cf_metrics_bind cfg \<noteq> [] then Some (IDs p) else None),
       rt_pool_size = pool_Len p, rt_hotswaps = [], rt_reloads = [], rt_control = srv\<rparr>,
      connectAuthHealDriversToComposer drivers (Some ShutdownCtx))"
    using run by (auto split: option.splits sum.splits)
  with \<open>distinct (map uc_id us)\<close> \<open>assertRulePreferIDs (cf_rules cfg) us = None\<close> show ?thesis
    unfolding res by (intro started.intros [OF e us_def _ _ r p drivers_def])
qed

lemma expand_view:
  "expandUpstreamPools reg pools = Inr (expanded, blocks) \<Longrightarrow>
     merged static (map (\<lambda>b. (bk_id_prefix b, bk_initial b)) blocks) = static @ expanded"
  by (auto simp: expandUpstreamPools_def merged_def comp_def split: sum.splits)

lemma expand_length: "expandUpstreamPools reg pools = Inr (expanded, blocks) \<Longrightarrow> length blocks = length pools"
  by (auto simp: expandUpstreamPools_def dest: map_result_length split: sum.splits)

lemma startup_http_transports: "startup_http cfg rules = Inr h \<Longrightarrow> hl_transports h = fmempty"
  by (auto simp: startup_http_def NewHTTP_def apply_option_def Let_def split: if_splits)

lemma loaded_scoreboard_pool [simp]:
  "sb_pool (loaded_scoreboard dec disk cfg s) = sb_pool s"
  "sb_pool_entries (loaded_scoreboard dec disk cfg s) = sb_pool_entries s"
  by (auto simp: loaded_scoreboard_def LoadSnapshot_def applySnapshot_def split: sum.splits option.splits)

lemma loaded_scoreboard_inv:
  assumes "sb_inv C s" and "sb_entries s = fmempty" and "snapshot_bounded C dec disk cfg"
  shows "sb_inv C (loaded_scoreboard dec disk cfg s)"
  using assms sb_inv_Load [OF assms(1)]
  by (auto simp: loaded_scoreboard_def snapshot_bounded_def split: sum.splits)

lemma sb_Start_pool [simp]: "sb_pool (sb_Start s) = sb_pool s" "sb_pool_entries (sb_Start s) = sb_pool_entries s"
  by (simp_all add: sb_Start_def)

lemma started_inv:
  assumes "started reg b re dec disk fs cfg (c, rt, drivers)"
    and "cfg_inv C (config_tuning cfg)" and "representable C" and "snapshot_bounded C dec disk cfg"
  shows "rt_inv b C (c, rt)" and "pc_blocks c \<noteq> [] \<longleftrightarrow> cf_upstream_pools cfg \<noteq> []"
  using assms(1)
proof (atomize(full), cases rule: started.cases)
  case (1 expanded blocks us rules p ds sb0 http srv)
  have pl: "pool_for us (fc_max_retries_per_request (cf_failure cfg)) p" using 1 build_pool_for by blast
  have sb0: "sb_pool sb0 = p" "sb_pool_entries sb0 = pl_entries p" "sb_entries sb0 = fmempty"
    using 1 by (auto simp: sb_New_def Entries_def)
  have "sb_inv C sb0"
    using 1 pl assms(2,3) NewRuleSet_wf(1) by (intro sb_inv_New) (auto simp: pool_for_def)
  then have "sb_inv C (rt_sb rt)"
    using 1 sb0 assms(4) by (simp add: sb_inv_Start loaded_scoreboard_inv)
  moreover have ids: "PoolIDs (rt_sb rt) = IDs p"
    using 1 sb0 by (simp add: PoolIDs_def IDs_def)
  moreover have "parts_agree rt"
    using 1 ids pool_for_distinct [OF pl] startup_http_transports
    by (auto simp: parts_agree_def transports_live_def pool_Len_def IDs_def)
  moreover have "composer_view c = us"
    using 1 expand_view by (simp add: composer_view_def newPoolComposer_def)
  moreover have "composer_synced b c rt"
    using 1 sb0 calculation(4) by (simp add: composer_synced_def newPoolComposer_def)
  ultimately show "rt_inv b C (c, rt) \<and> (pc_blocks c \<noteq> [] \<longleftrightarrow> cf_upstream_pools cfg \<noteq> [])"
    using 1 expand_length by (fastforce simp: rt_inv_def newPoolComposer_def)
qed

text \<open>The states \<open>run\<close> can leave its build section in.\<close>

definition rt_init ::
    "(upstream_config \<Rightarrow> goerr option) \<Rightarrow> rat \<Rightarrow> composer \<times> runtime \<Rightarrow> bool" where
  "rt_init b C cr \<longleftrightarrow>
     (\<exists>reg re dec disk fs cfg drivers. run_build reg b re dec disk fs cfg = Inr (fst cr, snd cr, drivers) \<and>
        cfg_inv C (config_tuning cfg) \<and> representable C \<and> snapshot_bounded C dec disk cfg)"

interpretation runtime: invariant_system "rt_init b C" "rt_step v re b C" "rt_inv b C" for v re b C
proof
  show "rt_inv b C s" if "rt_init b C s" for s
    using that started_inv(1) [OF run_build_started] by (cases s) (fastforce simp: rt_init_def)
  show "rt_inv b C s'" if "rt_step v re b C s s'" "rt_inv b C s" for s s'
    using that by (rule rt_step_inv)
qed


subsection \<open>Start-up and reload of an accepted configuration\<close>

lemma dial_timeout_range: "1 \<le> t \<Longrightarrow> t * ms \<le> max_int64 \<Longrightarrow> wrap64 (t * ms) = t * ms"
  by (rule wrap64_id) (simp_all add: min_int64_def ms_def)

lemma wf_static_pool:
  assumes "Validate v re cfg = []" and "cf_upstream_pools cfg = []"
    and "fc_timeout_ms (cf_failure cfg) * ms \<le> max_int64" and "list_all (\<lambda>u. b u = None) (cf_upstreams cfg)"
  shows "is_ok (build_pool b (dial_timeout cfg) (fc_max_retries_per_request (cf_failure cfg)) (cf_upstreams cfg))"
proof (rule build_pool_ok)
  have wf: "wf_config v re cfg" using assms(1) by (simp add: Validate_Nil_iff)
  then show "cf_upstreams cfg \<noteq> []" and "1 \<le> fc_max_retries_per_request (cf_failure cfg)"
    using assms(2) by (auto simp: wf_config_def wf_failure_def)
  show "0 < dial_timeout cfg"
    using wf assms(3) dial_timeout_range [of "fc_timeout_ms (cf_failure cfg)"]
    by (auto simp: wf_config_def wf_failure_def dial_timeout_def ms_def)
  show "\<forall>u \<in> set (cf_upstreams cfg). wf_upstream u \<and> b u = None"
    using wf assms(4) by (auto simp: wf_config_def list_all_iff)
qed

lemma wf_prefers:
  assumes "Validate v re cfg = []" and "cf_upstream_pools cfg = []"
  shows "\<forall>r \<in> set (cf_rules cfg). set (rc_prefer r) \<subseteq> set (map uc_id (cf_upstreams cfg))"
  using assms by (auto simp: Validate_Nil_iff wf_config_def wf_rule_def list_all_iff split: option.splits)

lemma wf_rules_compile:
  assumes "Validate v re cfg = []"
  shows "is_ok (NewRuleSet re (cf_rules cfg))"
proof -
  have "list_all (wf_rule re (if cf_upstream_pools cfg = [] then Some (map uc_id (cf_upstreams cfg)) else None)) (cf_rules cfg)"
    using assms by (simp add: Validate_Nil_iff wf_config_def)
  then show ?thesis by (rule NewRuleSet_total)
qed

lemma build_pool_static:
  assumes "build_pool b (dial_timeout cfg) (fc_max_retries_per_request (cf_failure cfg)) (cf_upstreams cfg) = Inr p"
    and "cf_upstreams cfg \<noteq> []" and "ReplacePool (Some p) (rt_sb rt) = Inr sb"
  shows "swapStaticPool b cfg rt = Inr (install_pool sb p rt)"
proof -
  obtain entries where e: "map_result (build_upstream b (dial_timeout cfg)) (cf_upstreams cfg) = Inr entries"
      "NewPool entries (fc_max_retries_per_request (cf_failure cfg)) = Inr p"
    using assms(1) by (auto simp: build_pool_def split: sum.splits)
  moreover have "entries \<noteq> []" using build_entries(3) [OF e(1)] assms(2) by simp
  ultimately show ?thesis using assms(3) by (simp add: swapStaticPool_def)
qed

lemma ReplacePool_total: "\<exists>sb. ReplacePool (Some p) s = Inr sb"
  by (simp add: ReplacePool_def Let_def)

lemma known_prefers:
  assumes "NewRuleSet re (cf_rules cfg) = Inr rules"
  shows "CheckPreferIDs known rules = [] \<longleftrightarrow> (\<forall>r \<in> set (cf_rules cfg). set (rc_prefer r) \<subseteq> fset known)"
proof -
  have "(\<forall>r \<in> set rules. set (ru_prefer r) \<subseteq> fset known) \<longleftrightarrow>
      (\<forall>ids \<in> set (map ru_prefer rules). set ids \<subseteq> fset known)" by simp
  also have "\<dots> \<longleftrightarrow> (\<forall>ids \<in> set (map rc_prefer (cf_rules cfg)). set ids \<subseteq> fset known)"
    unfolding NewRuleSet_wf(2) [OF assms] ..
  finally show ?thesis by (simp add: CheckPreferIDs_Nil)
qed

text \<open>A start-up over whatever its pool blocks expand to.\<close>

lemma run_build_ok:
  assumes valid: "Validate v re cfg = []"
    and ex: "expandUpstreamPools reg (cf_upstream_pools cfg) = Inr (expanded, blocks)"
    and fits: "fc_timeout_ms (cf_failure cfg) * ms \<le> max_int64" and tokens: "is_ok (buildControlTokens (cf_control cfg) fs)"
    and ne: "cf_upstreams cfg @ expanded \<noteq> []" and ids: "distinct (map uc_id (cf_upstreams cfg @ expanded))"
    and us: "\<forall>u \<in> set (cf_upstreams cfg @ expanded). b u = None" "\<forall>u \<in> set expanded. wf_upstream u"
    and prefers: "assertRulePreferIDs (cf_rules cfg) (cf_upstreams cfg @ expanded) = None"
    and collision: "validateNoPoolPrefixCollision (map uc_id (cf_upstreams cfg))
      (buildAuthHealDrivers (map (\<lambda>b. (bk_id_prefix b, bk_healer b)) blocks)) (map bk_id_prefix blocks) = None"
  shows "\<exists>c rt rules. run_build reg b re dec disk fs cfg =
             Inr (c, rt, connectAuthHealDriversToComposer
               (buildAuthHealDrivers (map (\<lambda>b. (bk_id_prefix b, bk_healer b)) blocks)) (Some ShutdownCtx)) \<and>
           mset (PoolIDs (rt_sb rt)) = mset (map uc_id (cf_upstreams cfg @ expanded)) \<and>
           NewRuleSet re (cf_rules cfg) = Inr rules \<and> sb_rules (rt_sb rt) = rules \<and> hl_rules (rt_http rt) = rules \<and>
           hl_retry_cap (rt_http rt) = sb_pool_retry_cap (rt_sb rt) \<and>
           (rt_control rt = None \<longleftrightarrow> ct_bind (cf_control cfg) = [])"
proof -
  have wf: "wf_config v re cfg" using valid by (simp add: Validate_Nil_iff)
  let ?cap = "fc_max_retries_per_request (cf_failure cfg)" and ?us = "cf_upstreams cfg @ expanded"
  let ?ds = "buildAuthHealDrivers (map (\<lambda>b. (bk_id_prefix b, bk_healer b)) blocks)"
  have cap: "\<not> ?cap < 1" and t: "0 < dial_timeout cfg"
    using wf fits dial_timeout_range [of "fc_timeout_ms (cf_failure cfg)"]
    by (auto simp: wf_config_def wf_failure_def dial_timeout_def ms_def)
  have "\<forall>u \<in> set ?us. wf_upstream u \<and> b u = None"
    using wf us by (auto simp: wf_config_def list_all_iff)
  then have "is_ok (build_pool b (dial_timeout cfg) ?cap ?us)"
    using ne cap t by (intro build_pool_ok) auto
  then obtain p where p: "build_pool b (dial_timeout cfg) ?cap ?us = Inr p"
    by (cases "build_pool b (dial_timeout cfg) ?cap ?us") auto
  obtain rules where r: "NewRuleSet re (cf_rules cfg) = Inr rules"
    using wf_rules_compile [OF valid] by (cases "NewRuleSet re (cf_rules cfg)") auto
  obtain h where h: "startup_http cfg rules = Inr h" "hl_rules h = rules" "hl_retry_cap h = ?cap"
    using cap by (auto simp: startup_http_def NewHTTP_def apply_option_def Let_def)
  obtain srv where srv: "startup_control fs cfg blocks = Inr srv" "srv = None \<longleftrightarrow> ct_bind (cf_control cfg) = []"
    using tokens
    by (cases "buildControlTokens (cf_control cfg) fs"; cases "ct_bind (cf_control cfg) = []")
      (auto simp: startup_control_def Let_def)
  obtain sb0 where sb0: "sb_New (Some p) (config_tuning cfg) rules True (fanoutFailureHook ?ds \<noteq> None) = Inr sb0"
      "sb_pool_entries sb0 = pl_entries p" "sb_rules sb0 = rules" "sb_pool_retry_cap sb0 = pl_retry_cap p"
    by (simp add: sb_New_def Entries_def RetryCap_def)
  have pl: "pool_for ?us ?cap p" by (rule build_pool_for [OF p])
  let ?sb = "sb_Start (loaded_scoreboard dec disk cfg sb0)"
  have sb: "PoolIDs ?sb = IDs p" "sb_rules ?sb = rules" "sb_pool_retry_cap ?sb = ?cap"
    using sb0 pl
    by (auto simp: PoolIDs_def IDs_def sb_Start_def loaded_scoreboard_def LoadSnapshot_def applySnapshot_def pool_for_def
        split: sum.splits option.splits)
  have ids': "assertUniqueUpstreamIDs ?us = None" using ids by (simp add: assertUniqueUpstreamIDs_None del: map_append)
  show ?thesis
    using h(2,3) srv(2) sb pl
    unfolding run_build_def Let_def ex sum.case prod.case if_not_P [OF ne] ids' prefers option.case r p collision
      sb0(1) h(1) srv(1)
    by (simp add: pool_for_def)
qed

lemma run_build_static:
  assumes "Validate v re cfg = []" and "cf_upstream_pools cfg = []"
    and "fc_timeout_ms (cf_failure cfg) * ms \<le> max_int64" and "list_all (\<lambda>u. b u = None) (cf_upstreams cfg)"
    and "is_ok (buildControlTokens (cf_control cfg) fs)"
  shows "\<exists>c rt rules. run_build reg b re dec disk fs cfg = Inr (c, rt, []) \<and>
           mset (PoolIDs (rt_sb rt)) = mset (map uc_id (cf_upstreams cfg)) \<and>
           NewRuleSet re (cf_rules cfg) = Inr rules \<and> sb_rules (rt_sb rt) = rules \<and> hl_rules (rt_http rt) = rules \<and>
           hl_retry_cap (rt_http rt) = sb_pool_retry_cap (rt_sb rt) \<and>
           (rt_control rt = None \<longleftrightarrow> ct_bind (cf_control cfg) = [])"
proof -
  have wf: "wf_config v re cfg" using assms(1) by (simp add: Validate_Nil_iff)
  have ex: "expandUpstreamPools reg (cf_upstream_pools cfg) = Inr ([], [])"
    by (simp add: assms(2) expandUpstreamPools_def)
  have "distinct (map uc_id (cf_upstreams cfg))" "cf_upstreams cfg \<noteq> []" "assertRulePreferIDs (cf_rules cfg) (cf_upstreams cfg) = None"
    using wf assms(2) wf_prefers [OF assms(1,2)] by (auto simp: wf_config_def assertRulePreferIDs_None)
  then show ?thesis
    using run_build_ok [OF assms(1) ex assms(3,5)] assms(4)
    by (simp add: list_all_iff buildAuthHealDrivers_def connectAuthHealDriversToComposer_def no_collision_iff)
qed

text \<open>
  A start-up from an accepted configuration of static upstreams succeeds, when the SOCKS dialers can be built, the
  dial timeout fits 64 bits in nanoseconds and the token file is readable, missing or not configured: the scoreboard
  serves exactly the configured upstreams and the listener starts with the configured rules.
\<close>

theorem startup_succeeds:
  assumes "Validate v re cfg = []" and "cf_upstream_pools cfg = []"
    and "fc_timeout_ms (cf_failure cfg) * ms \<le> max_int64" and "list_all (\<lambda>u. b u = None) (cf_upstreams cfg)"
    and "is_ok (buildControlTokens (cf_control cfg) fs)"
  shows "\<exists>c rt rules. run_build reg b re dec disk fs cfg = Inr (c, rt, []) \<and>
           mset (PoolIDs (rt_sb rt)) = mset (map uc_id (cf_upstreams cfg)) \<and>
           NewRuleSet re (cf_rules cfg) = Inr rules \<and> sb_rules (rt_sb rt) = rules \<and> hl_rules (rt_http rt) = rules \<and>
           hl_retry_cap (rt_http rt) = sb_pool_retry_cap (rt_sb rt) \<and>
           (rt_control rt = None \<longleftrightarrow> ct_bind (cf_control cfg) = [])"
  using assms by (rule run_build_static)
lemma reload_tail_fields:
  assumes "x = observe_reload ''success'' (reload_tokens fs cfg (reload_rules rules cfg y))"
  shows "rt_reloads x = rt_reloads y @ [''success'']" "sb_rules (rt_sb x) = rules" "hl_rules (rt_http x) = rules"
    "sb_cfg (rt_sb x) = sb_cfg (rt_sb y)" "hl_detector (rt_http x) = hl_detector (rt_http y)"
    "hl_retry_cap (rt_http x) = hl_retry_cap (rt_http y)" "sb_entries (rt_sb x) = sb_entries (rt_sb y)"
    "sb_pool_entries (rt_sb x) = sb_pool_entries (rt_sb y)" "hl_transports (rt_http x) = hl_transports (rt_http y)"
  unfolding assms
  by (auto simp: observe_reload_def reload_tokens_def reload_rules_def ReplaceRules_def
      ReloadRules_def ReloadBodyBufferKB_def split: sum.splits)

lemma reload_tuning_fields:
  "rt_reloads (reload_tuning cfg rt) = rt_reloads rt"
  "sb_cfg (rt_sb (reload_tuning cfg rt)) =
     (config_tuning cfg)\<lparr>sc_decay_interval := sc_decay_interval (sb_cfg (rt_sb rt))\<rparr>"
  "sb_entries (rt_sb (reload_tuning cfg rt)) = sb_entries (rt_sb rt)"
  "sb_pool_entries (rt_sb (reload_tuning cfg rt)) = sb_pool_entries (rt_sb rt)"
  "hl_transports (rt_http (reload_tuning cfg rt)) = hl_transports (rt_http rt)"
  "\<not> fc_max_retries_per_request (cf_failure cfg) < 1 \<Longrightarrow>
     hl_detector (rt_http (reload_tuning cfg rt)) = Some (NewStatusDetector (fc_status (cf_failure cfg)))"
  "\<not> fc_max_retries_per_request (cf_failure cfg) < 1 \<Longrightarrow>
     hl_retry_cap (rt_http (reload_tuning cfg rt)) = fc_max_retries_per_request (cf_failure cfg)"
  by (simp_all add: reload_tuning_def Let_def Reload_def http_Reload_def ReloadConnectionRefused_def)

lemma install_pool_rest [simp]:
  "rt_reloads (install_pool sb p rt) = rt_reloads rt"
  "hl_detector (rt_http (install_pool sb p rt)) = hl_detector (rt_http rt)"
  "hl_retry_cap (rt_http (install_pool sb p rt)) = hl_retry_cap (rt_http rt)"
  by (simp_all add: install_pool_def CloseTransportsExcept_def)

lemma swapStaticPool_accepted:
  assumes "Validate v re cfg = []" and "cf_upstream_pools cfg = []"
    and "fc_timeout_ms (cf_failure cfg) * ms \<le> max_int64" and "list_all (\<lambda>u. b u = None) (cf_upstreams cfg)"
  obtains p sb where "swapStaticPool b cfg rt = Inr (install_pool sb p rt)"
    and "ReplacePool (Some p) (rt_sb rt) = Inr sb" and "mset (IDs p) = mset (map uc_id (cf_upstreams cfg))"
proof -
  let ?build = "build_pool b (dial_timeout cfg) (fc_max_retries_per_request (cf_failure cfg)) (cf_upstreams cfg)"
  obtain p where p: "?build = Inr p"
    using wf_static_pool [OF assms] by (cases ?build) auto
  obtain sb where sb: "ReplacePool (Some p) (rt_sb rt) = Inr sb" using ReplacePool_total by blast
  have "cf_upstreams cfg \<noteq> []"
    using assms(1,2) by (auto simp: Validate_Nil_iff wf_config_def)
  from build_pool_static [OF p this sb] sb build_pool_for [OF p] show thesis
    by (intro that) (auto simp: pool_for_def)
qed


text \<open>
  The proviso on the dial timeout is needed: \<open>Validate\<close> accepts a \<open>timeout_ms\<close> that overflows the nanosecond
  clock, and then a reload of static upstreams counts as failed after it has swapped the tuning and the
  detector, with the old pool and the old rules still in force.
\<close>

theorem reload_half_applied:
  assumes "Validate v re cfg = []" and "cf_upstream_pools cfg = []" and "dial_timeout cfg \<le> 0"
  shows "reload re b fs (Inr cfg) False rt = observe_reload ''error'' (reload_tuning cfg rt)"
proof -
  obtain rules where r: "NewRuleSet re (cf_rules cfg) = Inr rules"
    using wf_rules_compile [OF assms(1)] by (cases "NewRuleSet re (cf_rules cfg)") auto
  have "CheckPreferIDs (projectedUpstreamIDs False cfg rt) rules = []"
    using wf_prefers [OF assms(1,2)] assms(2)
    by (simp add: known_prefers [OF r] projectedUpstreamIDs_def fset_of_list.rep_eq)
  moreover have "\<exists>e. swapStaticPool b cfg (reload_tuning cfg rt) = Inl e"
  proof (cases "cf_upstreams cfg")
    case Nil
    then show ?thesis using assms(1,2) by (simp add: Validate_Nil_iff wf_config_def)
  next
    case (Cons u us)
    then show ?thesis using assms(3) by (simp add: swapStaticPool_def build_upstream_def upstream_New_def)
  qed
  ultimately show ?thesis using assms(2) by (auto simp: reload_def r Let_def)
qed

text \<open>
  C10: no reload drops the control tokens by accident: they change only to the merge of the inline tokens with a
  token file that was read in full (or with no file configured), so a missing, unreadable or malformed file
  keeps the set in force, and authentication ends only when there is no token left in either place.
\<close>

theorem reload_keeps_auth:
  fixes cfg
  defines "file \<equiv> ct_auth_tokens_file (cf_control cfg)"
  assumes "rt_control rt = Some s"
  shows "\<exists>s'. rt_control (reload re b fs (Inr cfg) hasPool rt) = Some s' \<and>
         (cs_tokens s' = cs_tokens s \<or>
         (\<exists>loaded. (if file = [] then loaded = [] else LoadTokensFile file fs = Inr loaded) \<and>
            cs_tokens s' = tokens_Replace (MergeTokens (ct_auth_tokens (cf_control cfg)) loaded) (cs_tokens s) \<and>
            (snap_Enabled (tokens_Snapshot (cs_tokens s')) \<longleftrightarrow>
               (\<exists>t \<in> set (ct_auth_tokens (cf_control cfg)) \<union> set loaded. t \<noteq> []))))"
proof -
  have ctl: "rt_control (reload_tokens fs cfg rt') = Some s \<or>
      (\<exists>loaded. (if file = [] then loaded = [] else LoadTokensFile file fs = Inr loaded) \<and>
         rt_control (reload_tokens fs cfg rt') = ReplaceTokens (MergeTokens (ct_auth_tokens (cf_control cfg)) loaded) (Some s))"
    if "rt_control rt' = Some s" for rt'
    using that
    by (auto simp: reload_tokens_def buildControlTokens_def file_def split: sum.splits load_error.splits if_splits)
  have same: "rt_control (reload_rules rules cfg rt') = rt_control rt'" "rt_control (observe_reload x rt') = rt_control rt'"
      "rt_control (reload_tuning cfg rt') = rt_control rt'" "rt_control (install_pool sb p rt') = rt_control rt'"
    for rules rt' x sb p
    by (simp_all add: reload_rules_def observe_reload_def reload_tuning_def install_pool_def Let_def)
  have swap: "rt_control rt2 = rt_control rt1" if "swapStaticPool b cfg rt1 = Inr rt2" for rt1 rt2
    using that by (auto simp: swapStaticPool_def same split: sum.splits if_splits)
  let ?ctl = "rt_control (reload re b fs (Inr cfg) hasPool rt)"
  have "?ctl = Some s \<or>
      (\<exists>loaded. (if file = [] then loaded = [] else LoadTokensFile file fs = Inr loaded) \<and>
         ?ctl = ReplaceTokens (MergeTokens (ct_auth_tokens (cf_control cfg)) loaded) (Some s))"
    using reload_outcome [of re b fs hasPool rt "Inr cfg"]
  proof (cases rule: reload_outcome.cases)
    case (reload_done rules rt2)
    then have "rt_control rt2 = Some s"
      using swap assms(2) by (auto simp: same split: if_splits)
    then show ?thesis using ctl [of "reload_rules rules cfg rt2"] reload_done by (auto simp: same)
  qed (use assms(2) in \<open>auto simp: same\<close>)
  then consider "?ctl = Some s"
    | loaded s' where "if file = [] then loaded = [] else LoadTokensFile file fs = Inr loaded" "?ctl = Some s'"
        "cs_tokens s' = tokens_Replace (MergeTokens (ct_auth_tokens (cf_control cfg)) loaded) (cs_tokens s)"
    by (auto simp: ReplaceTokens_def)
  then show ?thesis
  proof cases
    case (2 loaded s')
    have "snap_Enabled (MergeTokens a l) \<longleftrightarrow> (\<exists>t \<in> set a \<union> set l. t \<noteq> [])" for a l
      using MergeTokens_set [of a l] by (auto simp: snap_Enabled_def simp flip: set_empty)
    moreover have "tokens_Snapshot (tokens_Replace ts t) = ts" for ts t
      by (simp add: tokens_Snapshot_def tokens_Replace_def)
    ultimately show ?thesis using 2 by (intro exI [of _ s'] conjI disjI2 exI [of _ loaded]) simp_all
  qed simp
qed

text \<open>
  A request that picked its upstream before a swap and fetches its transport after it defeats the flush: the
  transport it caches is handed to every later request for that id, although they picked the upstream
  of the new pool, for as long as nothing flushes the cache.
\<close>

theorem stale_transport:
  assumes "swapStaticPool b cfg rt = Inr rt1" and "up_id old = up_id new" and "old \<noteq> new"
    and "new \<in> pe_up ` set (sb_pool_entries (rt_sb rt1))" and "distinct (PoolIDs (rt_sb rt1))"
  shows "fst (transportFor new (snd (transportFor old (rt_http rt1)))) = old \<and>
         old \<notin> pe_up ` set (sb_pool_entries (rt_sb rt1)) \<and> fst (transportFor new (rt_http rt1)) = new"
proof -
  have "hl_transports (rt_http rt1) = fmempty"
    using assms(1) by (auto simp: swapStaticPool_def split: sum.splits if_splits)
  moreover have "old \<notin> pe_up ` set (sb_pool_entries (rt_sb rt1))"
    using assms(2-5) by (auto simp: PoolIDs_def distinct_map inj_on_def)
  ultimately show ?thesis using assms(2) by (simp add: transportFor_def)
qed


end
