(* ===== verification/Scenario.thy ===== *)
theory Scenario
  imports Samples Runtime Forward Control
begin

text \<open>
  The properties of the HTTP listener, the control endpoint and the running program at concrete inputs.
\<close>

subsection \<open>A forwarded request\<close>

definition demo_http :: http_server where
  "demo_http = \<lparr>hl_detector = None, hl_retry_cap = 3, hl_rules = [], hl_body_buffer_bytes = 0,
     hl_connection_refused = True, hl_transports = fmempty, hl_tunnels = {||}, hl_metrics = None\<rparr>"

definition demo_answer :: response where
  "demo_answer = \<lparr>rs_status = 200, rs_header = fmempty,
     rs_body = \<lparr>bd_chunks = [''hi''], bd_end = None, bd_closed = False\<rparr>\<rparr>"

definition demo_forward :: "nat \<Rightarrow> forward_env" where
  "demo_forward i =
     \<lparr>fe_others = id, fe_ctx_before = None, fe_pick_now = 10, fe_draws = demo_draws, fe_between = id,
      fe_round_trip = (\<lambda>u _. if up_id u = ''b'' then Inr demo_answer else Inl (ErrLeaf ECONNREFUSED None)),
      fe_during = id, fe_latency = 5, fe_ctx_after = None, fe_detect_now = 15, fe_done_now = 20\<rparr>"

definition demo_request :: fwd_request where
  "demo_request = \<lparr>rq_method = ''GET'', rq_scheme = ''http'', rq_url_host = ''h'', rq_host = ''h'',
     rq_header = fmempty, rq_content_length = 0, rq_body = None\<rparr>"

lemma demo_forward_fields [simp]:
  "hl_retry_cap demo_http = 3" "hl_transports demo_http = fmempty"
  "fe_others (demo_forward i) w = w" "fe_between (demo_forward i) w = w" "fe_during (demo_forward i) w = w"
  "fe_ctx_before (demo_forward i) = None" "fe_pick_now (demo_forward i) = 10" "fe_draws (demo_forward i) = demo_draws"
  "fe_round_trip (demo_forward i) u o' = (if up_id u = ''b'' then Inr demo_answer else Inl (ErrLeaf ECONNREFUSED None))"
  by (simp_all add: demo_http_def demo_forward_def)

lemma demo_fair_forward: "fair_forward 10 demo_forward" and demo_forward_alone: "forward_alone demo_forward"
  by (simp_all add: fair_forward_def forward_alone_def)

lemma demo_answers:
  "fe_round_trip (demo_forward i) u o' = Inr resp \<Longrightarrow> resp = demo_answer"
  by (simp add: demo_forward_def split: if_splits)

lemma demo_answer_ok: "canonical_header (rs_header demo_answer) \<and> \<not> bd_closed (rs_body demo_answer)"
  by (simp add: demo_answer_def canonical_header_def)

lemma demo_not_rejected: "forward_rejected demo_request = None"
proof -
  have "to_lower ''http'' = ''http''" "url_hostname ''h'' = ''h''" by code_simp+
  then show ?thesis
    by (simp add: forward_rejected_def demo_request_def maxBufferedRequestBody_def readBoundedBody_def)
qed

lemma demo_setup: "fp_host (forward_setup demo_request demo_http) = ''h''"
    "fp_detector (forward_setup demo_request demo_http) = None"
    "fp_patterns (forward_setup demo_request demo_http) = []"
proof -
  have "url_hostname ''h'' = ''h''" by code_simp
  then show "fp_host (forward_setup demo_request demo_http) = ''h''"
    "fp_detector (forward_setup demo_request demo_http) = None"
    "fp_patterns (forward_setup demo_request demo_http) = []"
    by (simp_all add: forward_setup_def demo_request_def demo_http_def)
qed

lemma demo_forwarded:
  "\<exists>hdr s' h'. handleForward demo_forward parseTime 30 demo_request (demo_sb, demo_http) =
     (Streamed 200 hdr (Passthrough (rs_body demo_answer)), [''b''], s', h')"
proof -
  obtain s1 where "Pick 10 demo_draws ''h'' [] demo_sb = (Inr (demo_upstream ''b''), s1)"
    using demo_pick_h by (metis prod.collapse)
  then show ?thesis
    by (simp add: handleForward_eq demo_not_rejected demo_setup numeral_3_eq_3 forward_dial_def transportFor_def
        inspect_response_def Detect_def demo_answer_def writeForwardSuccess_def Let_def split_beta)
qed

lemma handleForward_bounded_witness:
  "\<exists>hdr body. fst (handleForward demo_forward (\<lambda>_. None) 30 demo_request (demo_sb, demo_http)) = Streamed 200 hdr body \<and>
     header_values hdr ''X-Tunnelsmith-Upstream'' = [''b''] \<and> header_values hdr ''X-Tunnelsmith-Retries'' = [itoa 0]"
proof -
  obtain hdr s' h' where f: "handleForward demo_forward (\<lambda>_. None) 30 demo_request (demo_sb, demo_http) =
      (Streamed 200 hdr (Passthrough (rs_body demo_answer)), [''b''], s', h')"
    using demo_forwarded by blast
  have "\<forall>i u o' resp. fe_round_trip (demo_forward i) u o' = Inr resp \<longrightarrow> canonical_header (rs_header resp)"
    using demo_answers demo_answer_ok by blast
  from handleForward_bounded [OF demo_fair_forward demo_inv this f] f show ?thesis by simp
qed

lemma handleForward_serves_witness:
  "\<exists>hdr body. fst (handleForward demo_forward (\<lambda>_. None) 30 demo_request (demo_sb, demo_http)) = Streamed 200 hdr body \<and>
     replay_content body = ''hi''"
proof -
  obtain hdr s' h' where f: "handleForward demo_forward (\<lambda>_. None) 30 demo_request (demo_sb, demo_http) =
      (Streamed 200 hdr (Passthrough (rs_body demo_answer)), [''b''], s', h')"
    using demo_forwarded by blast
  have "\<forall>i u o' resp. fe_round_trip (demo_forward i) u o' = Inr resp \<longrightarrow>
      canonical_header (rs_header resp) \<and> \<not> bd_closed (rs_body resp)"
    using demo_answers demo_answer_ok by blast
  from handleForward_serves [OF demo_fair_forward demo_inv this f] f demo_answers show ?thesis
    by (auto simp: demo_answer_def body_content_def)
qed

lemma handleForward_cascade_witness:
  "sb_cascade (fst (snd (snd (handleForward demo_forward (\<lambda>_. None) 30 demo_request (demo_sb, demo_http))))) =
     fmdrop ''h'' (sb_cascade demo_sb)"
proof -
  obtain hdr s' h' where f: "handleForward demo_forward (\<lambda>_. None) 30 demo_request (demo_sb, demo_http) =
      (Streamed 200 hdr (Passthrough (rs_body demo_answer)), [''b''], s', h')"
    using demo_forwarded by blast
  have "url_hostname ''h'' = ''h''" by code_simp
  with handleForward_cascade [OF demo_forward_alone demo_not_rejected f] f show ?thesis
    by (simp add: forward_cascade_after_def demo_request_def)
qed

subsection \<open>The control endpoint\<close>


definition demo_report :: report_request where
  "demo_report = \<lparr>rr_host = ''Ex.com:443'', rr_upstream = ''b'', rr_outcome = ''ok'', rr_http_status = None\<rparr>"

definition demo_post :: control_request where
  "demo_post = \<lparr>cq_method = ''POST'', cq_path = ''/v1/report'', cq_query_plan = [], cq_header = fmempty,
     cq_body = \<lparr>bd_chunks = [''{}''], bd_end = None, bd_closed = False\<rparr>\<rparr>"

lemma demo_normalized: "normalizeReportHost (\<lambda>_. None) ''Ex.com:443'' = Inr ''ex.com:443''"
  by code_simp

lemma handleReport_effect_witness:
  "let (status, obs, s') = handleReport (Some scoreboard_backend) (\<lambda>_. Inr (demo_report, True)) (\<lambda>_. None) None 50
        demo_post demo_sb
   in status = 204 \<and> s' = RecordSuccess 50 ''ex.com'' ''b'' demo_sb \<and> sb_inv 10 s'"
proof -
  have "scoreboardHostKey ''ex.com:443'' = ''ex.com''" and "resolveOutcome ''ok'' = Some []" by code_simp+
  then have acc: "report_accepted (HasUpstream demo_sb) (\<lambda>_. Inr (demo_report, True)) (\<lambda>_. None) None demo_post =
      Some (demo_report, ''ex.com'', [])"
    by (simp add: report_accepted_def demo_post_def auth_gate_def report_body_def maxReportBytes_def demo_report_def
        demo_normalized missingFields_def HasUpstream_def)
  obtain status obs s' where h: "handleReport (Some scoreboard_backend) (\<lambda>_. Inr (demo_report, True)) (\<lambda>_. None) None 50
      demo_post demo_sb = (status, obs, s')"
    using prod_cases3 by blast
  have "status = 204 \<and> s' = RecordSuccess 50 ''ex.com'' ''b'' demo_sb \<and> sb_inv 10 s'"
    using handleReport_effect [OF demo_inv h] acc by (auto simp: demo_report_def outcomeOK_def)
  then show ?thesis by (auto simp: h)
qed

lemma report_meets_traffic_witness:
  "scoreboardHostKey ''ex.com:443'' = ''ex.com'' \<and> (\<exists>v. parse_int ''443'' = Some v \<and> 1 \<le> v \<and> v \<le> 65535)"
proof -
  have j: "join_host_port ''Ex.com'' ''443'' = ''Ex.com:443''" by code_simp
  have low: "to_lower ''Ex.com'' = ''ex.com''" by code_simp
  have sp: "list_all (\<lambda>c. \<not> is_space c) ''Ex.com:443''" by (simp add: is_space_def)
  have hl: "list_all (\<lambda>c. host_char (lower_char c)) ''Ex.com''"
    by (simp add: host_char_def label_char_def lower_char_def is_upper_def is_digit_def)
  have pp: "plain_port ''443''" by (simp add: plain_port_def)
  have hc: "\<forall>c \<in> set ''Ex.com''. host_char (lower_char c)" using hl by (simp only: list_all_iff)
  from report_meets_traffic [where parse_ip = "\<lambda>_. None", OF hc refl, of "''443''" "''ex.com:443''"]
  show ?thesis using demo_normalized sp pp by (simp add: j low list_all_iff)
qed

lemma provider_refresh_guarded_witness:
  "providers_route [\<lparr>pb_id_prefix = ''p'', pb_provider = ''webshare'', pb_has_api = True\<rparr>] (\<lambda>_ _. None) None
     (demo_post\<lparr>cq_path := ''/v1/providers/p/refresh''\<rparr>) = (RefreshAccepted ''p'' ''webshare'', [(''p'', [])]) \<and>
   auth_gate fmempty None = None"
proof -
  have p: "providers_path ''/v1/providers/p/refresh'' = Some (''p'', ''refresh'')" by code_simp
  have r: "providers_route [\<lparr>pb_id_prefix = ''p'', pb_provider = ''webshare'', pb_has_api = True\<rparr>] (\<lambda>_ _. None) None
     (demo_post\<lparr>cq_path := ''/v1/providers/p/refresh''\<rparr>) = (RefreshAccepted ''p'' ''webshare'', [(''p'', [])])"
    by (simp add: providers_route_def p handleProviderRefresh_def demo_post_def auth_gate_def registry_Lookup_def)
  from provider_refresh_guarded [OF r, of "''p''" "''webshare''"] r show ?thesis
    by (simp add: demo_post_def)
qed

lemma handleConnect_no_leak_witness:
  "\<exists>s' h'. handleConnect (\<lambda>_. True) demo_env 10 30
       \<lparr>hj_supported = True, hj_error = None, hj_write = None, hj_flush = None, hj_id = 7\<rparr> ''h:80'' (demo_sb, demo_http) =
     ([CWrite (buildConnectResponse (\<lambda>_. True) ''b''), CRegister 7, CPump, CCloseUp, CCloseClient, CUnregister 7],
      [''b''], s', h')"
proof -
  let ?hj = "\<lparr>hj_supported = True, hj_error = None, hj_write = None, hj_flush = None, hj_id = 7\<rparr>"
  obtain s' where d: "DialFor demo_env 10 30 ''h:80'' demo_sb = (Connected ''conn'' ''b'', [''b''], s')"
    using demo_dial_h by (metis prod.collapse)
  obtain evs ids s2 h2 where c: "handleConnect (\<lambda>_. True) demo_env 10 30 ?hj ''h:80'' (demo_sb, demo_http) = (evs, ids, s2, h2)"
    using prod_cases4 by blast
  have "CPump \<in> set evs"
    using c d by (auto simp: handleConnect_def tunnel_run_def)
  with handleConnect_no_leak [OF d c] c show ?thesis by simp
qed

subsection \<open>The running program\<close>

lemma direct_upstream_id [simp]: "uc_id (direct_upstream uid) = uid"
  by (simp add: direct_upstream_def)

definition demo_config :: config where
  "demo_config = applyDefaults (\<lambda>_. False) sample_config"

abbreviation no_build_error :: "upstream_config \<Rightarrow> goerr option" where
  "no_build_error \<equiv> \<lambda>_. None"

lemma demo_config_fields [simp]:
  "cf_upstreams demo_config = [default_upstream (direct_upstream ''a'')]" "cf_upstream_pools demo_config = []"
  "cf_rules demo_config = []" "cc_persist_path (cf_cache demo_config) = []"
  "fc_timeout_ms (cf_failure demo_config) = 8000" "fc_max_retries_per_request (cf_failure demo_config) = 5"
  "ct_auth_tokens_file (cf_control demo_config) = []" "ct_auth_tokens (cf_control demo_config) = []"
  by (simp_all add: demo_config_def applyDefaults_def sample_config_def default_failure_def)

lemma demo_config_valid: "Validate None (\<lambda>_. None) demo_config = []"
  unfolding demo_config_def by (rule applyDefaults_minimal_valid_witness)

lemma demo_config_tuning: "cfg_inv 10 (config_tuning demo_config)"
proof -
  have t: "config_tuning demo_config = FromConfig ScoringDefaults DefaultStatusRules True"
    by (simp add: config_tuning_def demo_config_def applyDefaults_def default_failure_def applyScoringDefaults_none)
  show ?thesis unfolding t
    by (rule cfg_inv_FromConfig [where c = 10])
      (rule wf_ScoringDefaults representable_10 | simp add: ScoringDefaults_def DefaultStatusRules_def)+
qed

lemma demo_timeout: "fc_timeout_ms (cf_failure demo_config) * ms \<le> max_int64"
  by (simp add: ms_def max_int64_def)

lemma demo_tokens: "is_ok (buildControlTokens (cf_control demo_config) (\<lambda>_. Inl (ErrLeaf ErrNotExist None)))"
  by (simp add: buildControlTokens_def)

abbreviation demo_start :: "startup_error + composer \<times> runtime \<times> heal_driver list" where
  "demo_start \<equiv> run_build fmempty no_build_error (\<lambda>_. None) (\<lambda>_. Inl (ErrLeaf ErrNotExist None)) fmempty
     (\<lambda>_. Inl (ErrLeaf ErrNotExist None)) demo_config"

lemma startup_succeeds_witness:
  "\<exists>c rt. demo_start = Inr (c, rt, []) \<and> mset (PoolIDs (rt_sb rt)) = {#''a''#}"
  using startup_succeeds [OF demo_config_valid _ demo_timeout _ demo_tokens, of no_build_error fmempty
      "\<lambda>_. Inl (ErrLeaf ErrNotExist None)" fmempty]
  by auto


definition demo_runtime :: runtime where
  "demo_runtime = \<lparr>rt_sb = demo_sb, rt_http = demo_http, rt_gauges = None, rt_pool_size = 2, rt_hotswaps = [],
     rt_reloads = [], rt_control = Some \<lparr>cs_tokens = NewTokenSet [''tok''], cs_gate_healthz = False, cs_providers = None,
       cs_tls_cert = [], cs_tls_key = []\<rparr>\<rparr>"

definition demo_composer :: composer where
  "demo_composer = \<lparr>pc_static = [direct_upstream ''s''], pc_blocks = [(''p'', None)], pc_retryCap = 3,
     pc_dialTimeout = 8000000000\<rparr>"



definition slow_config :: config where
  "slow_config = demo_config\<lparr>cf_failure := (cf_failure demo_config)\<lparr>fc_timeout_ms := 9223372036855\<rparr>\<rparr>"

lemma reload_half_applied_witness:
  "reload (\<lambda>_. None) no_build_error (\<lambda>_. Inl (ErrLeaf ErrNotExist None)) (Inr slow_config) False demo_runtime =
     observe_reload ''error'' (reload_tuning slow_config demo_runtime)"
proof (rule reload_half_applied [where v = None])
  have "wf_config None (\<lambda>_. None) demo_config" using demo_config_valid by (simp add: Validate_Nil_iff)
  then show "Validate None (\<lambda>_. None) slow_config = []"
    by (simp add: Validate_Nil_iff wf_config_def wf_failure_def slow_config_def wf_listeners_def)
  show "cf_upstream_pools slow_config = []" by (simp add: slow_config_def)
  show "dial_timeout slow_config \<le> 0"
    by (simp add: dial_timeout_def slow_config_def ms_def wrap64_def)
qed

lemma reload_keeps_auth_witness:
  "\<exists>s'. rt_control (reload (\<lambda>_. None) no_build_error (\<lambda>_. Inl (ErrLeaf ErrNotExist None))
       (Inr (demo_config\<lparr>cf_control := (cf_control demo_config)\<lparr>ct_auth_tokens_file := ''/tokens''\<rparr>\<rparr>)) False demo_runtime) =
     Some s' \<and> snap_Enabled (tokens_Snapshot (cs_tokens s'))"
proof -
  have "rt_control demo_runtime = Some \<lparr>cs_tokens = NewTokenSet [''tok''], cs_gate_healthz = False, cs_providers = None,
       cs_tls_cert = [], cs_tls_key = []\<rparr>" by (simp add: demo_runtime_def)
  from reload_keeps_auth [OF this, of "\<lambda>_. None" no_build_error "\<lambda>_. Inl (ErrLeaf ErrNotExist None)"
      "demo_config\<lparr>cf_control := (cf_control demo_config)\<lparr>ct_auth_tokens_file := ''/tokens''\<rparr>\<rparr>" False]
  show ?thesis
    by (auto simp: LoadTokensFile_def NewTokenSet_def tokens_Snapshot_def snap_Enabled_def)
qed

lemma stale_transport_witness:
  "\<exists>rt1. swapStaticPool no_build_error demo_config demo_runtime = Inr rt1 \<and>
     fst (transportFor (newDirect (direct_upstream ''a'') 8000000000)
       (snd (transportFor ((demo_upstream ''a'')\<lparr>up_addr := ''old:1''\<rparr>) (rt_http rt1)))) = (demo_upstream ''a'')\<lparr>up_addr := ''old:1''\<rparr>"
proof -
  let ?new = "newDirect (direct_upstream ''a'') 8000000000"
  let ?old = "(demo_upstream ''a'')\<lparr>up_addr := ''old:1''\<rparr>"
  have d: "dial_timeout demo_config = 8000000000"
    by (simp add: dial_timeout_def ms_def wrap64_def)
  have n: "newDirect (default_upstream (direct_upstream ''a'')) t = newDirect (direct_upstream ''a'') t" for t
    by (simp add: newDirect_def default_upstream_def direct_upstream_def)
  have b: "build_upstream no_build_error 8000000000 (default_upstream (direct_upstream ''a'')) = Inr (Some ?new, 100)"
    by (simp add: build_upstream_def upstream_New_def n PriorityValue_def)
      (simp add: direct_upstream_def default_upstream_def KindDirect_def)
  obtain rt1 where r: "swapStaticPool no_build_error demo_config demo_runtime = Inr rt1"
      and e: "map pe_up (sb_pool_entries (rt_sb rt1)) = [?new]"
    by (auto simp: swapStaticPool_def d b NewPool_def ReplacePool_def Entries_def slice_sort_def Let_def)
  have "?new \<in> pe_up ` set (sb_pool_entries (rt_sb rt1))" using e by (metis list.set_intros(1) set_map)
  moreover have "distinct (PoolIDs (rt_sb rt1))"
    using e by (auto simp: PoolIDs_def)
  moreover have "?old \<noteq> ?new" "up_id ?old = up_id ?new"
    by (simp_all add: newDirect_def demo_upstream_def direct_upstream_def)
  ultimately show ?thesis using stale_transport [OF r] r by blast
qed

end
