(* ===== verification/VendorCache.thy ===== *)
theory VendorCache
  imports Providers Failure
begin

text \<open>
  What the vendor pools share: the disk cache of \<open>internal/upstream/mullvad/api.go\<close> and
  \<open>internal/upstream/webshare/cache.go\<close> (a temporary file renamed into place), the bounded read of an API
  answer, the fall-back from the API to the cache, and the refresh loop of an expander.
\<close>

subsection \<open>The cache file\<close>

type_synonym disk = "(string, string) fmap"

text \<open>The outcomes of one write: the failed write says how many bytes had gone out.\<close>

record cache_env =
  kw_tmp :: string
  kw_mkdir :: "goerr option"
  kw_create :: "goerr option"
  kw_write :: "(goerr \<times> nat) option"
  kw_close :: "goerr option"
  kw_rename :: "goerr option"

definition ErrNoCache :: goerr where "ErrNoCache = errorf ''cache empty''"

text \<open>A nil cache has the empty path. The file system after each operation is listed.\<close>

definition cache_Write :: "cache_env \<Rightarrow> string \<Rightarrow> string \<Rightarrow> disk \<Rightarrow> goerr option \<times> disk list" where
  "cache_Write env path data m =
     (if path = [] then (Some ErrNoCache, [m])
      else (case kw_mkdir env of Some e \<Rightarrow> (Some e, [m])
      | None \<Rightarrow> (case kw_create env of Some e \<Rightarrow> (Some e, [m])
      | None \<Rightarrow>
        (let tmp = kw_tmp env; m1 = fmupd tmp [] m; m2 = fmupd tmp data m1
         in case kw_write env of Some (e, n) \<Rightarrow> (Some e, [m1, fmupd tmp (take n data) m1, fmdrop tmp m1])
         | None \<Rightarrow> (case kw_close env of Some e \<Rightarrow> (Some e, [m1, m2, fmdrop tmp m2])
         | None \<Rightarrow> (case kw_rename env of Some e \<Rightarrow> (Some e, [m1, m2, fmdrop tmp m2])
         | None \<Rightarrow> (None, [m1, m2, fmdrop tmp (fmupd path data m2)])))))))"

definition cache_Read :: "goerr option \<Rightarrow> string \<Rightarrow> disk \<Rightarrow> goerr + string" where
  "cache_Read readErr path m =
     (if path = [] then Inl ErrNoCache
      else (case fmlookup m path of
              None \<Rightarrow> Inl ErrNoCache
            | Some data \<Rightarrow> (case readErr of Some e \<Rightarrow> Inl e | None \<Rightarrow> Inr data)))"

lemma cache_Write_states:
  assumes "cache_Write env path data m = (err, states)"
    and "kw_tmp env \<noteq> path" and "fmlookup m (kw_tmp env) = None"
  shows "states \<noteq> []" and "\<forall>m' \<in> set states. fmlookup m' path \<in> {fmlookup m path, Some data}"
    and "fmlookup (last states) (kw_tmp env) = None" and "err = None \<Longrightarrow> fmlookup (last states) path = Some data"
    and "err \<noteq> None \<Longrightarrow> fmlookup (last states) path = fmlookup m path"
    and "f \<noteq> path \<Longrightarrow> f \<noteq> kw_tmp env \<Longrightarrow> m' \<in> set states \<Longrightarrow> fmlookup m' f = fmlookup m f"
  using assms by (auto simp: cache_Write_def Let_def split: if_splits option.splits)

subsection \<open>Bounded reads\<close>

text \<open>\<open>io.ReadAll\<close> of a body limited to one byte more than \<open>limit\<close>.\<close>

definition read_capped :: "int \<Rightarrow> body \<Rightarrow> goerr + string" where
  "read_capped limit b =
     (let (data, cs, k) = read_limit (nat (limit + 1)) (bd_chunks b)
      in case (if k = 0 then None else bd_end b) of
           Some e \<Rightarrow> Inl (errorf_w ''read body'' e)
         | None \<Rightarrow> if limit < int (length data) then Inl (errorf ''response body exceeds the cap'') else Inr data)"

lemma read_capped_ok:
  assumes "read_capped limit b = Inr data" and "0 \<le> limit"
  shows "data = body_content b" and "int (length data) \<le> limit"
proof -
  obtain bytes cs k where r: "read_limit (nat (limit + 1)) (bd_chunks b) = (bytes, cs, k)"
    by (cases "read_limit (nat (limit + 1)) (bd_chunks b)") auto
  have b: "data = bytes" "int (length data) \<le> limit"
    using assms(1) r by (auto simp: read_capped_def Let_def split: option.splits if_splits)
  then show "int (length data) \<le> limit" by simp
  have "bytes @ concat cs = concat (bd_chunks b)" "length bytes + k = nat (limit + 1)" "k > 0 \<longrightarrow> cs = []"
    using read_limit_spec [OF r] by auto
  moreover have "k > 0" using b calculation(2) assms(2) by simp
  ultimately show "data = body_content b" using b by (simp add: body_content_def)
qed

subsection \<open>Falling back to the cache\<close>

text \<open>The contract: the live list, or for a failure that allows it the cached one, or the failure.\<close>

definition with_fallback :: "(goerr \<Rightarrow> bool) \<Rightarrow> goerr + 'a \<Rightarrow> 'a option \<Rightarrow> goerr + 'a" where
  "with_fallback allowed live cached =
     (case live of
        Inr x \<Rightarrow> Inr x
      | Inl e \<Rightarrow> (case (if allowed e then cached else None) of Some x \<Rightarrow> Inr x | None \<Rightarrow> Inl e))"

subsection \<open>The refresh loop\<close>

text \<open>
  The calls of \<open>onChange\<close> of a fixed-interval loop, for the outcomes of the snapshots its ticks take.
\<close>

fun refresh_ticks :: "'a \<Rightarrow> (goerr + 'a) list \<Rightarrow> ('a \<times> 'a) list" where
  "refresh_ticks prev [] = []"
| "refresh_ticks prev (Inl e # ticks) = refresh_ticks prev ticks"
| "refresh_ticks prev (Inr next # ticks) = (prev, next) # refresh_ticks next ticks"

definition runRefreshLoop :: "duration \<Rightarrow> 'a \<Rightarrow> (goerr + 'a) list \<Rightarrow> ('a \<times> 'a) list" where
  "runRefreshLoop refresh prev ticks = (if refresh \<le> 0 then [] else refresh_ticks prev ticks)"

text \<open>The calls chain: each starts from the list the one before delivered.\<close>

lemma refresh_ticks_chain:
  "map snd (refresh_ticks prev ticks) = [x. Inr x \<leftarrow> ticks]"
  "map fst (refresh_ticks prev ticks) = butlast (prev # [x. Inr x \<leftarrow> ticks])"
  by (induction prev ticks rule: refresh_ticks.induct) auto

subsection \<open>Upstream lists\<close>

text \<open>Both expanders keep some entries, give each an id with the block's prefix and sort by id.\<close>

lemma expansion_sorted: "sorted (map uc_id (slice_sort (\<lambda>a b. uc_id a < uc_id b) us))"
  by (simp add: slice_sort_key)

lemma expansion_set:
  "u \<in> set (slice_sort lt (List.map_filter f xs)) \<longleftrightarrow> (\<exists>x \<in> set xs. f x = Some u)"
  by (force simp: List.map_filter_def)

lemma distinct_map_filter:
  assumes "distinct (map k xs)" and "\<And>x u. x \<in> set xs \<Longrightarrow> f x = Some u \<Longrightarrow> g u = h (k x)" and "inj h"
  shows "distinct (map g (List.map_filter f xs))"
  using assms(1,2)
proof (induction xs)
  case (Cons x xs)
  have IH: "distinct (map g (List.map_filter f xs))" using Cons by simp
  show ?case
  proof (cases "f x")
    case None
    with IH show ?thesis by (simp add: List.map_filter_simps)
  next
    case (Some u)
    have "g u \<notin> g ` set (List.map_filter f xs)"
    proof
      assume "g u \<in> g ` set (List.map_filter f xs)"
      then obtain y v where y: "y \<in> set xs" "f y = Some v" "g u = g v"
        by (auto simp: List.map_filter_def)
      then have "h (k x) = h (k y)" using Cons.prems(2) Some by (metis list.set_intros(1,2))
      with y(1) Cons.prems(1) assms(3) show False by (auto dest: injD)
    qed
    with IH Some show ?thesis by (simp add: List.map_filter_simps)
  qed
qed (simp add: List.map_filter_simps)

lemma expansion_distinct:
  assumes "distinct (map k xs)" and "\<And>x u. x \<in> set xs \<Longrightarrow> f x = Some u \<Longrightarrow> uc_id u = pre @ k x"
  shows "distinct (map uc_id (slice_sort lt (List.map_filter f xs)))"
  using distinct_map_filter [OF assms(1), of f uc_id "\<lambda>s. pre @ s"] assms(2) by (simp add: inj_def)

text \<open>An address joined from a plain host and a port in range passes the upstream checks.\<close>

lemma upstream_addr_ok_join:
  assumes "plain_host h" and "list_ex (\<lambda>c. \<not> is_space c) h" and "1 \<le> p" and "p \<le> 65535"
  shows "split_host_port (join_host_port h (itoa p)) = Inr (h, itoa p)"
    and "upstream_addr_ok (join_host_port h (itoa p))"
proof -
  have "plain_port (itoa p)" using assms(3) plain_port_show_nat by (simp add: itoa_def)
  then show s: "split_host_port (join_host_port h (itoa p)) = Inr (h, itoa p)"
    by (rule split_join_host_port [OF assms(1)])
  have "parse_int (itoa p) = Some p" using assms(3,4) by (intro parse_int_itoa) (simp_all add: max_int64_def)
  moreover have "trim_space h \<noteq> []" using assms(2) by (auto simp: trim_space_eq_Nil list_all_iff list_ex_iff)
  ultimately show "upstream_addr_ok (join_host_port h (itoa p))"
    using assms(3,4) by (simp add: upstream_addr_ok_def s port_ok_def)
qed

subsection \<open>Clients with a cache\<close>

definition write_ok :: "cache_env \<Rightarrow> string \<Rightarrow> bool" where
  "write_ok env path \<longleftrightarrow>
     path \<noteq> [] \<and> kw_tmp env \<noteq> path \<and> kw_mkdir env = None \<and> kw_create env = None \<and> kw_write env = None \<and>
     kw_close env = None \<and> kw_rename env = None"

lemma cache_Write_ok:
  "write_ok env path \<Longrightarrow> fmlookup (last (snd (cache_Write env path data m))) path = Some data"
  by (auto simp: write_ok_def cache_Write_def Let_def)

text \<open>The results of a series of fetches over one cache.\<close>

fun fetch_run :: "('env \<Rightarrow> disk \<Rightarrow> (goerr + 'a) \<times> disk) \<Rightarrow> 'env list \<Rightarrow> disk \<Rightarrow> (goerr + 'a) list" where
  "fetch_run fetch [] m = []"
| "fetch_run fetch (env # envs) m = (let (r, m') = fetch env m in r # fetch_run fetch envs m')"

text \<open>
  The interface both vendors' clients offer: \<open>fetch\<close> answers like \<open>with_fallback\<close>, a failed fetch leaves the disk
  alone, and a successful one whose write goes through is read back by later fetches.
\<close>

locale cached_client =
  fixes live :: "'env \<Rightarrow> goerr + 'a"
    and allowed :: "goerr \<Rightarrow> bool"
    and cached :: "'env \<Rightarrow> disk \<Rightarrow> 'a option"
    and fetch :: "'env \<Rightarrow> disk \<Rightarrow> (goerr + 'a) \<times> disk"
    and writes :: "'env \<Rightarrow> 'a \<Rightarrow> bool"
    and reads :: "'env \<Rightarrow> bool"
  assumes result: "fst (fetch env m) = with_fallback allowed (live env) (cached env m)"
    and keeps: "isl (live env) \<Longrightarrow> snd (fetch env m) = m"
    and stores: "live env = Inr x \<Longrightarrow> writes env x \<Longrightarrow> reads env' \<Longrightarrow> cached env' (snd (fetch env m)) = Some x"
begin

lemma live_wins: "live env = Inr x \<Longrightarrow> fst (fetch env m) = Inr x"
  by (simp add: result with_fallback_def)

lemma fails_closed: "live env = Inl e \<Longrightarrow> \<not> allowed e \<Longrightarrow> fetch env m = (Inl e, m)"
  using keeps [of env m] by (intro prod_eqI) (simp_all add: result with_fallback_def)

lemma cached_run:
  assumes "\<And>env. env \<in> set envs \<Longrightarrow> (\<exists>e. live env = Inl e \<and> allowed e) \<and> cached env m = Some x"
  shows "fetch_run fetch envs m = replicate (length envs) (Inr x)"
  using assms
proof (induction envs)
  case (Cons env envs)
  then obtain e where "live env = Inl e" "allowed e" "cached env m = Some x" by auto
  then have "fetch env m = (Inr x, m)"
    using keeps [of env m] by (intro prod_eqI) (simp_all add: result with_fallback_def)
  with Cons show ?case by simp
qed simp

text \<open>Through an outage the last stored list keeps being served.\<close>

lemma outage_serves_last:
  assumes "live env0 = Inr x" and "writes env0 x"
    and "\<And>env. env \<in> set envs \<Longrightarrow> (\<exists>e. live env = Inl e \<and> allowed e) \<and> reads env"
  shows "fetch_run fetch (env0 # envs) m = replicate (Suc (length envs)) (Inr x)"
proof -
  have "fetch_run fetch envs (snd (fetch env0 m)) = replicate (length envs) (Inr x)"
    using assms stores by (intro cached_run) auto
  then show ?thesis using live_wins [OF assms(1)] by (simp add: case_prod_beta)
qed

end

end
