(* ===== verification/Mullvad.thy ===== *)
theory Mullvad
  imports VendorCache
begin

text \<open>
  The Mullvad pool, \<open>internal/upstream/mullvad\<close>: the relay list with its cache, the SOCKS5 address of a relay, the
  expansion of a pool block, and the provider. The HTTP exchange and the JSON decoder are parameters.
\<close>

subsection \<open>The relay list\<close>

record relay =
  ry_hostname :: string
  ry_country :: string
  ry_city :: string
  ry_active :: bool

record raw_relay =
  rw_hostname :: string
  rw_location :: string
  rw_active :: bool

record raw_response =
  rr_locations :: "(string, string \<times> string) fmap"   \<comment> \<open>country and city\<close>
  rr_relays :: "raw_relay list"

type_synonym relay_decode = "string \<Rightarrow> goerr + raw_response"

definition parseResponse :: "relay_decode \<Rightarrow> string \<Rightarrow> goerr + relay list" where
  "parseResponse decode data =
     (case decode data of
        Inl e \<Rightarrow> Inl (errorf_w ''mullvad: decode relay list'' e)
      | Inr raw \<Rightarrow>
          Inr (slice_sort (\<lambda>a b. ry_hostname a < ry_hostname b)
            (map (\<lambda>r. let (country, city) = (case fmlookup (rr_locations raw) (rw_location r) of
                               Some loc \<Rightarrow> loc | None \<Rightarrow> ([], []))
                      in \<lparr>ry_hostname = rw_hostname r, ry_country = country, ry_city = city,
                          ry_active = rw_active r\<rparr>)
               (rr_relays raw))))"

definition maxResponseBytes :: int where "maxResponseBytes = 8 * 1024 * 1024"

text \<open>The answer of the HTTP client: a transport error, or the status and the body.\<close>

definition fetchOnline :: "goerr + int \<times> body \<Rightarrow> goerr + string" where
  "fetchOnline answer =
     (case answer of
        Inl e \<Rightarrow> Inl (errorf_w ''mullvad: get relays'' e)
      | Inr (status, b) \<Rightarrow>
          if status \<noteq> 200 then Inl (errorf ''mullvad: get relays: unexpected status'')
          else read_capped maxResponseBytes b)"

definition tryCacheFallback ::
    "relay_decode \<Rightarrow> goerr option \<Rightarrow> string option \<Rightarrow> disk \<Rightarrow> relay list option" where
  "tryCacheFallback decode readErr cache m =
     (case cache of
        None \<Rightarrow> None
      | Some path \<Rightarrow>
          (case cache_Read readErr path m of
             Inl _ \<Rightarrow> None
           | Inr data \<Rightarrow> (case parseResponse decode data of Inl _ \<Rightarrow> None | Inr relays \<Rightarrow> Some relays)))"

text \<open>One fetch: what the API, the cache read and the cache write answer, and the cache's path.\<close>

record fetch_env =
  fx_answer :: "goerr + int \<times> body"
  fx_read :: "goerr option"
  fx_write :: cache_env

definition Fetch ::
    "relay_decode \<Rightarrow> fetch_env \<Rightarrow> string option \<Rightarrow> disk \<Rightarrow> (goerr + relay list) \<times> disk" where
  "Fetch decode env cache m =
     (case fetchOnline (fx_answer env) of
        Inr data \<Rightarrow>
          (case parseResponse decode data of
             Inl parseErr \<Rightarrow>
               (case tryCacheFallback decode (fx_read env) cache m of
                  Some cached \<Rightarrow> (Inr cached, m) | None \<Rightarrow> (Inl parseErr, m))
           | Inr relays \<Rightarrow>
               (Inr relays,
                case cache of None \<Rightarrow> m | Some path \<Rightarrow> last (snd (cache_Write (fx_write env) path data m))))
      | Inl fetchErr \<Rightarrow>
          (case tryCacheFallback decode (fx_read env) cache m of
             Some cached \<Rightarrow> (Inr cached, m) | None \<Rightarrow> (Inl fetchErr, m)))"

subsection \<open>Addresses\<close>

definition SOCKS5DomainSuffix :: string where "SOCKS5DomainSuffix = ''.relays.mullvad.net''"
definition SOCKS5Port :: int where "SOCKS5Port = 1080"

text \<open>
  The expression \<open>^(.+-wg)-(\d+)$\<close>, read from the end: the digits, then \<open>-wg-\<close>, then at least one
  character, none of them a line feed. The result is the two submatches.
\<close>

definition hostnameRe :: "string \<Rightarrow> (string \<times> string) option" where
  "hostnameRe h =
     (let digits = takeWhile is_digit (rev h); rest = dropWhile is_digit (rev h) in
      if digits = [] \<or> \<not> has_prefix rest ''-gw-'' then None
      else if drop 4 rest = [] \<or> CHR 0x0A \<in> set (drop 4 rest) then None
      else Some (rev (drop 4 rest) @ ''-wg'', rev digits))"

definition SOCKS5Address :: "string \<Rightarrow> goerr + string" where
  "SOCKS5Address hostname =
     (case hostnameRe hostname of
        None \<Rightarrow> Inl (errorf ''mullvad: relay hostname does not match expected pattern'')
      | Some (a, n) \<Rightarrow> Inr (a @ ''-socks5-'' @ n @ SOCKS5DomainSuffix @ '':'' @ itoa SOCKS5Port))"

subsection \<open>Expansion\<close>

record mv_config =
  mx_id_prefix :: string
  mx_priority :: int
  mx_countries :: "string list"
  mx_include_inactive :: bool
  mx_refresh :: duration

text \<open>A nil client is the flag.\<close>

definition NewExpander :: "mv_config \<Rightarrow> bool \<Rightarrow> goerr + mv_config" where
  "NewExpander cfg haveClient =
     (if mx_id_prefix cfg = [] then Inl (errorf ''mullvad: id_prefix is required'')
      else if \<not> haveClient then Inl (errorf ''mullvad: client is required'')
      else Inr cfg)"

definition buildCountryFilter :: "string list \<Rightarrow> string set option" where
  "buildCountryFilter countries =
     (if countries = [] then None else Some (set (map (to_lower \<circ> trim_space) countries)))"

definition mv_upstream :: "mv_config \<Rightarrow> string set option \<Rightarrow> relay \<Rightarrow> upstream_config option" where
  "mv_upstream cfg allowed r =
     (if \<not> mx_include_inactive cfg \<and> \<not> ry_active r then None
      else if (case allowed of None \<Rightarrow> False | Some cs \<Rightarrow> to_lower (ry_country r) \<notin> cs) then None
      else (case SOCKS5Address (ry_hostname r) of
              Inl _ \<Rightarrow> None
            | Inr addr \<Rightarrow>
                Some \<lparr>uc_id = mx_id_prefix cfg @ ''-'' @ ry_hostname r, uc_kind = KindSOCKS5, uc_addr = addr,
                  uc_priority = Some (mx_priority cfg), uc_username = [], uc_password = []\<rparr>))"

definition mv_transform :: "mv_config \<Rightarrow> relay list \<Rightarrow> upstream_config list" where
  "mv_transform cfg relays =
     slice_sort (\<lambda>a b. uc_id a < uc_id b)
       (List.map_filter (mv_upstream cfg (buildCountryFilter (mx_countries cfg))) relays)"

definition mv_Snapshot ::
    "relay_decode \<Rightarrow> fetch_env \<Rightarrow> string option \<Rightarrow> mv_config \<Rightarrow> disk \<Rightarrow> (goerr + up_slice) \<times> disk" where
  "mv_Snapshot decode env cache cfg m =
     (case Fetch decode env cache m of
        (Inl e, m') \<Rightarrow> (Inl (errorf_w ''mullvad expander: fetch'' e), m')
      | (Inr relays, m') \<Rightarrow> (Inr (Some (mv_transform cfg relays)), m'))"

text \<open>
  \<open>Run\<close> delivers a first snapshot and then those of the loop; \<open>RunRefresh\<close> is the loop alone. The flag tells
  whether there is a callback, the list the outcomes of the loop's snapshots.
\<close>

definition mv_Run :: "bool \<Rightarrow> duration \<Rightarrow> goerr + 'a \<Rightarrow> (goerr + 'a) list \<Rightarrow> goerr + 'a list" where
  "mv_Run haveCallback refresh first ticks =
     (if \<not> haveCallback then Inl (errorf ''mullvad: onSnapshot callback is required'')
      else (case first of
              Inl e \<Rightarrow> Inl e
            | Inr snap \<Rightarrow> Inr (snap # map snd (runRefreshLoop refresh snap ticks))))"

definition mv_RunRefresh :: "bool \<Rightarrow> duration \<Rightarrow> 'a \<Rightarrow> (goerr + 'a) list \<Rightarrow> goerr + ('a \<times> 'a) list" where
  "mv_RunRefresh haveCallback refresh prev ticks =
     (if \<not> haveCallback then Inl (errorf ''mullvad: onChange callback is required'')
      else Inr (runRefreshLoop refresh prev ticks))"

lemma mv_Run_delivers:
  "0 < refresh \<Longrightarrow> mv_Run True refresh (Inr snap) ticks = Inr (snap # [x. Inr x \<leftarrow> ticks])"
  by (simp add: mv_Run_def runRefreshLoop_def refresh_ticks_chain)

subsection \<open>The provider\<close>

definition mv_ValidateConfig :: "upstream_pool_config \<Rightarrow> string option" where
  "mv_ValidateConfig cfg =
     (if pc_countries cfg = [] then Some ''mullvad: countries must list at least one country''
      else if list_ex (\<lambda>c. trim_space c = []) (pc_countries cfg) then Some ''mullvad: countries entry is empty''
      else None)"

definition mv_config_of :: "upstream_pool_config \<Rightarrow> mv_config" where
  "mv_config_of cfg =
     \<lparr>mx_id_prefix = pc_id_prefix cfg, mx_priority = pool_PriorityValue cfg, mx_countries = pc_countries cfg,
      mx_include_inactive = pc_include_inactive cfg, mx_refresh = RefreshDuration cfg\<rparr>"

definition mv_cache_of :: "upstream_pool_config \<Rightarrow> string option" where
  "mv_cache_of cfg = (if pc_cache_path cfg \<noteq> [] then Some (pc_cache_path cfg) else None)"

definition mv_BuildExpander ::
    "relay_decode \<Rightarrow> fetch_env \<Rightarrow> disk \<Rightarrow> upstream_pool_config \<Rightarrow> goerr + expander" where
  "mv_BuildExpander decode env m cfg =
     (case NewExpander (mv_config_of cfg) True of
        Inl e \<Rightarrow> Inl e
      | Inr c \<Rightarrow> Inr \<lparr>ex_healer = False, ex_snapshot = fst (mv_Snapshot decode env (mv_cache_of cfg) c m)\<rparr>)"

text \<open>What a block's expansion meets: the answers of its first fetch and the files.\<close>

type_synonym mv_world = "upstream_pool_config \<Rightarrow> fetch_env \<times> disk"

definition mv_provider :: "relay_decode \<Rightarrow> mv_world \<Rightarrow> provider" where
  "mv_provider decode w =
     \<lparr>pv_Name = ''mullvad'', pv_ValidateConfig = mv_ValidateConfig,
      pv_BuildExpander = (\<lambda>cfg. mv_BuildExpander decode (fst (w cfg)) (snd (w cfg)) cfg),
      pv_BuildAPI = (\<lambda>_. Some (ErrLeaf ErrAPINotSupported None))\<rparr>"

subsection \<open>Addresses of relays\<close>

lemma rev_digits:
  assumes "list_all is_digit n" and "p = [] \<or> \<not> is_digit (last p)"
  shows "takeWhile is_digit (rev (p @ n)) = rev n" and "dropWhile is_digit (rev (p @ n)) = rev p"
proof -
  have all: "\<forall>x \<in> set (rev n). is_digit x" using assms(1) by (simp add: list_all_iff)
  have "takeWhile is_digit (rev p) = [] \<and> dropWhile is_digit (rev p) = rev p"
    using assms(2) by (cases p rule: rev_cases) auto
  then show "takeWhile is_digit (rev (p @ n)) = rev n" "dropWhile is_digit (rev (p @ n)) = rev p"
    using takeWhile_append2 [of "rev n" is_digit "rev p"] dropWhile_append2 [of "rev n" is_digit "rev p"] all
    by simp_all
qed

lemma digits_split:
  assumes "p @ n = q @ m" and "list_all is_digit n" and "list_all is_digit m"
    and "p = [] \<or> \<not> is_digit (last p)" and "q = [] \<or> \<not> is_digit (last q)"
  shows "n = m"
proof -
  have "rev n = rev m"
    using rev_digits(1) [OF assms(2,4)] rev_digits(1) [OF assms(3,5)] assms(1) by metis
  then show ?thesis by simp
qed

lemma not_digit_minus [simp]: "\<not> is_digit (CHR ''-'')"
  by (simp add: is_digit_def digit_val_def)

text \<open>A relay name: some text of one line, \<open>-wg-\<close>, digits.\<close>

definition relay_name :: "string \<Rightarrow> string \<Rightarrow> string \<Rightarrow> bool" where
  "relay_name h p n \<longleftrightarrow>
     h = p @ ''-wg-'' @ n \<and> p \<noteq> [] \<and> CHR 0x0A \<notin> set p \<and> n \<noteq> [] \<and> list_all is_digit n"

lemma hostnameRe_iff: "hostnameRe h = Some (a, n) \<longleftrightarrow> (\<exists>p. a = p @ ''-wg'' \<and> relay_name h p n)"
proof
  assume r: "hostnameRe h = Some (a, n)"
  define ds where "ds = takeWhile is_digit (rev h)"
  define rest where "rest = dropWhile is_digit (rev h)"
  obtain q where q: "rest = ''-gw-'' @ q" "a = rev q @ ''-wg''" "n = rev ds" "ds \<noteq> []" "q \<noteq> []" "CHR 0x0A \<notin> set q"
    using r by (auto simp: hostnameRe_def Let_def has_prefix_iff ds_def rest_def split: if_splits)
  have "rev h = ds @ rest" by (simp add: ds_def rest_def)
  then have "h = rev rest @ rev ds" by (metis rev_append rev_rev_ident)
  moreover have "list_all is_digit (rev ds)"
    by (auto simp: ds_def list_all_iff dest: set_takeWhileD)
  ultimately show "\<exists>p. a = p @ ''-wg'' \<and> relay_name h p n"
    using q by (intro exI [of _ "rev q"]) (simp add: relay_name_def)
next
  assume "\<exists>p. a = p @ ''-wg'' \<and> relay_name h p n"
  then obtain p where p: "a = p @ ''-wg''" "h = (p @ ''-wg-'') @ n" "p \<noteq> []" "CHR 0x0A \<notin> set p" "n \<noteq> []" "list_all is_digit n"
    by (auto simp: relay_name_def)
  have "last (p @ ''-wg-'') = CHR ''-''" by simp
  then have "takeWhile is_digit (rev h) = rev n" "dropWhile is_digit (rev h) = ''-gw-'' @ rev p"
    using rev_digits [OF p(6), of "p @ ''-wg-''"] by (simp_all add: p(2))
  then show "hostnameRe h = Some (a, n)"
    using p by (simp add: hostnameRe_def)
qed

lemma relay_name_unique: "relay_name h p n \<Longrightarrow> relay_name h p' n' \<Longrightarrow> p = p' \<and> n = n'"
  using hostnameRe_iff [of h] by (metis append_same_eq option.inject prod.inject)

lemma SOCKS5Address_Inr:
  "SOCKS5Address h = Inr addr \<longleftrightarrow>
     (\<exists>p n. relay_name h p n \<and> addr = p @ ''-wg-socks5-'' @ n @ ''.relays.mullvad.net:1080'')"
proof -
  have i: "itoa SOCKS5Port = ''1080''" by (simp add: SOCKS5Port_def) code_simp
  show ?thesis
  proof (cases "hostnameRe h")
    case None
    then have "\<not> relay_name h p n" for p n using hostnameRe_iff [of h "p @ ''-wg''" n] by auto
    with None show ?thesis by (simp add: SOCKS5Address_def)
  next
    case (Some x)
    then obtain a n where x: "hostnameRe h = Some (a, n)" by (cases x) auto
    then obtain p where p: "a = p @ ''-wg''" "relay_name h p n" using hostnameRe_iff by blast
    then have "(relay_name h p' n' \<longleftrightarrow> p' = p \<and> n' = n)" for p' n' using relay_name_unique by blast
    then show ?thesis
      using p(1) x i by (auto simp: SOCKS5Address_def SOCKS5DomainSuffix_def)
  qed
qed

text \<open>
  Exactly the names \<open>p-wg-n\<close> with a number \<open>n\<close> have an address; it is the name with \<open>socks5-\<close> spliced in before the
  number, under the vendor's domain, at port 1080; two relays never share an address; and where the name is
  free of colons and brackets the address splits back into that host and port.
\<close>

theorem SOCKS5Address_exact:
  "(is_ok (SOCKS5Address h) \<longleftrightarrow> (\<exists>p n. relay_name h p n)) \<and>
   (\<forall>p n. relay_name h p n \<longrightarrow> SOCKS5Address h = Inr (p @ ''-wg-socks5-'' @ n @ ''.relays.mullvad.net:1080'')) \<and>
   (\<forall>addr h'. SOCKS5Address h = Inr addr \<and> SOCKS5Address h' = Inr addr \<longrightarrow> h' = h) \<and>
   (\<forall>p n. relay_name h p n \<and> plain_port p \<longrightarrow>
      split_host_port (projr (SOCKS5Address h)) = Inr (p @ ''-wg-socks5-'' @ n @ ''.relays.mullvad.net'', ''1080''))"
proof (intro conjI allI impI)
  show "is_ok (SOCKS5Address h) \<longleftrightarrow> (\<exists>p n. relay_name h p n)"
    using SOCKS5Address_Inr [of h] by (metis Inl_Inr_False sum.collapse(1) sum.disc(2) sum_eq_Inr_projr)
  show addr: "SOCKS5Address h = Inr (p @ ''-wg-socks5-'' @ n @ ''.relays.mullvad.net:1080'')" if "relay_name h p n" for p n
    using that SOCKS5Address_Inr by blast
  show "h' = h" if "SOCKS5Address h = Inr addr \<and> SOCKS5Address h' = Inr addr" for addr h'
  proof -
    obtain p n q m where a: "relay_name h p n" "addr = p @ ''-wg-socks5-'' @ n @ ''.relays.mullvad.net:1080''"
        "relay_name h' q m" "addr = q @ ''-wg-socks5-'' @ m @ ''.relays.mullvad.net:1080''"
      using \<open>SOCKS5Address h = Inr addr \<and> SOCKS5Address h' = Inr addr\<close> SOCKS5Address_Inr by blast
    have eq: "(p @ ''-wg-socks5-'') @ n = (q @ ''-wg-socks5-'') @ m" using a(2,4) by simp
    have d: "list_all is_digit n" "list_all is_digit m" using a(1,3) by (simp_all add: relay_name_def)
    have "n = m" by (rule digits_split [OF eq d]) simp_all
    with eq a(1,3) show ?thesis by (simp add: relay_name_def)
  qed
  show "split_host_port (projr (SOCKS5Address h)) = Inr (p @ ''-wg-socks5-'' @ n @ ''.relays.mullvad.net'', ''1080'')"
    if "relay_name h p n \<and> plain_port p" for p n
  proof -
    have n: "plain_port n"
      using that is_digit_not_special by (auto simp: relay_name_def plain_port_def list_all_iff)
    let ?host = "p @ ''-wg-socks5-'' @ n @ ''.relays.mullvad.net''"
    have "plain_host ?host" "CHR '':'' \<notin> set ?host"
      using that n by (simp_all add: plain_port_def plain_host_def)
    moreover have "plain_port ''1080''" by (simp add: plain_port_def)
    ultimately have "split_host_port (?host @ '':'' @ ''1080'') = Inr (?host, ''1080'')"
      using split_join_host_port [of ?host "''1080''"] by (simp add: join_host_port_def)
    then show ?thesis using addr [OF conjunct1 [OF that]] by simp
  qed
qed

lemma SOCKS5Address_ok:
  assumes "SOCKS5Address h = Inr addr" and "plain_port h"
  shows "upstream_addr_ok addr"
proof -
  obtain p n where p: "relay_name h p n" "addr = p @ ''-wg-socks5-'' @ n @ ''.relays.mullvad.net:1080''"
    using assms(1) SOCKS5Address_Inr by blast
  then have pn: "plain_port p" "plain_port n" using assms(2) by (auto simp: relay_name_def plain_port_def)
  let ?host = "p @ ''-wg-socks5-'' @ n @ ''.relays.mullvad.net''"
  have i: "itoa 1080 = ''1080''" by code_simp
  have "plain_host ?host" "CHR '':'' \<notin> set ?host"
    using pn by (simp_all add: plain_port_def plain_host_def)
  moreover have "list_ex (\<lambda>c. \<not> is_space c) ?host" by (simp add: is_space_def)
  ultimately have "upstream_addr_ok (?host @ '':'' @ ''1080'')"
    using upstream_addr_ok_join(2) [of ?host 1080] by (simp add: join_host_port_def i)
  then show ?thesis by (simp add: p(2))
qed

subsection \<open>The snapshot\<close>

definition relay_wanted :: "mv_config \<Rightarrow> relay \<Rightarrow> bool" where
  "relay_wanted cfg r \<longleftrightarrow>
     (mx_include_inactive cfg \<or> ry_active r) \<and>
     (mx_countries cfg = [] \<or> to_lower (ry_country r) \<in> (to_lower \<circ> trim_space) ` set (mx_countries cfg))"

lemma mv_upstream_Some:
  "mv_upstream cfg (buildCountryFilter (mx_countries cfg)) r = Some u \<longleftrightarrow>
     relay_wanted cfg r \<and>
     (\<exists>addr. SOCKS5Address (ry_hostname r) = Inr addr \<and>
        u = \<lparr>uc_id = mx_id_prefix cfg @ ''-'' @ ry_hostname r, uc_kind = KindSOCKS5, uc_addr = addr,
             uc_priority = Some (mx_priority cfg), uc_username = [], uc_password = []\<rparr>)"
  by (auto simp: mv_upstream_def relay_wanted_def buildCountryFilter_def split: sum.splits if_splits)

lemma mv_transform_mem:
  "u \<in> set (mv_transform cfg relays) \<longleftrightarrow>
     (\<exists>r addr. r \<in> set relays \<and> relay_wanted cfg r \<and> SOCKS5Address (ry_hostname r) = Inr addr \<and>
        u = \<lparr>uc_id = mx_id_prefix cfg @ ''-'' @ ry_hostname r, uc_kind = KindSOCKS5, uc_addr = addr,
             uc_priority = Some (mx_priority cfg), uc_username = [], uc_password = []\<rparr>)"
  unfolding mv_transform_def expansion_set mv_upstream_Some by blast

lemma mv_transform_sorted: "sorted (map uc_id (mv_transform cfg relays))"
  unfolding mv_transform_def by (rule expansion_sorted)

lemma mv_transform_distinct:
  "distinct (map ry_hostname relays) \<Longrightarrow> distinct (map uc_id (mv_transform cfg relays))"
  unfolding mv_transform_def
  by (rule expansion_distinct [where pre = "mx_id_prefix cfg @ ''-''" and k = ry_hostname])
    (auto simp: mv_upstream_Some)

text \<open>
  The expansion of a relay list is sorted by id and holds exactly one SOCKS5 upstream for every relay that is active (unless
  inactive ones are wanted), in a listed country whatever the case and padding, and named like a relay; its
  id is the prefixed relay name, so distinct names give distinct ids, and names free of colons
  and brackets give upstreams that the configuration's own checks would accept.
\<close>

theorem mv_transform_exact:
  "sorted (map uc_id (mv_transform cfg relays)) \<and>
   (\<forall>u. u \<in> set (mv_transform cfg relays) \<longleftrightarrow>
      (\<exists>r addr. r \<in> set relays \<and> relay_wanted cfg r \<and> SOCKS5Address (ry_hostname r) = Inr addr \<and>
         u = \<lparr>uc_id = mx_id_prefix cfg @ ''-'' @ ry_hostname r, uc_kind = KindSOCKS5, uc_addr = addr,
              uc_priority = Some (mx_priority cfg), uc_username = [], uc_password = []\<rparr>)) \<and>
   (distinct (map ry_hostname relays) \<longrightarrow> distinct (map uc_id (mv_transform cfg relays))) \<and>
   (\<forall>u \<in> set (mv_transform cfg relays).
      (\<forall>r \<in> set relays. plain_port (ry_hostname r)) \<longrightarrow> wf_upstream u)"
proof (intro conjI ballI impI)
  show "wf_upstream u" if "u \<in> set (mv_transform cfg relays)" "\<forall>r \<in> set relays. plain_port (ry_hostname r)" for u
    using that SOCKS5Address_ok by (auto simp: mv_transform_mem wf_upstream_def)
qed (use mv_transform_mem mv_transform_distinct mv_transform_sorted in blast)+

subsection \<open>The client and its cache\<close>

definition mv_live :: "relay_decode \<Rightarrow> fetch_env \<Rightarrow> goerr + relay list" where
  "mv_live decode env = (case fetchOnline (fx_answer env) of Inl e \<Rightarrow> Inl e | Inr data \<Rightarrow> parseResponse decode data)"

lemma Fetch_cases:
  "Fetch decode env cache m =
     (case mv_live decode env of
        Inr relays \<Rightarrow>
          (Inr relays, case cache of None \<Rightarrow> m
             | Some path \<Rightarrow> last (snd (cache_Write (fx_write env) path (projr (fetchOnline (fx_answer env))) m)))
      | Inl e \<Rightarrow> (case tryCacheFallback decode (fx_read env) cache m of Some cached \<Rightarrow> (Inr cached, m) | None \<Rightarrow> (Inl e, m)))"
  by (auto simp: Fetch_def mv_live_def split: sum.splits option.splits)

interpretation mullvad: cached_client "mv_live decode" "\<lambda>_. True" "\<lambda>env. tryCacheFallback decode (fx_read env) (Some path)"
    "\<lambda>env. Fetch decode env (Some path)" "\<lambda>env _. write_ok (fx_write env) path" "\<lambda>env. fx_read env = None"
  for decode path
proof
  fix env m
  show "fst (Fetch decode env (Some path) m) =
      with_fallback (\<lambda>_. True) (mv_live decode env) (tryCacheFallback decode (fx_read env) (Some path) m)"
    by (auto simp: Fetch_cases with_fallback_def split: sum.splits option.splits)
  show "isl (mv_live decode env) \<Longrightarrow> snd (Fetch decode env (Some path) m) = m"
    by (auto simp: Fetch_cases split: sum.splits option.splits)
  fix x env'
  assume a: "mv_live decode env = Inr x" "write_ok (fx_write env) path" "fx_read env' = None"
  obtain data where d: "fetchOnline (fx_answer env) = Inr data" "parseResponse decode data = Inr x"
    using a(1) by (auto simp: mv_live_def split: sum.splits)
  then show "tryCacheFallback decode (fx_read env') (Some path) (snd (Fetch decode env (Some path) m)) = Some x"
    using a cache_Write_ok [OF a(2)] by (simp add: Fetch_cases tryCacheFallback_def cache_Read_def write_ok_def)
qed

text \<open>
  After one fetch that was stored, fetches that fail in whatever way (no answer, a wrong status, an oversized
  or undecodable body) with a readable cache all return that relay list.
\<close>

theorem relays_outlive_outage:
  assumes "mv_live decode env0 = Inr relays" and "write_ok (fx_write env0) path"
    and "\<forall>env \<in> set envs. fx_read env = None \<and> isl (mv_live decode env)"
  shows "fetch_run (\<lambda>env. Fetch decode env (Some path)) (env0 # envs) m = replicate (Suc (length envs)) (Inr relays)"
  by (rule mullvad.outage_serves_last [OF assms(1,2)]) (use assms(3) in \<open>auto simp: isl_def\<close>)

lemma parseResponse_sorted: "parseResponse decode data = Inr rs \<Longrightarrow> sorted (map ry_hostname rs)"
  by (auto simp: parseResponse_def slice_sort_key split: sum.splits)

end
