(* ===== verification/WebshareApi.thy ===== *)
theory WebshareApi
  imports VendorCache GoText
begin

text \<open>
  The Webshare client, \<open>internal/upstream/webshare/api.go\<close> and \<open>cache.go\<close>: one request with its retry after a
  token rotation, the paginated listing, the status probe, and the fall-back to the cache. The HTTP client, the
  JSON decoder, \<open>url.Parse\<close> and the token file are parameters, indexed by the number of requests sent so far.
\<close>

subsection \<open>Data\<close>

text \<open>\<open>net/url\<close>'s \<open>Error\<close> implements \<open>net.Error\<close>: its \<open>Timeout\<close> asks the error it wraps.\<close>

definition url_error :: "string \<Rightarrow> goerr \<Rightarrow> goerr" where
  "url_error op e =
     ErrWrap op (Some (case e of ErrLeaf _ ne \<Rightarrow> ne = Some True | ErrWrap _ ne _ \<Rightarrow> ne = Some True | ErrJoin _ \<Rightarrow> False)) e"

text \<open>\<open>errors.As\<close> for \<open>*HTTPStatusError\<close>: its status code.\<close>

fun as_status_error :: "goerr \<Rightarrow> int option" and as_status_error_list :: "goerr list \<Rightarrow> int option" where
  "as_status_error (ErrLeaf s _) = (case s of HTTPStatusError code \<Rightarrow> Some code | _ \<Rightarrow> None)"
| "as_status_error (ErrWrap _ _ e) = as_status_error e"
| "as_status_error (ErrJoin es) = as_status_error_list es"
| "as_status_error_list [] = None"
| "as_status_error_list (e # es) =
     (case as_status_error e of Some n \<Rightarrow> Some n | None \<Rightarrow> as_status_error_list es)"

record proxy =
  px_id :: string
  px_username :: string
  px_password :: string
  px_address :: string
  px_port :: int
  px_valid :: bool
  px_last_verification :: time
  px_country_code :: string
  px_city_name :: string
  px_created_at :: time

definition HostPort :: "proxy \<Rightarrow> string" where
  "HostPort p = join_host_port (px_address p) (itoa (px_port p))"

record list_options =
  lo_mode :: string
  lo_plan_id :: string
  lo_country_codes :: "string list"
  lo_search :: string
  lo_page_size :: int

record proxy_list_status =
  st_state :: string
  st_countries :: "(string, int) fmap"
  st_unallocated_countries :: "(string, int) fmap"
  st_username :: string
  st_password :: string
  st_is_proxy_used :: bool

record profile =
  pf_id :: int
  pf_email :: string
  pf_raw :: string

text \<open>A request, as the HTTP client gets it.\<close>

record ws_request =
  wq_method :: string
  wq_url :: string
  wq_token :: string

text \<open>The client, with the requests it sent; an unset cache is None.\<close>

record ws_client =
  wc_base :: string
  wc_token :: string
  wc_token_file :: string
  wc_cache :: "string option"
  wc_sent :: "ws_request list"

text \<open>
  The surroundings at the \<open>n\<close>th request: the answer of \<open>httpClient.Do\<close>, the token another goroutine installs while
  the request is out, what the token file holds afterwards; and the decoders.
\<close>

record ws_env =
  we_new_request :: "string \<Rightarrow> goerr option"
  we_do :: "nat \<Rightarrow> ws_request \<Rightarrow> goerr + int \<times> body"
  we_other :: "nat \<Rightarrow> string option"
  we_file :: "nat \<Rightarrow> string \<Rightarrow> goerr + string"
  we_page :: "string \<Rightarrow> goerr + string \<times> proxy list"   \<comment> \<open>\<open>next\<close> and \<open>results\<close>\<close>
  we_status :: "string \<Rightarrow> goerr + proxy_list_status"
  we_profile :: "string \<Rightarrow> goerr + int \<times> string"
  we_parse_url :: "string \<Rightarrow> goerr + string \<times> string"    \<comment> \<open>path and raw query\<close>

definition ws_BaseURL :: string where "ws_BaseURL = ''https://proxy.webshare.io/api/v2''"
definition DefaultPageSize :: int where "DefaultPageSize = 100"
definition maxResponsePages :: nat where "maxResponsePages = 500"
definition maxBodyBytes :: int where "maxBodyBytes = 4 * 1024 * 1024"

definition ws_NewClient :: ws_client where
  "ws_NewClient = \<lparr>wc_base = ws_BaseURL, wc_token = [], wc_token_file = [], wc_cache = None, wc_sent = []\<rparr>"

subsection \<open>Query strings\<close>

definition hex_digit :: "nat \<Rightarrow> char" where
  "hex_digit d = (if d < 10 then char_of (48 + d) else char_of (55 + d))"

definition unreserved :: "char \<Rightarrow> bool" where
  "unreserved c \<longleftrightarrow> is_digit c \<or> is_upper (upper_char c) \<or> c \<in> set ''-_.~''"

definition QueryEscape :: "string \<Rightarrow> string" where
  "QueryEscape s =
     concat (map (\<lambda>c. if unreserved c then [c] else if c = CHR '' '' then ''+''
       else [CHR ''%'', hex_digit ((of_char c :: nat) div 16), hex_digit ((of_char c :: nat) mod 16)]) s)"

fun join_with :: "string \<Rightarrow> string list \<Rightarrow> string" where
  "join_with sep [] = []"
| "join_with sep [s] = s"
| "join_with sep (s # ss) = s @ sep @ join_with sep ss"

text \<open>\<open>url.Values\<close> with one value per key, and \<open>Encode\<close>, which sorts by key.\<close>

definition values_encode :: "(string, string) fmap \<Rightarrow> string" where
  "values_encode q =
     join_with ''&''
       (map (\<lambda>k. QueryEscape k @ ''='' @ QueryEscape (the (fmlookup q k))) (sorted_list_of_fset (fmdom q)))"

definition list_query :: "list_options \<Rightarrow> (string, string) fmap" where
  "list_query opts =
     (let mode = (if lo_mode opts = [] then ''direct'' else lo_mode opts);
          pageSize = (if lo_page_size opts \<le> 0 then DefaultPageSize else lo_page_size opts);
          q = fmupd ''page_size'' (itoa pageSize) (fmupd ''mode'' mode fmempty);
          q = (if mode = ''direct'' then fmupd ''valid'' ''true'' q else q);
          q = (if lo_plan_id opts \<noteq> [] then fmupd ''plan_id'' (lo_plan_id opts) q else q);
          q = (if lo_country_codes opts \<noteq> []
               then fmupd ''country_code__in'' (join_with '','' (map (map upper_char) (lo_country_codes opts))) q else q)
      in if lo_search opts \<noteq> [] \<and> mode = ''direct'' then fmupd ''search'' (lo_search opts) q else q)"

subsection \<open>One request\<close>

text \<open>\<open>strings.Fields\<close>.\<close>

fun split_space :: "string \<Rightarrow> string list" where
  "split_space [] = [[]]"
| "split_space (c # cs) =
     (if is_space c then [] # split_space cs
      else (case split_space cs of [] \<Rightarrow> [[c]] | w # ws \<Rightarrow> (c # w) # ws))"

definition fields :: "string \<Rightarrow> string list" where
  "fields s = filter (\<lambda>w. w \<noteq> []) (split_space s)"

definition LoadTokenFile :: "(string \<Rightarrow> goerr + string) \<Rightarrow> string \<Rightarrow> goerr + string" where
  "LoadTokenFile file path =
     (if \<not> is_abs path then Inl (errorf ''webshare: api_token_file must be absolute'')
      else (case file path of
              Inl e \<Rightarrow> Inl (errorf_w ''webshare: read api_token_file'' e)
            | Inr data \<Rightarrow>
                (let tok = trim_space data
                 in if tok = [] then Inl (errorf ''webshare: api_token_file is empty'')
                    else if length (fields tok) \<noteq> 1
                    then Inl (errorf ''webshare: api_token_file must contain exactly one token'')
                    else Inr tok)))"

definition base_or_default :: "ws_client \<Rightarrow> string" where
  "base_or_default c = (if wc_base c = [] then ws_BaseURL else wc_base c)"

definition baseURLForV3 :: "ws_client \<Rightarrow> string" where
  "baseURLForV3 c =
     (let base = trim_right (\<lambda>x. x = CHR ''/'') (base_or_default c)
      in if has_suffix base ''/api/v2'' then trim_suffix base ''/api/v2'' @ ''/api/v3'' else base)"

definition snippet :: "string \<Rightarrow> string" where
  "snippet b = (if length b \<le> 256 then b else take 256 b @ ''...'')"

text \<open>\<open>HTTPStatusError\<close> keeps method, path and a snippet for its text, and the code that \<open>errors.As\<close> reads.\<close>

definition http_status_error :: "string \<Rightarrow> string \<Rightarrow> int \<Rightarrow> string \<Rightarrow> goerr" where
  "http_status_error meth path code data =
     ErrWrap (''webshare: '' @ meth @ '' '' @ path @ '': unexpected status: '' @ snippet data) None
       (ErrLeaf (HTTPStatusError code) None)"

definition status_result :: "string \<Rightarrow> string \<Rightarrow> int \<Rightarrow> string \<Rightarrow> goerr + string" where
  "status_result meth path status data =
     (if status = 200 \<or> status = 201 then Inr data
      else if status = 204 then Inr []
      else if status = 401 then Inl (ErrLeaf ErrUnauthorized None)
      else if status = 403 then Inl (ErrLeaf ErrForbidden None)
      else if status = 429 then Inl (ErrLeaf ErrRateLimited None)
      else Inl (http_status_error meth path status data))"

text \<open>What a request comes to: the transport's error, or the bounded body judged by the status.\<close>

definition response_result :: "string \<Rightarrow> string \<Rightarrow> goerr + int \<times> body \<Rightarrow> goerr + string" where
  "response_result meth path answer =
     (case answer of
        Inl e \<Rightarrow> Inl (errorf_w ''webshare: request'' (url_error meth e))
      | Inr (status, b) \<Rightarrow>
          (case read_capped maxBodyBytes b of
             Inl e \<Rightarrow> Inl e
           | Inr data \<Rightarrow> status_result meth path status data))"

definition send ::
    "ws_env \<Rightarrow> string \<Rightarrow> string \<Rightarrow> string \<Rightarrow> bool \<Rightarrow> ws_client \<Rightarrow> (goerr + string) \<times> ws_client" where
  "send env meth path token useV3 c =
     (let base = (if useV3 then baseURLForV3 c else base_or_default c); n = length (wc_sent c);
          req = \<lparr>wq_method = meth, wq_url = base @ path, wq_token = token\<rparr>
      in case we_new_request env (base @ path) of
           Some e \<Rightarrow> (Inl (url_error ''parse'' e), c)
         | None \<Rightarrow>
             (response_result meth path (we_do env n req),
              c\<lparr>wc_sent := wc_sent c @ [req],
                 wc_token := (case we_other env n of None \<Rightarrow> wc_token c | Some t \<Rightarrow> t)\<rparr>))"

definition snapshotToken :: "ws_client \<Rightarrow> string" where
  "snapshotToken c = wc_token c"

definition reloadIfRotated :: "ws_env \<Rightarrow> string \<Rightarrow> ws_client \<Rightarrow> bool \<times> ws_client" where
  "reloadIfRotated env usedToken c =
     (if wc_token_file c = [] then (False, c)
      else if wc_token c \<noteq> usedToken then (True, c)
      else (case LoadTokenFile (we_file env (length (wc_sent c))) (wc_token_file c) of
              Inl _ \<Rightarrow> (False, c)
            | Inr newTok \<Rightarrow> if newTok = wc_token c then (False, c) else (True, c\<lparr>wc_token := newTok\<rparr>)))"

text \<open>The flag says whether the request has a body.\<close>

definition requestWithRetry ::
    "ws_env \<Rightarrow> string \<Rightarrow> string \<Rightarrow> bool \<Rightarrow> bool \<Rightarrow> ws_client \<Rightarrow> (goerr + string) \<times> ws_client" where
  "requestWithRetry env meth path hasBody useV3 c =
     (let token = snapshotToken c
      in if token = [] then (Inl (errorf ''webshare: APIToken is empty''), c)
         else
           (let (r, c1) = send env meth path token useV3 c
            in case r of
                 Inr data \<Rightarrow> (Inr data, c1)
               | Inl err \<Rightarrow>
                   if \<not> errors_is err ErrUnauthorized then (Inl err, c1)
                   else
                     (let (rotated, c2) = reloadIfRotated env token c1
                      in if hasBody \<or> \<not> rotated then (Inl err, c2)
                         else send env meth path (snapshotToken c2) useV3 c2)))"

definition ws_do :: "ws_env \<Rightarrow> string \<Rightarrow> string \<Rightarrow> ws_client \<Rightarrow> (goerr + string) \<times> ws_client" where
  "ws_do env meth path c = requestWithRetry env meth path False False c"

definition ws_doV3 :: "ws_env \<Rightarrow> string \<Rightarrow> string \<Rightarrow> ws_client \<Rightarrow> (goerr + string) \<times> ws_client" where
  "ws_doV3 env meth path c = requestWithRetry env meth path False True c"

subsection \<open>The endpoints\<close>

definition Profile :: "ws_env \<Rightarrow> ws_client \<Rightarrow> (goerr + profile) \<times> ws_client" where
  "Profile env c =
     (case ws_do env ''GET'' ''/profile/'' c of
        (Inl e, c') \<Rightarrow> (Inl e, c')
      | (Inr body, c') \<Rightarrow>
          ((case we_profile env body of
              Inl e \<Rightarrow> Inl (errorf_w ''webshare: decode profile'' e)
            | Inr (uid, email) \<Rightarrow> Inr \<lparr>pf_id = uid, pf_email = email, pf_raw = body\<rparr>), c'))"

definition RefreshProxyList :: "ws_env \<Rightarrow> string \<Rightarrow> ws_client \<Rightarrow> goerr option \<times> ws_client" where
  "RefreshProxyList env planID c =
     (let plan = trim_space planID;
          path = ''/proxy/list/refresh/'' @ (if plan \<noteq> [] then ''?plan_id='' @ QueryEscape plan else [])
      in case ws_do env ''POST'' path c of (Inl e, c') \<Rightarrow> (Some e, c') | (Inr _, c') \<Rightarrow> (None, c'))"

definition FetchProxyListStatus :: "ws_env \<Rightarrow> string \<Rightarrow> ws_client \<Rightarrow> (goerr + proxy_list_status) \<times> ws_client" where
  "FetchProxyListStatus env planID c =
     (let plan = trim_space planID
      in if plan = [] then (Inl (errorf ''webshare: plan_id is required for this endpoint''), c)
         else (case ws_doV3 env ''GET'' (''/proxy/list/status?plan_id='' @ QueryEscape plan) c of
                 (Inl e, c') \<Rightarrow> (Inl e, c')
               | (Inr body, c') \<Rightarrow>
                   ((case we_status env body of
                       Inl e \<Rightarrow> Inl (errorf_w ''webshare: decode proxy list status'' e) | Inr s \<Rightarrow> Inr s), c')))"

definition apiPrefix :: string where "apiPrefix = ''/api/v2/''"

text \<open>The pages still allowed are the fuel of the walk; running out of them is the code's own error.\<close>

fun list_pages ::
    "ws_env \<Rightarrow> nat \<Rightarrow> string \<Rightarrow> proxy list \<Rightarrow> ws_client \<Rightarrow> (goerr + proxy list) \<times> ws_client" where
  "list_pages env 0 path all_px c = (Inl (errorf ''webshare: list exceeded the page limit''), c)"
| "list_pages env (Suc k) path all_px c =
     (case ws_do env ''GET'' path c of
        (Inl e, c') \<Rightarrow> (Inl (errorf_w ''webshare: list page'' e), c')
      | (Inr body, c') \<Rightarrow>
          (case we_page env body of
             Inl e \<Rightarrow> (Inl (errorf_w ''webshare: decode list page'' e), c')
           | Inr (next, results) \<Rightarrow>
               if next = [] then (Inr (all_px @ results), c')
               else
                 (case we_parse_url env next of
                    Inl e \<Rightarrow> (Inl (errorf_w ''webshare: parse next'' (url_error ''parse'' e)), c')
                  | Inr (p, rawq) \<Rightarrow>
                      if \<not> has_prefix p apiPrefix
                      then (Inl (errorf ''webshare: next path must be absolute and under /api/v2/''), c')
                      else list_pages env k
                             (''/'' @ drop (length apiPrefix) p @ (if rawq \<noteq> [] then ''?'' @ rawq else []))
                             (all_px @ results) c')))"

definition list_path :: "list_options \<Rightarrow> string" where
  "list_path opts = ''/proxy/list/?'' @ values_encode (list_query opts)"

definition listProxiesOnline :: "ws_env \<Rightarrow> list_options \<Rightarrow> ws_client \<Rightarrow> (goerr + proxy list) \<times> ws_client" where
  "listProxiesOnline env opts c =
     list_pages env maxResponsePages (list_path opts) [] c"

subsection \<open>The cache\<close>

definition ws_cache_Read :: "(string \<Rightarrow> goerr + proxy list) \<Rightarrow> goerr option \<Rightarrow> string \<Rightarrow> disk \<Rightarrow> goerr + proxy list" where
  "ws_cache_Read dec readErr path m =
     (case cache_Read readErr path m of
        Inl e \<Rightarrow> Inl e
      | Inr data \<Rightarrow> (case dec data of Inl e \<Rightarrow> Inl (errorf_w ''webshare: decode cached list'' e) | Inr ps \<Rightarrow> Inr ps))"

text \<open>The list is encoded after the directory is made and before the temporary file is.\<close>

definition ws_cache_Write ::
    "(proxy list \<Rightarrow> goerr + string) \<Rightarrow> cache_env \<Rightarrow> string \<Rightarrow> proxy list \<Rightarrow> disk \<Rightarrow> goerr option \<times> disk list" where
  "ws_cache_Write enc env path ps m =
     (if path = [] then (Some ErrNoCache, [m])
      else (case kw_mkdir env of Some e \<Rightarrow> (Some e, [m])
      | None \<Rightarrow> (case enc ps of Inl e \<Rightarrow> (Some e, [m]) | Inr body \<Rightarrow> cache_Write env path body m)))"

text \<open>The codec of the cache file and the outcomes of its file operations.\<close>

record ws_cache_env =
  cx_decode :: "string \<Rightarrow> goerr + proxy list"
  cx_encode :: "proxy list \<Rightarrow> goerr + string"
  cx_read :: "goerr option"
  cx_write :: cache_env

definition ws_tryCacheFallback :: "ws_cache_env \<Rightarrow> string option \<Rightarrow> disk \<Rightarrow> proxy list option" where
  "ws_tryCacheFallback kx cache m =
     (case cache of
        None \<Rightarrow> None
      | Some path \<Rightarrow> (case ws_cache_Read (cx_decode kx) (cx_read kx) path m of Inl _ \<Rightarrow> None | Inr ps \<Rightarrow> Some ps))"

definition cacheFallbackAllowed :: "goerr \<Rightarrow> bool" where
  "cacheFallbackAllowed err =
     (if errors_is err ErrUnauthorized then False
      else if errors_is err ErrForbidden then False
      else if errors_is err ErrRateLimited then False
      else (case as_status_error err of
              Some code \<Rightarrow> 500 \<le> code
            | None \<Rightarrow> as_net_error err \<noteq> None))"

definition ListProxies ::
    "ws_env \<Rightarrow> ws_cache_env \<Rightarrow> list_options \<Rightarrow> ws_client \<times> disk \<Rightarrow> (goerr + proxy list) \<times> ws_client \<times> disk" where
  "ListProxies env kx opts cm =
     (let (c, m) = cm in
      case listProxiesOnline env opts c of
        (Inr out, c') \<Rightarrow>
          (Inr out, c',
           case wc_cache c of None \<Rightarrow> m
           | Some path \<Rightarrow> last (snd (ws_cache_Write (cx_encode kx) (cx_write kx) path out m)))
      | (Inl fetchErr, c') \<Rightarrow>
          (case (if cacheFallbackAllowed fetchErr then ws_tryCacheFallback kx (wc_cache c) m else None) of
             Some cached \<Rightarrow> (Inr cached, c', m)
           | None \<Rightarrow> (Inl fetchErr, c', m)))"

subsection \<open>Requests and their retry\<close>

definition unauthorized :: "goerr + 'a \<Rightarrow> bool" where
  "unauthorized r \<longleftrightarrow> (\<exists>e. r = Inl e \<and> errors_is e ErrUnauthorized)"

lemma unauthorized_simps [simp]: "\<not> unauthorized (Inr x)" "unauthorized (Inl e) = errors_is e ErrUnauthorized"
  by (simp_all add: unauthorized_def)

text \<open>What a client keeps: everything but its token and its log.\<close>

definition same_client :: "ws_client \<Rightarrow> ws_client \<Rightarrow> bool" where
  "same_client c c' \<longleftrightarrow>
     wc_base c' = wc_base c \<and> wc_token_file c' = wc_token_file c \<and> wc_cache c' = wc_cache c"

lemma same_client_refl [simp]: "same_client c c"
  by (simp add: same_client_def)

lemma same_client_trans: "same_client c1 c2 \<Longrightarrow> same_client c2 c3 \<Longrightarrow> same_client c1 c3"
  by (simp add: same_client_def)

definition base_for :: "bool \<Rightarrow> ws_client \<Rightarrow> string" where
  "base_for useV3 c = (if useV3 then baseURLForV3 c else base_or_default c)"

lemma base_for_same: "same_client c c' \<Longrightarrow> base_for v c' = base_for v c"
  by (simp add: same_client_def base_for_def baseURLForV3_def base_or_default_def)

lemma send_cases:
  assumes "send env meth path token v c = (r, c')"
  obtains (bad_url) e where "we_new_request env (base_for v c @ path) = Some e" "r = Inl (url_error ''parse'' e)" "c' = c"
  | (sent) req where "req = \<lparr>wq_method = meth, wq_url = base_for v c @ path, wq_token = token\<rparr>"
      "wc_sent c' = wc_sent c @ [req]" "r = response_result meth path (we_do env (length (wc_sent c)) req)"
      "same_client c c'"
      "wc_token c' = (case we_other env (length (wc_sent c)) of None \<Rightarrow> wc_token c | Some t \<Rightarrow> t)"
  using assms
  by (cases "we_new_request env (base_for v c @ path)")
    (auto simp: send_def Let_def same_client_def simp flip: base_for_def)

lemma LoadTokenFile_ok:
  assumes "LoadTokenFile file path = Inr tok"
  shows "tok \<noteq> []" and "\<exists>data. file path = Inr data \<and> tok = trim_space data"
  using assms by (auto simp: LoadTokenFile_def Let_def split: if_splits sum.splits)

lemma reload_rotated:
  assumes "reloadIfRotated env used c = (True, c')"
  shows "wc_token_file c \<noteq> []" and "wc_token c' \<noteq> used" and "same_client c c'" and "wc_sent c' = wc_sent c"
    and "wc_token c' \<noteq> wc_token c \<Longrightarrow>
           LoadTokenFile (we_file env (length (wc_sent c))) (wc_token_file c) = Inr (wc_token c')"
  using assms by (auto simp: reloadIfRotated_def same_client_def split: if_splits sum.splits)

lemma reload_not_rotated: "reloadIfRotated env used c = (False, c') \<Longrightarrow> c' = c"
  by (auto simp: reloadIfRotated_def split: if_splits sum.splits)

text \<open>How a request can go: not sent, sent once, or sent again with another token after a 401.\<close>

definition request_for :: "string \<Rightarrow> string \<Rightarrow> string \<Rightarrow> bool \<Rightarrow> ws_client \<Rightarrow> ws_request" where
  "request_for meth path token v c = \<lparr>wq_method = meth, wq_url = base_for v c @ path, wq_token = token\<rparr>"

lemma requestWithRetry_cases:
  assumes "requestWithRetry env meth path hasBody v c = (r, c')"
  obtains (unsent) "wc_sent c' = wc_sent c" "same_client c c'" "isl r"
      "wc_token c = [] \<or> we_new_request env (base_for v c @ path) \<noteq> None"
  | (once) a where "a = request_for meth path (wc_token c) v c" "wc_sent c' = wc_sent c @ [a]" "same_client c c'"
      "wc_token c \<noteq> []" "r = response_result meth path (we_do env (length (wc_sent c)) a)"
  | (twice) a b where "a = request_for meth path (wc_token c) v c" "b = request_for meth path (wq_token b) v c"
      "wc_sent c' = wc_sent c @ [a, b]" "same_client c c'" "\<not> hasBody" "wc_token c \<noteq> []" "wc_token_file c \<noteq> []"
      "unauthorized (response_result meth path (we_do env (length (wc_sent c)) a))" "wq_token b \<noteq> wq_token a"
      "we_other env (length (wc_sent c)) = Some (wq_token b) \<or>
         LoadTokenFile (we_file env (Suc (length (wc_sent c)))) (wc_token_file c) = Inr (wq_token b)"
      "r = response_result meth path (we_do env (Suc (length (wc_sent c))) b)"
proof (cases "wc_token c = []")
  case True
  with assms show ?thesis by (intro unsent) (auto simp: requestWithRetry_def snapshotToken_def)
next
  case tok: False
  obtain r1 c1 where s1: "send env meth path (wc_token c) v c = (r1, c1)" by force
  show ?thesis
    using s1
  proof (cases rule: send_cases)
    case (bad_url e)
    have "wc_sent c' = wc_sent c \<and> same_client c c' \<and> isl r"
    proof (cases "unauthorized r1")
      case False
      with assms tok s1 bad_url show ?thesis by (auto simp: requestWithRetry_def snapshotToken_def)
    next
      case True
      obtain rot c2 where rl: "reloadIfRotated env (wc_token c) c = (rot, c2)" by force
      have c2: "same_client c c2" "wc_sent c2 = wc_sent c"
        using rl reload_rotated(3,4) reload_not_rotated by (cases rot; fastforce)+
      have "send env meth path (snapshotToken c2) v c2 = (Inl (url_error ''parse'' e), c2)"
        using bad_url(1) base_for_same [OF c2(1), of v] by (simp add: send_def flip: base_for_def)
      with assms tok s1 bad_url True rl c2 show ?thesis
        by (auto simp: requestWithRetry_def snapshotToken_def split: if_splits)
    qed
    with unsent bad_url(1) show ?thesis by blast
  next
    case (sent a)
    show ?thesis
    proof (cases "unauthorized r1")
      case False
      then have "r = r1" "c' = c1"
        using assms tok s1 by (auto simp: requestWithRetry_def snapshotToken_def split: sum.splits)
      with once [of a] sent tok show ?thesis by (simp add: request_for_def)
    next
      case True
      then obtain err where e: "r1 = Inl err" "errors_is err ErrUnauthorized" by (auto simp: unauthorized_def)
      obtain rot c2 where rl: "reloadIfRotated env (wc_token c) c1 = (rot, c2)" by force
      show ?thesis
      proof (cases "hasBody \<or> \<not> rot")
        case True
        have c2: "same_client c1 c2" "wc_sent c2 = wc_sent c1"
          using rl reload_rotated(3,4) reload_not_rotated by (cases rot; fastforce)+
        have "r = r1" "c' = c2" using assms tok s1 e rl True by (simp_all add: requestWithRetry_def snapshotToken_def)
        with once [of a] sent tok c2 same_client_trans show ?thesis by (simp add: request_for_def)
      next
        case again: False
        then have rot: "rot" "\<not> hasBody" by auto
        note rl' = reload_rotated [OF rl [unfolded eqTrueI [OF rot(1)]]]
        have c2: "same_client c c2" using sent(4) rl'(3) same_client_trans by blast
        have s2: "send env meth path (wc_token c2) v c2 = (r, c')"
          using assms tok s1 e rl rot by (simp add: requestWithRetry_def snapshotToken_def)
        then show ?thesis
        proof (cases rule: send_cases)
          case (bad_url e2)
          have "we_new_request env (base_for v c @ path) = None"
            using s1 sent(2) by (auto simp: send_def Let_def simp flip: base_for_def split: option.splits)
          with bad_url base_for_same [OF c2, of v] show ?thesis by simp
        next
          case b: (sent b)
          have "we_other env (length (wc_sent c)) = Some (wc_token c2) \<or>
              LoadTokenFile (we_file env (Suc (length (wc_sent c)))) (wc_token_file c) = Inr (wc_token c2)"
            using rl'(2,5) sent(2,4,5) by (cases "wc_token c2 = wc_token c1") (auto simp: same_client_def split: option.splits)
          then show ?thesis
            using twice [of a b] sent b rl' c2 tok rot True base_for_same [OF c2, of v] same_client_trans
            by (simp add: request_for_def same_client_def)
        qed
      qed
    qed
  qed
qed

text \<open>
  C38: a request goes out at most twice, to one URL. The first copy carries the token in memory; the second
  follows only a 401, only without a request body and with a token file configured, and carries a token
  that differs from the refused one and that the file holds or another goroutine loaded. The result is that
  of the last copy.
\<close>

theorem requestWithRetry_once_more:
  assumes "requestWithRetry env meth path hasBody v c = (r, c')"
  shows "\<exists>rs. wc_sent c' = wc_sent c @ rs \<and> length rs \<le> 2 \<and>
           (\<forall>q \<in> set rs. wq_method q = meth \<and> wq_url q = base_for v c @ path) \<and>
           (rs = [] \<longrightarrow> isl r) \<and>
           (\<forall>a. rs = [a] \<longrightarrow> wq_token a = wc_token c \<and> wc_token c \<noteq> [] \<and>
              r = response_result meth path (we_do env (length (wc_sent c)) a)) \<and>
           (\<forall>a b. rs = [a, b] \<longrightarrow> wq_token a = wc_token c \<and> wc_token c \<noteq> [] \<and> \<not> hasBody \<and> wc_token_file c \<noteq> [] \<and>
              unauthorized (response_result meth path (we_do env (length (wc_sent c)) a)) \<and>
              wq_token b \<noteq> wq_token a \<and>
              (we_other env (length (wc_sent c)) = Some (wq_token b) \<or>
               LoadTokenFile (we_file env (Suc (length (wc_sent c)))) (wc_token_file c) = Inr (wq_token b)) \<and>
              r = response_result meth path (we_do env (Suc (length (wc_sent c))) b))"
  using assms
proof (cases rule: requestWithRetry_cases)
  case (once a)
  then show ?thesis by (intro exI [of _ "[a]"]) (simp add: request_for_def)
next
  case (twice a b)
  have "wq_url a = base_for v c @ path" "wq_url b = base_for v c @ path" "wq_method a = meth" "wq_method b = meth"
    "wq_token a = wc_token c"
    using twice(1,2) by (metis request_for_def ws_request.select_convs)+
  with twice show ?thesis by (intro exI [of _ "[a, b]"]) simp
qed simp

text \<open>The requests a call sends, as one fact for the walks.\<close>

definition sends :: "ws_client \<Rightarrow> ws_client \<Rightarrow> nat \<Rightarrow> (ws_request \<Rightarrow> bool) \<Rightarrow> bool" where
  "sends c c' n P \<longleftrightarrow>
     same_client c c' \<and> (\<exists>rs. wc_sent c' = wc_sent c @ rs \<and> length rs \<le> n \<and> (\<forall>q \<in> set rs. P q))"

lemma sends_refl [simp]: "sends c c n P"
  by (auto simp: sends_def)

lemma sends_trans:
  assumes "sends c1 c2 m P" and "sends c2 c3 n P"
  shows "sends c1 c3 (m + n) P"
proof -
  obtain rs qs where rs: "wc_sent c2 = wc_sent c1 @ rs" "length rs \<le> m" "\<forall>q \<in> set rs. P q"
    and qs: "wc_sent c3 = wc_sent c2 @ qs" "length qs \<le> n" "\<forall>q \<in> set qs. P q"
    using assms unfolding sends_def by blast
  then have "wc_sent c3 = wc_sent c1 @ rs @ qs \<and> length (rs @ qs) \<le> m + n \<and> (\<forall>q \<in> set (rs @ qs). P q)"
    by auto
  then show ?thesis using assms same_client_trans unfolding sends_def by blast
qed

lemma sends_mono: "sends c c' m P \<Longrightarrow> m \<le> n \<Longrightarrow> (\<And>q. P q \<Longrightarrow> Q q) \<Longrightarrow> sends c c' n Q"
  unfolding sends_def by (meson order_trans)

lemma requestWithRetry_sends:
  assumes "requestWithRetry env meth path hasBody v c = (r, c')"
  shows "sends c c' 2 (\<lambda>q. wq_method q = meth \<and> wq_url q = base_for v c @ path)"
  using assms
proof (cases rule: requestWithRetry_cases)
  case (once a)
  then show ?thesis unfolding sends_def by (intro conjI exI [of _ "[a]"]) (simp_all add: request_for_def)
next
  case (twice a b)
  have "wq_url a = base_for v c @ path" "wq_url b = base_for v c @ path" "wq_method a = meth" "wq_method b = meth"
    using twice(1,2) by (metis request_for_def ws_request.select_convs)+
  with twice show ?thesis unfolding sends_def by (intro conjI exI [of _ "[a, b]"]) simp_all
qed (simp add: sends_def)

lemma ws_do_sends:
  "ws_do env meth path c = (r, c') \<Longrightarrow> sends c c' 2 (\<lambda>q. wq_method q = meth \<and> wq_url q = base_or_default c @ path)"
  using requestWithRetry_sends [of env meth path False False c r c'] by (simp add: ws_do_def base_for_def)

lemma base_or_default_same: "same_client c c' \<Longrightarrow> base_or_default c' = base_or_default c"
  by (simp add: same_client_def base_or_default_def)

subsection \<open>The paginated listing\<close>

definition listing_request :: "ws_client \<Rightarrow> ws_request \<Rightarrow> bool" where
  "listing_request c q \<longleftrightarrow> wq_method q = ''GET'' \<and> has_prefix (wq_url q) (base_or_default c @ ''/'')"

lemma list_pages_sends:
  assumes "list_pages env k path acc c = (r, c')" and "has_prefix path ''/''"
  shows "sends c c' (2 * k) (listing_request c)"
  using assms
proof (induction env k path acc c arbitrary: r c' rule: list_pages.induct)
  case (2 env k path acc c)
  obtain r1 c1 where d: "ws_do env ''GET'' path c = (r1, c1)" by force
  have "has_prefix (base_or_default c @ path) (base_or_default c @ ''/'')"
    using 2(3) by (auto simp: has_prefix_iff)
  then have s1: "sends c c1 2 (listing_request c)"
    by (intro sends_mono [OF ws_do_sends [OF d]]) (auto simp: listing_request_def)
  then have "same_client c c1" by (simp add: sends_def)
  then have eq: "listing_request c1 = listing_request c"
    by (auto simp: listing_request_def base_or_default_same)
  show ?case
  proof (cases "c' = c1")
    case True
    with s1 show ?thesis by (auto intro: sends_mono)
  next
    case False
    then obtain body nxt results p rawq where n: "r1 = Inr body" "we_page env body = Inr (nxt, results)" "nxt \<noteq> []"
        "we_parse_url env nxt = Inr (p, rawq)" "has_prefix p apiPrefix"
      using 2(2) d by (auto split: sum.splits if_splits)
    note IH = 2(1) [OF d [symmetric] n(1,2) refl n(3,4) refl]
    have "sends c1 c' (2 * k) (listing_request c)"
      using IH 2(2) d n by (simp add: eq)
    with sends_trans [OF s1] show ?thesis by simp
  qed
qed simp

text \<open>The pages of a complete walk: each has a next cursor but the last, and the list is their concatenation.\<close>

definition complete_walk :: "ws_env \<Rightarrow> nat \<Rightarrow> (string \<times> proxy list) list \<Rightarrow> bool" where
  "complete_walk env k pages \<longleftrightarrow>
     pages \<noteq> [] \<and> length pages \<le> k \<and> fst (last pages) = [] \<and>
     (\<forall>pg \<in> set (butlast pages). fst pg \<noteq> [] \<and>
        (\<exists>p rawq. we_parse_url env (fst pg) = Inr (p, rawq) \<and> has_prefix p apiPrefix)) \<and>
     (\<forall>pg \<in> set pages. \<exists>body. we_page env body = Inr pg)"

lemma complete_walk_Cons:
  assumes "complete_walk env k pages" and "fst pg \<noteq> []" and "we_page env body = Inr pg"
    and "we_parse_url env (fst pg) = Inr (p, rawq)" and "has_prefix p apiPrefix"
  shows "complete_walk env (Suc k) (pg # pages)"
  using assms by (auto simp: complete_walk_def)

lemma list_pages_ok:
  assumes "list_pages env k path acc c = (Inr all_px, c')"
  shows "\<exists>pages. complete_walk env k pages \<and> all_px = acc @ concat (map snd pages)"
  using assms
proof (induction env k path acc c arbitrary: c' rule: list_pages.induct)
  case (2 env k path acc c)
  obtain body c1 where d: "ws_do env ''GET'' path c = (Inr body, c1)"
    using 2(2) by (auto split: sum.splits prod.splits)
  obtain nxt results where pg: "we_page env body = Inr (nxt, results)"
    using 2(2) d by (auto split: sum.splits)
  show ?case
  proof (cases "nxt = []")
    case True
    then have "complete_walk env (Suc k) [(nxt, results)] \<and> all_px = acc @ concat (map snd [(nxt, results)])"
      using 2(2) d pg by (auto simp: complete_walk_def)
    then show ?thesis by blast
  next
    case False
    then obtain p rawq where n: "we_parse_url env nxt = Inr (p, rawq)" "has_prefix p apiPrefix"
      using 2(2) d pg by (auto split: sum.splits if_splits)
    note IH = 2(1) [OF d [symmetric] refl pg refl False n(1) refl]
    obtain pages where "complete_walk env k pages" "all_px = (acc @ results) @ concat (map snd pages)"
      using IH 2(2) d pg False n by auto
    then have "complete_walk env (Suc k) ((nxt, results) # pages) \<and>
        all_px = acc @ concat (map snd ((nxt, results) # pages))"
      using complete_walk_Cons [of env k pages "(nxt, results)"] False pg n by simp
    then show ?thesis by blast
  qed
qed simp

text \<open>
  However the vendor answers, a listing sends at most 1000 requests, all of them GETs under the configured
  base URL, and when it succeeds its list is the concatenation, in order, of at most 500 decoded pages of
  which exactly the last has no next cursor.
\<close>

theorem listProxiesOnline_walk:
  assumes "listProxiesOnline env opts c = (r, c')"
  shows "(\<exists>rs. wc_sent c' = wc_sent c @ rs \<and> length rs \<le> 1000 \<and>
            (\<forall>q \<in> set rs. wq_method q = ''GET'' \<and> has_prefix (wq_url q) (base_or_default c @ ''/''))) \<and>
         (\<forall>out. r = Inr out \<longrightarrow> (\<exists>pages. complete_walk env 500 pages \<and> out = concat (map snd pages)))"
proof
  have "has_prefix (list_path opts) ''/''" by (simp add: list_path_def)
  from list_pages_sends [OF assms [unfolded listProxiesOnline_def] this]
  show "\<exists>rs. wc_sent c' = wc_sent c @ rs \<and> length rs \<le> 1000 \<and>
      (\<forall>q \<in> set rs. wq_method q = ''GET'' \<and> has_prefix (wq_url q) (base_or_default c @ ''/''))"
    by (simp add: sends_def maxResponsePages_def listing_request_def)
  show "\<forall>out. r = Inr out \<longrightarrow> (\<exists>pages. complete_walk env 500 pages \<and> out = concat (map snd pages))"
    using assms list_pages_ok by (fastforce simp: listProxiesOnline_def maxResponsePages_def)
qed

subsection \<open>The cache policy\<close>

text \<open>One call of \<open>ListProxies\<close>: its surroundings, the options, and the client as it finds it.\<close>

type_synonym list_call = "ws_env \<times> ws_cache_env \<times> list_options \<times> ws_client"

definition ws_live :: "list_call \<Rightarrow> goerr + proxy list" where
  "ws_live = (\<lambda>(env, kx, opts, c). fst (listProxiesOnline env opts c))"

definition ws_cached :: "list_call \<Rightarrow> disk \<Rightarrow> proxy list option" where
  "ws_cached = (\<lambda>(env, kx, opts, c) m. ws_tryCacheFallback kx (wc_cache c) m)"

definition ws_fetch :: "list_call \<Rightarrow> disk \<Rightarrow> (goerr + proxy list) \<times> disk" where
  "ws_fetch = (\<lambda>(env, kx, opts, c) m. let (r, c', m') = ListProxies env kx opts (c, m) in (r, m'))"

definition ws_writes :: "(string \<Rightarrow> goerr + proxy list) \<Rightarrow> string \<Rightarrow> list_call \<Rightarrow> proxy list \<Rightarrow> bool" where
  "ws_writes dec path = (\<lambda>(env, kx, opts, c) ps.
     wc_cache c = Some path \<and> write_ok (cx_write kx) path \<and> (\<exists>data. cx_encode kx ps = Inr data \<and> dec data = Inr ps))"

definition ws_reads :: "(string \<Rightarrow> goerr + proxy list) \<Rightarrow> string \<Rightarrow> list_call \<Rightarrow> bool" where
  "ws_reads dec path = (\<lambda>(env, kx, opts, c). wc_cache c = Some path \<and> cx_decode kx = dec \<and> cx_read kx = None)"

lemmas ws_call_defs = ws_live_def ws_cached_def ws_fetch_def ws_writes_def ws_reads_def

lemma ws_cache_Write_ok:
  assumes "write_ok env path" and "enc ps = Inr data"
  shows "fmlookup (last (snd (ws_cache_Write enc env path ps m))) path = Some data"
  using assms cache_Write_ok [OF assms(1)] by (simp add: ws_cache_Write_def write_ok_def)

interpretation webshare: cached_client ws_live cacheFallbackAllowed ws_cached ws_fetch "ws_writes dec path" "ws_reads dec path"
  for dec path
proof
  fix env :: list_call and m
  obtain we kx opts c where e: "env = (we, kx, opts, c)" by (cases env)
  obtain r c' where l: "listProxiesOnline we opts c = (r, c')" by force
  show "fst (ws_fetch env m) = with_fallback cacheFallbackAllowed (ws_live env) (ws_cached env m)"
    by (auto simp: e l ws_call_defs ListProxies_def with_fallback_def split: sum.splits option.splits)
  show "isl (ws_live env) \<Longrightarrow> snd (ws_fetch env m) = m"
    by (cases r) (auto simp: e l ws_call_defs ListProxies_def split: option.splits)
  fix x and env' :: list_call
  assume a: "ws_live env = Inr x" "ws_writes dec path env x" "ws_reads dec path env'"
  then obtain data where w: "wc_cache c = Some path" "write_ok (cx_write kx) path" "cx_encode kx x = Inr data" "dec data = Inr x"
    by (auto simp: e ws_call_defs)
  have "fmlookup (snd (ws_fetch env m)) path = Some data"
    using a(1) ws_cache_Write_ok [OF w(2), of "cx_encode kx" x data m] w(1,3)
    by (simp add: e l ws_call_defs ListProxies_def)
  then show "ws_cached env' (snd (ws_fetch env m)) = Some x"
    using a(3) w(2,4)
    by (auto simp: ws_call_defs ws_tryCacheFallback_def ws_cache_Read_def cache_Read_def write_ok_def split: prod.splits)
qed

lemma ListProxies_fetch: "ListProxies env kx opts (c, m) = (r, c', m') \<Longrightarrow> ws_fetch (env, kx, opts, c) m = (r, m')"
  by (simp add: ws_fetch_def)

lemma ListProxies_client: "ListProxies env kx opts (c, m) = (r, c', m') \<Longrightarrow> snd (listProxiesOnline env opts c) = c'"
  by (auto simp: ListProxies_def split: sum.splits option.splits prod.splits)

text \<open>Which failures of one request may be answered from the cache.\<close>

lemma read_capped_err:
  assumes "read_capped limit b = Inl e"
  shows "(\<exists>msg. e = errorf msg) \<or> (\<exists>msg e'. bd_end b = Some e' \<and> e = errorf_w msg e')"
  using assms by (auto simp: read_capped_def Let_def split: prod.splits option.splits if_splits)

lemma fallback_wrap [simp]: "cacheFallbackAllowed (errorf_w msg e) = cacheFallbackAllowed e"
  by (simp add: cacheFallbackAllowed_def errorf_w_def split: option.splits)

lemma fallback_errorf [simp]: "\<not> cacheFallbackAllowed (errorf msg)"
  by (simp add: cacheFallbackAllowed_def errorf_def)

lemma fallback_status:
  "cacheFallbackAllowed (http_status_error meth path code data) \<longleftrightarrow> 500 \<le> code"
  by (simp add: cacheFallbackAllowed_def http_status_error_def)

lemma fallback_status_result:
  "status_result meth path status data = Inl e \<Longrightarrow> cacheFallbackAllowed e \<longleftrightarrow> 500 \<le> status"
  by (auto simp: status_result_def fallback_status split: if_splits)
    (simp_all add: cacheFallbackAllowed_def)

text \<open>An error of the vendor-neutral kind: none of the client's own sentinels inside.\<close>

definition foreign_error :: "goerr \<Rightarrow> bool" where
  "foreign_error e \<longleftrightarrow>
     \<not> errors_is e ErrUnauthorized \<and> \<not> errors_is e ErrForbidden \<and> \<not> errors_is e ErrRateLimited \<and> as_status_error e = None"

lemma fallback_foreign: "foreign_error e \<Longrightarrow> cacheFallbackAllowed e \<longleftrightarrow> as_net_error e \<noteq> None"
  by (simp add: foreign_error_def cacheFallbackAllowed_def)

lemma fallback_url_error: "foreign_error e \<Longrightarrow> cacheFallbackAllowed (url_error op e)"
  by (simp add: foreign_error_def cacheFallbackAllowed_def url_error_def)


text \<open>
  After one listing that was stored, later listings through an outage (failures that allow the cache, with a
  readable file) all return that list.
\<close>

theorem listing_outlives_outage:
  assumes "ws_live call0 = Inr ps" and "ws_writes dec path call0 ps"
    and "\<forall>call \<in> set calls. ws_reads dec path call \<and> (\<exists>e. ws_live call = Inl e \<and> cacheFallbackAllowed e)"
  shows "fetch_run ws_fetch (call0 # calls) m = replicate (Suc (length calls)) (Inr ps)"
  by (rule webshare.outage_serves_last [OF assms(1,2)]) (use assms(3) in blast)

text \<open>A request of a client that has no token file to reload from.\<close>

lemma do_plain:
  assumes "wc_token c \<noteq> []" and "wc_token_file c = []" and "we_new_request env (base_or_default c @ path) = None"
    and "ws_do env meth path c = (r, c')"
  shows "r = response_result meth path (we_do env (length (wc_sent c)) (request_for meth path (wc_token c) False c))"
  using assms(4) [unfolded ws_do_def]
proof (cases rule: requestWithRetry_cases)
  case unsent
  with assms show ?thesis by (simp add: base_for_def)
qed (use assms in simp_all)

text \<open>What the first page of a listing can be answered with.\<close>

definition first_answer :: "ws_env \<Rightarrow> list_options \<Rightarrow> ws_client \<Rightarrow> goerr + int \<times> body" where
  "first_answer env opts c =
     we_do env (length (wc_sent c))
       (request_for ''GET'' (list_path opts) (wc_token c) False c)"

definition plain_client :: "ws_env \<Rightarrow> list_options \<Rightarrow> ws_client \<Rightarrow> bool" where
  "plain_client env opts c \<longleftrightarrow>
     wc_token c \<noteq> [] \<and> wc_token_file c = [] \<and>
     we_new_request env (base_or_default c @ list_path opts) = None"

lemma first_page:
  assumes "plain_client env opts c"
  obtains c1 where "ws_do env ''GET'' (list_path opts) c =
      (response_result ''GET'' (list_path opts) (first_answer env opts c), c1)"
  using do_plain [of c env] assms unfolding plain_client_def first_answer_def by (metis prod.exhaust_sel)

text \<open>The walk up to its first page.\<close>

lemma listing_step: "listProxiesOnline env opts c = list_pages env (Suc 499) (list_path opts) [] c"
  by (simp add: listProxiesOnline_def maxResponsePages_def)

lemma listing_first_error:
  assumes "plain_client env opts c"
    and "response_result ''GET'' (list_path opts) (first_answer env opts c) = Inl e"
  shows "fst (listProxiesOnline env opts c) = Inl (errorf_w ''webshare: list page'' e)"
proof -
  obtain c1 where "ws_do env ''GET'' (list_path opts) c = (Inl e, c1)"
    using first_page [OF assms(1)] assms(2) by metis
  then show ?thesis by (simp only: listing_step list_pages.simps prod.case sum.case fst_conv)
qed

lemma listing_first_page:
  assumes "plain_client env opts c"
    and "response_result ''GET'' (list_path opts) (first_answer env opts c) = Inr data"
  shows "we_page env data = Inl e \<Longrightarrow>
           fst (listProxiesOnline env opts c) = Inl (errorf_w ''webshare: decode list page'' e)"
    and "we_page env data = Inr (nxt, results) \<Longrightarrow> nxt \<noteq> [] \<Longrightarrow> we_parse_url env nxt = Inl e \<Longrightarrow>
           fst (listProxiesOnline env opts c) = Inl (errorf_w ''webshare: parse next'' (url_error ''parse'' e))"
    and "we_page env data = Inr (nxt, results) \<Longrightarrow> nxt \<noteq> [] \<Longrightarrow> we_parse_url env nxt = Inr (p, rawq) \<Longrightarrow>
           \<not> has_prefix p apiPrefix \<Longrightarrow> \<exists>msg. fst (listProxiesOnline env opts c) = Inl (errorf msg)"
proof -
  obtain c1 where d: "ws_do env ''GET'' (list_path opts) c = (Inr data, c1)"
    using first_page [OF assms(1)] assms(2) by metis
  note step = listing_step list_pages.simps d prod.case sum.case
  show "we_page env data = Inl e \<Longrightarrow>
      fst (listProxiesOnline env opts c) = Inl (errorf_w ''webshare: decode list page'' e)"
    by (simp only: step fst_conv)
  show "we_page env data = Inr (nxt, results) \<Longrightarrow> nxt \<noteq> [] \<Longrightarrow> we_parse_url env nxt = Inl e \<Longrightarrow>
      fst (listProxiesOnline env opts c) = Inl (errorf_w ''webshare: parse next'' (url_error ''parse'' e))"
    by (simp only: step if_False fst_conv)
  show "we_page env data = Inr (nxt, results) \<Longrightarrow> nxt \<noteq> [] \<Longrightarrow> we_parse_url env nxt = Inr (p, rawq) \<Longrightarrow>
      \<not> has_prefix p apiPrefix \<Longrightarrow> \<exists>msg. fst (listProxiesOnline env opts c) = Inl (errorf msg)"
    by (simp only: step if_False if_True fst_conv not_False_eq_True) blast
qed

text \<open>
  Which failures of the first page are answered from the cache: a transport error and a status of 500 and
  above are, any other unexpected status and an undecodable page are not, nor is a next cursor that leads
  outside the API. A next cursor that does not parse is answered from the cache like an outage, because the
  error of \<open>url.Parse\<close> is a \<open>net.Error\<close>.
\<close>

theorem first_page_policy:
  assumes "plain_client env opts c" and "ws_tryCacheFallback kx (wc_cache c) m = Some cached"
    and "fst (ListProxies env kx opts (c, m)) = r"
  shows "(\<forall>e. first_answer env opts c = Inl e \<and> foreign_error e \<longrightarrow> r = Inr cached) \<and>
         (\<forall>status b data. first_answer env opts c = Inr (status, b) \<and> read_capped maxBodyBytes b = Inr data \<longrightarrow>
            (status \<notin> {200, 201, 204} \<longrightarrow> (if 500 \<le> status then r = Inr cached else isl r)) \<and>
            (status \<in> {200, 201} \<longrightarrow>
               (\<forall>e. we_page env data = Inl e \<and> foreign_error e \<and> as_net_error e = None \<longrightarrow> isl r) \<and>
               (\<forall>nxt results p rawq. we_page env data = Inr (nxt, results) \<and> nxt \<noteq> [] \<and>
                  we_parse_url env nxt = Inr (p, rawq) \<and> \<not> has_prefix p apiPrefix \<longrightarrow> isl r) \<and>
               (\<forall>nxt results e. we_page env data = Inr (nxt, results) \<and> nxt \<noteq> [] \<and>
                  we_parse_url env nxt = Inl e \<and> foreign_error e \<longrightarrow> r = Inr cached)))"
proof -
  have r: "r = with_fallback cacheFallbackAllowed (fst (listProxiesOnline env opts c)) (Some cached)"
    using webshare.result [of "(env, kx, opts, c)" m] assms(2,3)
    by (auto simp: ws_live_def ws_cached_def ws_fetch_def case_prod_beta)
  have cached: "r = Inr cached" if "fst (listProxiesOnline env opts c) = Inl e" "cacheFallbackAllowed e" for e
    using r that by (simp add: with_fallback_def)
  have closed: "isl r" if "fst (listProxiesOnline env opts c) = Inl e" "\<not> cacheFallbackAllowed e" for e
    using r that by (simp add: with_fallback_def)
  have 1: "r = Inr cached" if "first_answer env opts c = Inl e" and "foreign_error e" for e
    using cached [OF listing_first_error [OF assms(1)]] that fallback_url_error
    by (simp add: response_result_def)
  have 2: "if 500 \<le> status then r = Inr cached else isl r"
    if "first_answer env opts c = Inr (status, b)" "read_capped maxBodyBytes b = Inr data" "status \<notin> {200, 201, 204}"
    for status b data
  proof -
    note status = that(3)
    obtain e where e: "status_result ''GET'' (list_path opts) status data = Inl e"
      using status by (cases "status_result ''GET'' (list_path opts) status data") (auto simp: status_result_def split: if_splits)
    then show ?thesis
      using cached closed listing_first_error [OF assms(1), of e] fallback_status_result [OF e] that(1,2)
      by (simp add: response_result_def)
  qed
  have 3: "(\<forall>e. we_page env data = Inl e \<and> foreign_error e \<and> as_net_error e = None \<longrightarrow> isl r) \<and>
      (\<forall>nxt results p rawq. we_page env data = Inr (nxt, results) \<and> nxt \<noteq> [] \<and>
         we_parse_url env nxt = Inr (p, rawq) \<and> \<not> has_prefix p apiPrefix \<longrightarrow> isl r) \<and>
      (\<forall>nxt results e. we_page env data = Inr (nxt, results) \<and> nxt \<noteq> [] \<and>
         we_parse_url env nxt = Inl e \<and> foreign_error e \<longrightarrow> r = Inr cached)"
    if "first_answer env opts c = Inr (status, b)" "read_capped maxBodyBytes b = Inr data" "status \<in> {200, 201}"
    for status b data
  proof -
    have "response_result ''GET'' (list_path opts) (first_answer env opts c) = Inr data"
      using that by (auto simp: response_result_def status_result_def)
    note pg = listing_first_page [OF assms(1) this]
    show ?thesis
    proof (intro conjI allI impI)
      fix e assume "we_page env data = Inl e \<and> foreign_error e \<and> as_net_error e = None"
      then show "isl r" using closed [OF pg(1)] fallback_foreign by simp
    next
      fix nxt results p rawq
      assume "we_page env data = Inr (nxt, results) \<and> nxt \<noteq> [] \<and>
        we_parse_url env nxt = Inr (p, rawq) \<and> \<not> has_prefix p apiPrefix"
      then obtain msg where "fst (listProxiesOnline env opts c) = Inl (errorf msg)" using pg(3) by blast
      then show "isl r" using closed by simp
    next
      fix nxt results e
      assume "we_page env data = Inr (nxt, results) \<and> nxt \<noteq> [] \<and> we_parse_url env nxt = Inl e \<and> foreign_error e"
      then show "r = Inr cached" using cached [OF pg(2)] fallback_url_error by simp
    qed
  qed
  show ?thesis using 1 2 3 by blast
qed

end
