(* ===== verification/Webshare.thy ===== *)
theory Webshare
  imports WebshareApi
begin

text \<open>
  The Webshare pool, \<open>expander.go\<close> and \<open>provider.go\<close> of \<open>internal/upstream/webshare\<close>: the expansion of a pool
  block, the choice of the credentials, the heal, the refresh loop with its backoff, and the provider.
  The environment variables and the token file are parameters.
\<close>

subsection \<open>The expander\<close>

record ws_config =
  wx_id_prefix :: string
  wx_priority :: int
  wx_mode :: string
  wx_kind :: string
  wx_plan_id :: string
  wx_country_codes :: "string list"
  wx_refresh :: duration
  wx_proxy_username :: string
  wx_proxy_password :: string

text \<open>A nil client is the flag.\<close>

definition ws_NewExpander :: "ws_config \<Rightarrow> bool \<Rightarrow> goerr + ws_config" where
  "ws_NewExpander cfg haveClient =
     (if wx_id_prefix cfg = [] then Inl (errorf ''webshare: id_prefix is required'')
      else if \<not> haveClient then Inl (errorf ''webshare: client is required'')
      else
        (let mode = (if wx_mode cfg = [] then ''direct'' else wx_mode cfg)
         in if mode \<noteq> ''direct'' \<and> mode \<noteq> ''backbone''
            then Inl (errorf ''webshare: mode is not one of direct, backbone'')
            else
              (let kind = (if wx_kind cfg = [] then KindHTTP else wx_kind cfg)
               in if kind \<noteq> KindHTTP \<and> kind \<noteq> KindSOCKS5
                  then Inl (errorf ''webshare: kind is not one of http, socks5'')
                  else Inr (cfg\<lparr>wx_mode := mode, wx_kind := kind, wx_plan_id := trim_space (wx_plan_id cfg)\<rparr>))))"

text \<open>The credentials of the status probe, or blanks.\<close>

definition fetchCanonicalCreds :: "ws_env \<Rightarrow> ws_config \<Rightarrow> ws_client \<Rightarrow> (string \<times> string) \<times> ws_client" where
  "fetchCanonicalCreds env cfg c =
     (if wx_plan_id cfg = [] then (([], []), c)
      else (case FetchProxyListStatus env (wx_plan_id cfg) c of
              (Inl _, c') \<Rightarrow> (([], []), c')
            | (Inr status, c') \<Rightarrow>
                if st_username status = [] \<or> st_password status = [] then (([], []), c')
                else ((st_username status, st_password status), c')))"

definition ws_upstream :: "ws_config \<Rightarrow> string \<Rightarrow> string \<Rightarrow> proxy \<Rightarrow> upstream_config option" where
  "ws_upstream cfg canonicalUser canonicalPass p =
     (if \<not> px_valid p then None
      else if px_address p = [] \<or> px_port p < 1 \<or> px_port p > 65535 then None
      else
        (let (username, password) =
               (if canonicalUser \<noteq> [] \<and> canonicalPass \<noteq> [] then (canonicalUser, canonicalPass)
                else (px_username p, px_password p));
             username = (if wx_proxy_username cfg \<noteq> [] then wx_proxy_username cfg else username);
             password = (if wx_proxy_password cfg \<noteq> [] then wx_proxy_password cfg else password)
         in Some \<lparr>uc_id = wx_id_prefix cfg @ ''-'' @ px_id p, uc_kind = wx_kind cfg, uc_addr = HostPort p,
              uc_priority = Some (wx_priority cfg), uc_username = username, uc_password = password\<rparr>))"

definition ws_transform :: "ws_config \<Rightarrow> proxy list \<Rightarrow> string \<Rightarrow> string \<Rightarrow> upstream_config list" where
  "ws_transform cfg proxies canonicalUser canonicalPass =
     slice_sort (\<lambda>a b. uc_id a < uc_id b)
       (List.map_filter (ws_upstream cfg canonicalUser canonicalPass) proxies)"

definition snapshot_options :: "ws_config \<Rightarrow> list_options" where
  "snapshot_options cfg =
     \<lparr>lo_mode = wx_mode cfg, lo_plan_id = wx_plan_id cfg, lo_country_codes = wx_country_codes cfg,
      lo_search = [], lo_page_size = 0\<rparr>"

definition ws_Snapshot ::
    "ws_env \<Rightarrow> ws_cache_env \<Rightarrow> ws_config \<Rightarrow> ws_client \<times> disk \<Rightarrow> (goerr + up_slice) \<times> ws_client \<times> disk" where
  "ws_Snapshot env kx cfg cm =
     (case ListProxies env kx (snapshot_options cfg) cm of
        (Inl e, c, m) \<Rightarrow> (Inl (errorf_w ''webshare expander: list'' e), c, m)
      | (Inr proxies, c, m) \<Rightarrow>
          (let ((user, pass), c') = fetchCanonicalCreds env cfg c
           in (Inr (Some (ws_transform cfg proxies user pass)), c', m)))"

definition ws_Heal ::
    "ws_env \<Rightarrow> ws_cache_env \<Rightarrow> ws_config \<Rightarrow> ws_client \<times> disk \<Rightarrow> (goerr + up_slice) \<times> ws_client \<times> disk" where
  "ws_Heal env kx cfg cm =
     (let (c, m) = cm; (_, c') = RefreshProxyList env (wx_plan_id cfg) c in ws_Snapshot env kx cfg (c', m))"

subsection \<open>The refresh loop\<close>

definition backoffCap :: "duration \<Rightarrow> duration" where
  "backoffCap base = (let hardCap = 30 * minute in if hardCap div 8 < base then hardCap else wrap64 (8 * base))"

definition backoffInterval :: "int \<Rightarrow> duration \<Rightarrow> duration \<Rightarrow> duration" where
  "backoffInterval consecutive base maxInterval =
     (if consecutive \<le> 0 then base
      else
        (let shift = (if 30 < consecutive - 1 then 30 else consecutive - 1);
             next = wrap64 (base * 2 ^ nat shift)
         in if next \<le> 0 \<or> maxInterval < next then maxInterval else next))"

text \<open>
  The loop between two ticks: the interval the timer is set to, the consecutive failures and the list the next
  change is compared against. A tick takes the outcome of its snapshot.
\<close>

record 'a refresh_state =
  rs_interval :: duration
  rs_failures :: int
  rs_prev :: 'a

definition refresh_start :: "duration \<Rightarrow> 'a \<Rightarrow> 'a refresh_state" where
  "refresh_start base prev = \<lparr>rs_interval = base, rs_failures = 0, rs_prev = prev\<rparr>"

definition refresh_tick ::
    "duration \<Rightarrow> goerr + 'a \<Rightarrow> 'a refresh_state \<Rightarrow> 'a refresh_state \<times> ('a \<times> 'a) option" where
  "refresh_tick base outcome s =
     (case outcome of
        Inl _ \<Rightarrow>
          (let failures = rs_failures s + 1
           in (s\<lparr>rs_failures := failures, rs_interval := backoffInterval failures base (backoffCap base)\<rparr>, None))
      | Inr next \<Rightarrow> (\<lparr>rs_interval = base, rs_failures = 0, rs_prev = next\<rparr>, Some (rs_prev s, next)))"

text \<open>The state after each tick and the calls of \<open>onChange\<close>; a base of zero or less turns the loop off.\<close>

fun refresh_run :: "duration \<Rightarrow> (goerr + 'a) list \<Rightarrow> 'a refresh_state \<Rightarrow> 'a refresh_state list \<times> ('a \<times> 'a) list" where
  "refresh_run base [] s = ([], [])"
| "refresh_run base (o1 # os) s =
     (let (s', call) = refresh_tick base o1 s; (states, calls) = refresh_run base os s'
      in (s' # states, case call of None \<Rightarrow> calls | Some x \<Rightarrow> x # calls))"

definition RunRefresh ::
    "bool \<Rightarrow> duration \<Rightarrow> 'a \<Rightarrow> (goerr + 'a) list \<Rightarrow> goerr + 'a refresh_state list \<times> ('a \<times> 'a) list" where
  "RunRefresh haveCallback base prev outcomes =
     (if \<not> haveCallback then Inl (errorf ''webshare: onChange callback is required'')
      else if base \<le> 0 then Inr ([], [])
      else Inr (refresh_run base outcomes (refresh_start base prev)))"

subsection \<open>The provider\<close>

definition ascii_letter :: "char \<Rightarrow> bool" where
  "ascii_letter c \<longleftrightarrow>
     65 \<le> (of_char c :: nat) \<and> (of_char c :: nat) \<le> 90 \<or> 97 \<le> (of_char c :: nat) \<and> (of_char c :: nat) \<le> 122"

definition isISOAlpha2 :: "string \<Rightarrow> bool" where
  "isISOAlpha2 s \<longleftrightarrow> length s = 2 \<and> list_all ascii_letter s"

definition set_field :: "string \<Rightarrow> bool" where
  "set_field s \<longleftrightarrow> trim_space s \<noteq> []"

definition validateProxyCreds :: "upstream_pool_config \<Rightarrow> string option" where
  "validateProxyCreds cfg =
     (let uInline = set_field (pc_proxy_username cfg); uEnv = set_field (pc_proxy_username_env cfg);
          pInline = set_field (pc_proxy_password cfg); pEnv = set_field (pc_proxy_password_env cfg)
      in if uInline \<and> uEnv then Some ''webshare: set only one of proxy_username or proxy_username_env''
         else if pInline \<and> pEnv then Some ''webshare: set only one of proxy_password or proxy_password_env''
         else if (uInline \<or> uEnv) \<noteq> (pInline \<or> pEnv)
         then Some ''webshare: proxy_username and proxy_password must be set together''
         else None)"

definition ws_ValidateConfig :: "upstream_pool_config \<Rightarrow> string option" where
  "ws_ValidateConfig cfg =
     (let hasInline = set_field (pc_api_token cfg); hasFile = set_field (pc_api_token_file cfg)
      in if \<not> hasInline \<and> \<not> hasFile then Some ''webshare: one of api_token or api_token_file is required''
         else if hasInline \<and> hasFile then Some ''webshare: set only one of api_token or api_token_file''
         else if pc_mode cfg \<notin> {[], ''direct'', ''backbone''} then Some ''webshare: mode is not one of direct, backbone''
         else if pc_kind cfg \<notin> {[], KindHTTP, KindSOCKS5} then Some ''webshare: kind is not one of http, socks5''
         else if pc_countries cfg \<noteq> [] then Some ''webshare: use country_codes instead of countries''
         else if list_ex (\<lambda>code. \<not> isISOAlpha2 code) (pc_country_codes cfg)
         then Some ''webshare: country_codes must be two-letter codes''
         else validateProxyCreds cfg)"

definition resolveCred :: "(string \<Rightarrow> string) \<Rightarrow> string \<Rightarrow> string \<Rightarrow> goerr + string" where
  "resolveCred getenv inlineVal envVar =
     (if trim_space inlineVal \<noteq> [] then Inr (trim_space inlineVal)
      else if trim_space envVar \<noteq> [] then
        (let val = trim_space (getenv (trim_space envVar))
         in if val = [] then Inl (errorf ''webshare: the named variable is unset or empty'') else Inr val)
      else Inr [])"

definition resolveProxyCreds :: "(string \<Rightarrow> string) \<Rightarrow> upstream_pool_config \<Rightarrow> goerr + string \<times> string" where
  "resolveProxyCreds getenv cfg =
     (case resolveCred getenv (pc_proxy_username cfg) (pc_proxy_username_env cfg) of
        Inl e \<Rightarrow> Inl e
      | Inr user \<Rightarrow>
          (case resolveCred getenv (pc_proxy_password cfg) (pc_proxy_password_env cfg) of
             Inl e \<Rightarrow> Inl e
           | Inr pass \<Rightarrow>
               if (user = []) \<noteq> (pass = [])
               then Inl (errorf ''webshare: proxy_username and proxy_password must both resolve to non-empty values'')
               else Inr (user, pass)))"

definition ErrTokenMissing :: goerr where
  "ErrTokenMissing = errorf ''webshare: no api_token or api_token_file configured''"

definition resolveToken :: "(string \<Rightarrow> goerr + string) \<Rightarrow> upstream_pool_config \<Rightarrow> goerr + string" where
  "resolveToken file cfg =
     (if trim_space (pc_api_token cfg) \<noteq> [] then Inr (trim_space (pc_api_token cfg))
      else if trim_space (pc_api_token_file cfg) \<noteq> [] then LoadTokenFile file (trim_space (pc_api_token_file cfg))
      else Inl ErrTokenMissing)"

definition buildClient :: "(string \<Rightarrow> goerr + string) \<Rightarrow> upstream_pool_config \<Rightarrow> goerr + ws_client" where
  "buildClient file cfg =
     (case resolveToken file cfg of
        Inl e \<Rightarrow> Inl e
      | Inr token \<Rightarrow>
          Inr (ws_NewClient\<lparr>wc_token := token,
                 wc_token_file := trim_space (pc_api_token_file cfg),
                 wc_cache := (if pc_cache_path cfg \<noteq> [] then Some (pc_cache_path cfg) else None)\<rparr>))"

definition ws_config_of :: "upstream_pool_config \<Rightarrow> string \<Rightarrow> string \<Rightarrow> ws_config" where
  "ws_config_of cfg proxyUser proxyPass =
     \<lparr>wx_id_prefix = pc_id_prefix cfg, wx_priority = pool_PriorityValue cfg, wx_mode = pc_mode cfg,
      wx_kind = pc_kind cfg, wx_plan_id = pc_plan_id cfg, wx_country_codes = pc_country_codes cfg,
      wx_refresh = RefreshDuration cfg, wx_proxy_username = proxyUser, wx_proxy_password = proxyPass\<rparr>"

text \<open>What \<open>BuildExpander\<close> puts together: the expander's configuration and its client.\<close>

definition ws_build_parts ::
    "(string \<Rightarrow> string) \<Rightarrow> (string \<Rightarrow> goerr + string) \<Rightarrow> upstream_pool_config \<Rightarrow> goerr + ws_config \<times> ws_client" where
  "ws_build_parts getenv file cfg =
     (case buildClient file cfg of
        Inl e \<Rightarrow> Inl e
      | Inr client \<Rightarrow>
          (case resolveProxyCreds getenv cfg of
             Inl e \<Rightarrow> Inl e
           | Inr (user, pass) \<Rightarrow>
               (case ws_NewExpander (ws_config_of cfg user pass) True of Inl e \<Rightarrow> Inl e | Inr c \<Rightarrow> Inr (c, client))))"

record ws_world =
  ww_env :: ws_env
  ww_cache :: ws_cache_env
  ww_disk :: disk
  ww_getenv :: "string \<Rightarrow> string"
  ww_file :: "string \<Rightarrow> goerr + string"

definition ws_BuildExpander :: "ws_world \<Rightarrow> upstream_pool_config \<Rightarrow> goerr + expander" where
  "ws_BuildExpander w cfg =
     (case ws_build_parts (ww_getenv w) (ww_file w) cfg of
        Inl e \<Rightarrow> Inl e
      | Inr (c, client) \<Rightarrow>
          Inr \<lparr>ex_healer = True, ex_snapshot = fst (ws_Snapshot (ww_env w) (ww_cache w) c (client, ww_disk w))\<rparr>)"

record api_adapter =
  aa_client :: ws_client
  aa_plan_id :: string

definition ws_BuildAPI :: "(string \<Rightarrow> goerr + string) \<Rightarrow> upstream_pool_config \<Rightarrow> goerr + api_adapter" where
  "ws_BuildAPI file cfg =
     (case buildClient file cfg of
        Inl e \<Rightarrow> Inl e
      | Inr client \<Rightarrow> Inr \<lparr>aa_client = client, aa_plan_id = pc_plan_id cfg\<rparr>)"

definition wrapVendorErr :: "goerr option \<Rightarrow> goerr option" where
  "wrapVendorErr err =
     (case err of
        None \<Rightarrow> None
      | Some e \<Rightarrow> if errors_is e ErrRateLimited then Some (ErrJoin [ErrLeaf ErrAPIRateLimited None, e]) else Some e)"

definition adapter_RefreshProxyList :: "ws_env \<Rightarrow> string \<Rightarrow> api_adapter \<Rightarrow> goerr option \<times> api_adapter" where
  "adapter_RefreshProxyList env optPlan a =
     (let planID = (if optPlan = [] then aa_plan_id a else optPlan);
          (err, c) = RefreshProxyList env planID (aa_client a)
      in (wrapVendorErr err, a\<lparr>aa_client := c\<rparr>))"

definition ws_provider :: "(upstream_pool_config \<Rightarrow> ws_world) \<Rightarrow> provider" where
  "ws_provider w =
     \<lparr>pv_Name = ''webshare'', pv_ValidateConfig = ws_ValidateConfig, pv_BuildExpander = (\<lambda>cfg. ws_BuildExpander (w cfg) cfg),
      pv_BuildAPI = (\<lambda>cfg. case ws_BuildAPI (ww_file (w cfg)) cfg of Inl e \<Rightarrow> Some e | Inr _ \<Rightarrow> None)\<rparr>"

subsection \<open>The expansion\<close>

text \<open>Where the credentials of an expanded upstream come from.\<close>

definition creds_for :: "ws_config \<Rightarrow> string \<times> string \<Rightarrow> proxy \<Rightarrow> string \<times> string" where
  "creds_for cfg canonical p =
     (if wx_proxy_username cfg \<noteq> [] then (wx_proxy_username cfg, wx_proxy_password cfg)
      else if fst canonical \<noteq> [] \<and> snd canonical \<noteq> [] then canonical
      else (px_username p, px_password p))"

definition proxy_usable :: "proxy \<Rightarrow> bool" where
  "proxy_usable p \<longleftrightarrow> px_valid p \<and> px_address p \<noteq> [] \<and> 1 \<le> px_port p \<and> px_port p \<le> 65535"

definition paired_override :: "ws_config \<Rightarrow> bool" where
  "paired_override cfg \<longleftrightarrow> (wx_proxy_username cfg = [] \<longleftrightarrow> wx_proxy_password cfg = [])"

definition expanded_proxy :: "ws_config \<Rightarrow> string \<times> string \<Rightarrow> proxy \<Rightarrow> upstream_config" where
  "expanded_proxy cfg canonical p =
     \<lparr>uc_id = wx_id_prefix cfg @ ''-'' @ px_id p, uc_kind = wx_kind cfg, uc_addr = HostPort p,
      uc_priority = Some (wx_priority cfg), uc_username = fst (creds_for cfg canonical p),
      uc_password = snd (creds_for cfg canonical p)\<rparr>"

lemma ws_upstream_Some:
  assumes "paired_override cfg"
  shows "ws_upstream cfg cu cp p = (if proxy_usable p then Some (expanded_proxy cfg (cu, cp) p) else None)"
  using assms
  by (auto simp: ws_upstream_def proxy_usable_def expanded_proxy_def creds_for_def paired_override_def Let_def)

lemma ws_transform_set:
  "paired_override cfg \<Longrightarrow>
     set (ws_transform cfg ps cu cp) = expanded_proxy cfg (cu, cp) ` {p \<in> set ps. proxy_usable p}"
  by (auto simp: ws_transform_def List.map_filter_def ws_upstream_Some)

lemma ws_transform_sorted: "sorted (map uc_id (ws_transform cfg ps cu cp))"
  unfolding ws_transform_def by (rule expansion_sorted)

lemma ws_transform_distinct:
  assumes "paired_override cfg" and "distinct (map px_id ps)"
  shows "distinct (map uc_id (ws_transform cfg ps cu cp))"
  unfolding ws_transform_def
  by (rule expansion_distinct [OF assms(2), where pre = "wx_id_prefix cfg @ ''-''"])
    (auto simp: ws_upstream_Some [OF assms(1)] expanded_proxy_def split: if_splits)

lemma expanded_proxy_wf:
  assumes "wx_kind cfg \<in> {KindHTTP, KindSOCKS5}" and "proxy_usable p" and "plain_host (px_address p)"
    and "list_ex (\<lambda>c. \<not> is_space c) (px_address p)"
  shows "wf_upstream (expanded_proxy cfg canonical p)"
    and "split_host_port (uc_addr (expanded_proxy cfg canonical p)) = Inr (px_address p, itoa (px_port p))"
  using assms upstream_addr_ok_join [of "px_address p" "px_port p"]
  by (auto simp: wf_upstream_def expanded_proxy_def HostPort_def proxy_usable_def)

text \<open>
  C40: the expansion of a proxy list is sorted by id and holds exactly one upstream per usable proxy, with one whole
  pair of credentials: the operator's, else the canonical pair of the status probe, else the proxy's own.
  Distinct proxy ids give distinct upstream ids, and plain addresses give upstreams that the configuration's own checks
  would accept and whose address splits back into the proxy's.
\<close>

theorem ws_transform_exact:
  assumes "paired_override cfg" and "wx_kind cfg \<in> {KindHTTP, KindSOCKS5}"
  shows "sorted (map uc_id (ws_transform cfg ps cu cp)) \<and>
         set (ws_transform cfg ps cu cp) = expanded_proxy cfg (cu, cp) ` {p \<in> set ps. proxy_usable p} \<and>
         (distinct (map px_id ps) \<longrightarrow> distinct (map uc_id (ws_transform cfg ps cu cp))) \<and>
         (\<forall>p \<in> set ps. proxy_usable p \<and> plain_host (px_address p) \<and> list_ex (\<lambda>c. \<not> is_space c) (px_address p) \<longrightarrow>
            wf_upstream (expanded_proxy cfg (cu, cp) p) \<and>
            split_host_port (uc_addr (expanded_proxy cfg (cu, cp) p)) = Inr (px_address p, itoa (px_port p)))"
  using expanded_proxy_wf [OF assms(2)] ws_transform_distinct [OF assms(1)]
  by (simp add: ws_transform_sorted ws_transform_set [OF assms(1)])

subsection \<open>Healing\<close>

text \<open>What the status probe says, given the client it finds.\<close>

lemma canonical_creds:
  assumes "wx_plan_id cfg \<noteq> []" and "FetchProxyListStatus env (wx_plan_id cfg) c = (Inr status, c')"
    and "st_username status \<noteq> []" and "st_password status \<noteq> []"
  shows "fetchCanonicalCreds env cfg c = ((st_username status, st_password status), c')"
  using assms by (simp add: fetchCanonicalCreds_def)

lemma canonical_all_or_nothing:
  "fst (fetchCanonicalCreds env cfg c) = ([], []) \<or>
   (\<exists>u p. fst (fetchCanonicalCreds env cfg c) = (u, p) \<and> u \<noteq> [] \<and> p \<noteq> [])"
  by (auto simp: fetchCanonicalCreds_def split: prod.splits sum.splits if_splits)

text \<open>
  A heal whose listing answers (live or from the cache) and whose status probe answers expands the list with the
  probe's credentials, whatever the refresh request came to.
\<close>

lemma heal_answer:
  assumes "wx_plan_id cfg \<noteq> []" and "RefreshProxyList env (wx_plan_id cfg) c = (err, c1)"
    and "ListProxies env kx (snapshot_options cfg) (c1, m) = (Inr ps, c2, m2)"
    and "FetchProxyListStatus env (wx_plan_id cfg) c2 = (Inr status, c3)"
    and "st_username status \<noteq> []" and "st_password status \<noteq> []"
  shows "ws_Heal env kx cfg (c, m) = (Inr (Some (ws_transform cfg ps (st_username status) (st_password status))), c3, m2)"
  using assms(2,3) canonical_creds [OF assms(1,4,5,6)] by (simp add: ws_Heal_def ws_Snapshot_def)

subsection \<open>The backoff\<close>

lemma backoffCap_range:
  assumes "0 < base"
  shows "0 < backoffCap base \<and> backoffCap base \<le> 30 * minute \<and> (base \<le> 30 * minute \<longrightarrow> base \<le> backoffCap base)"
proof (cases "30 * minute div 8 < base")
  case False
  then have "8 * base \<le> 30 * minute" by (simp add: minute_def)
  then have "wrap64 (8 * base) = 8 * base"
    using assms by (intro wrap64_id) (simp_all add: min_int64_def max_int64_def minute_def)
  with False assms \<open>8 * base \<le> 30 * minute\<close> show ?thesis by (simp add: backoffCap_def)
qed (simp add: backoffCap_def minute_def)

lemma backoffCap_exact: "0 < base \<Longrightarrow> backoffCap base = min (8 * base) (30 * minute) \<or> 30 * minute div 8 < base"
proof -
  assume b: "0 < base"
  show ?thesis
  proof (cases "30 * minute div 8 < base")
    case False
    then have "8 * base \<le> 30 * minute" by (simp add: minute_def)
    moreover from this have "wrap64 (8 * base) = 8 * base"
      using b by (intro wrap64_id) (simp_all add: min_int64_def max_int64_def minute_def)
    ultimately show ?thesis using False by (simp add: backoffCap_def)
  qed simp
qed

lemma backoffInterval_range:
  assumes "0 < base" and "0 < cap"
  shows "0 < backoffInterval n base cap" and "0 < n \<Longrightarrow> backoffInterval n base cap \<le> cap"
  using assms by (auto simp: backoffInterval_def Let_def)

lemma backoffInterval_exact:
  assumes "0 < base" and "0 < n" and "n \<le> 31" and "base * 2 ^ nat (n - 1) \<le> max_int64"
  shows "backoffInterval n base cap = min (base * 2 ^ nat (n - 1)) cap"
proof -
  have "0 < base * 2 ^ nat (n - 1)" using assms(1) by simp
  moreover from this have "wrap64 (base * 2 ^ nat (n - 1)) = base * 2 ^ nat (n - 1)"
    using assms(4) by (intro wrap64_id) (simp_all add: min_int64_def)
  ultimately show ?thesis using assms(2,3) by (auto simp: backoffInterval_def Let_def)
qed

text \<open>The consecutive failures at the end of a list of outcomes.\<close>

definition trailing_failures :: "(goerr + 'a) list \<Rightarrow> nat" where
  "trailing_failures os = length (takeWhile isl (rev os))"

lemma trailing_failures_snoc:
  "trailing_failures (os @ [r]) = (if isl r then Suc (trailing_failures os) else 0)"
  by (simp add: trailing_failures_def)

lemma refresh_run_snoc:
  "refresh_run base (os @ [r]) s =
     (let (states, calls) = refresh_run base os s; (s', call) = refresh_tick base r (last (s # states))
      in (states @ [s'], calls @ (case call of None \<Rightarrow> [] | Some x \<Rightarrow> [x])))"
proof (induction os arbitrary: s)
  case (Cons o1 os)
  obtain s1 call1 where t: "refresh_tick base o1 s = (s1, call1)" by force
  obtain states calls where r: "refresh_run base os s1 = (states, calls)" by force
  show ?case using Cons [of s1] t r by (simp add: Let_def case_prod_beta split: option.splits)
qed (simp add: Let_def case_prod_beta split: option.splits)

text \<open>The state after a run, in terms of its outcomes.\<close>

lemma refresh_run_state:
  "length (fst (refresh_run base os (refresh_start base prev))) = length os"
  "last (refresh_start base prev # fst (refresh_run base os (refresh_start base prev))) =
     \<lparr>rs_interval = (let n = int (trailing_failures os) in
        if n = 0 then base else backoffInterval n base (backoffCap base)),
      rs_failures = int (trailing_failures os), rs_prev = last (prev # [x. Inr x \<leftarrow> os])\<rparr>"
  "snd (refresh_run base os (refresh_start base prev)) = refresh_ticks prev os"
proof (induction os rule: rev_induct)
  case (snoc r os)
  obtain states calls where run: "refresh_run base os (refresh_start base prev) = (states, calls)" by force
  note IH = snoc [unfolded run fst_conv snd_conv]
  have chain: "refresh_ticks prev (os @ [r]) =
      refresh_ticks prev os @ (case r of Inl _ \<Rightarrow> [] | Inr x \<Rightarrow> [(last (prev # [x. Inr x \<leftarrow> os]), x)])"
    by (induction prev os rule: refresh_ticks.induct) (auto split: sum.splits)
  show "length (fst (refresh_run base (os @ [r]) (refresh_start base prev))) = length (os @ [r])"
    using IH(1) by (simp add: refresh_run_snoc run Let_def case_prod_beta)
  show "last (refresh_start base prev # fst (refresh_run base (os @ [r]) (refresh_start base prev))) =
     \<lparr>rs_interval = (let n = int (trailing_failures (os @ [r])) in
        if n = 0 then base else backoffInterval n base (backoffCap base)),
      rs_failures = int (trailing_failures (os @ [r])), rs_prev = last (prev # [x. Inr x \<leftarrow> os @ [r]])\<rparr>"
    using IH(2) by (cases r)
      (auto simp: refresh_run_snoc run case_prod_beta refresh_tick_def Let_def trailing_failures_snoc add.commute
         split: if_splits)
  show "snd (refresh_run base (os @ [r]) (refresh_start base prev)) = refresh_ticks prev (os @ [r])"
    using IH(2,3) chain
    by (cases r) (auto simp: refresh_run_snoc run case_prod_beta refresh_tick_def Let_def split: if_splits)
qed (auto simp: refresh_start_def trailing_failures_def)

text \<open>
  After any outcomes of its snapshots the refresh loop waits a positive time, no longer than the configured interval
  or the cap; exactly the configured interval when the last snapshot succeeded; and after \<open>n\<close> failures in a
  row (up to 31, while the product fits int64) the doubled interval or the cap, whichever is shorter. The changes it
  reports are the successful snapshots in order, each compared with the one before.
\<close>

theorem RunRefresh_backoff:
  assumes "0 < base" and "outcomes \<noteq> []"
  shows "\<exists>states calls. RunRefresh True base prev outcomes = Inr (states, calls) \<and>
           (let n = trailing_failures outcomes; w = rs_interval (last states)
         in length states = length outcomes \<and> 0 < w \<and> w \<le> max base (backoffCap base) \<and>
            backoffCap base \<le> 30 * minute \<and> (n = 0 \<longrightarrow> w = base) \<and>
            (1 \<le> n \<and> n \<le> 31 \<and> base * 2 ^ (n - 1) \<le> max_int64 \<longrightarrow> w = min (base * 2 ^ (n - 1)) (backoffCap base)) \<and>
            map snd calls = [x. Inr x \<leftarrow> outcomes] \<and> map fst calls = butlast (prev # [x. Inr x \<leftarrow> outcomes]))"
proof -
  obtain states calls where run: "refresh_run base outcomes (refresh_start base prev) = (states, calls)" by force
  then have r: "RunRefresh True base prev outcomes = Inr (states, calls)"
    using assms(1) by (simp add: RunRefresh_def)
  note st = refresh_run_state [where base = base and os = outcomes and prev = prev, unfolded run fst_conv snd_conv]
  define n where "n = trailing_failures outcomes"
  have "states \<noteq> []" using st(1) assms(2) by auto
  then have w: "rs_interval (last states) = (if n = 0 then base else backoffInterval (int n) base (backoffCap base))"
    using st(2) by (simp add: n_def)
  have cap: "0 < backoffCap base" "backoffCap base \<le> 30 * minute" using backoffCap_range [OF assms(1)] by auto
  have exact: "backoffInterval (int n) base (backoffCap base) = min (base * 2 ^ (n - 1)) (backoffCap base)"
    if "1 \<le> n" "n \<le> 31" "base * 2 ^ (n - 1) \<le> max_int64"
  proof -
    have "nat (int n - 1) = n - 1" by simp
    then show ?thesis using backoffInterval_exact [OF assms(1), of "int n" "backoffCap base"] that by simp
  qed
  have "0 < rs_interval (last states) \<and> rs_interval (last states) \<le> max base (backoffCap base)"
    using w assms(1) backoffInterval_range [OF assms(1) cap(1), of "int n"] by (cases "n = 0") auto
  then show ?thesis
    using w cap exact st(1,3) refresh_ticks_chain [of prev outcomes] by (simp add: r n_def [symmetric])
qed

text \<open>
  The doubling is not protected beyond its cap: a base just over 2^36 nanoseconds (68.7 seconds) reaches the
  cap of 8 intervals at the fourth failure and stays there through the 27th, but from the 31st failure on the product has
  wrapped to 2^30 nanoseconds, so that the loop polls the failing vendor every 1.07 seconds. And with an interval
  beyond 30 minutes the first failure makes the loop poll more often, not less.
\<close>

theorem backoff_wraps:
  "(let base = 2 ^ 36 + 1 in
      backoffCap base = 8 * base \<and> (\<forall>n \<in> {4..27}. backoffInterval n base (backoffCap base) = 8 * base) \<and>
      (\<forall>n \<ge> 31. backoffInterval n base (backoffCap base) = 2 ^ 30)) \<and>
   (\<forall>base n. 30 * minute < base \<and> 0 < n \<longrightarrow> backoffInterval n base (backoffCap base) < base)"
proof (intro conjI)
  define base :: int where "base = 2 ^ 36 + 1"
  have cap: "backoffCap base = 8 * base" by (simp add: base_def) code_simp
  have wrapped: "wrap64 (base * 2 ^ 30) = 2 ^ 30" by (simp add: base_def) code_simp
  have "backoffInterval n base (8 * base) = 8 * base" if "n \<in> {4..27}" for n
  proof -
    obtain k where k: "n = int k" "4 \<le> k" "k \<le> 27" using \<open>n \<in> {4..27}\<close> by (cases n) auto
    have "(2::int) ^ 3 \<le> 2 ^ nat (n - 1)" using k by (intro power_increasing) auto
    moreover have "(2::int) ^ nat (n - 1) \<le> 2 ^ 26" using k by (intro power_increasing) auto
    then have "base * 2 ^ nat (n - 1) \<le> base * 2 ^ 26" by (intro mult_left_mono) (simp_all add: base_def)
    then have "base * 2 ^ nat (n - 1) \<le> max_int64" by (simp add: base_def max_int64_def)
    ultimately show ?thesis
      using backoffInterval_exact [of base n "8 * base"] k by (simp add: base_def min_def)
  qed
  moreover have "backoffInterval n base (8 * base) = 2 ^ 30" if "31 \<le> n" for n
    using \<open>31 \<le> n\<close> wrapped by (auto simp: backoffInterval_def Let_def base_def)
  ultimately show "let base = 2 ^ 36 + 1 in
      backoffCap base = 8 * base \<and> (\<forall>n \<in> {4..27}. backoffInterval n base (backoffCap base) = 8 * base) \<and>
      (\<forall>n \<ge> 31. backoffInterval n base (backoffCap base) = 2 ^ 30)"
    using cap by (simp only: Let_def flip: base_def) blast
  show "\<forall>base n. 30 * minute < base \<and> 0 < n \<longrightarrow> backoffInterval n base (backoffCap base) < base"
  proof (intro allI impI)
    fix base n :: int assume b: "30 * minute < base \<and> 0 < n"
    then have "0 < base" by (simp add: minute_def)
    then show "backoffInterval n base (backoffCap base) < base"
      using b backoffCap_range [of base] backoffInterval_range(2) [of base "backoffCap base" n] by simp
  qed
qed

subsection \<open>From the configuration to the expander\<close>

lemma trim_space_eq: "trim_space s = [] \<longleftrightarrow> \<not> set_field s"
  by (simp add: set_field_def)

lemma resolveCred_ok:
  assumes "set_field e \<longrightarrow> set_field i \<or> set_field (getenv (trim_space e))"
  shows "\<exists>v. resolveCred getenv i e = Inr v \<and> (v = [] \<longleftrightarrow> \<not> set_field i \<and> \<not> set_field e)"
  using assms by (auto simp: resolveCred_def set_field_def Let_def)

definition env_set :: "(string \<Rightarrow> string) \<Rightarrow> string \<Rightarrow> bool" where
  "env_set getenv name \<longleftrightarrow> (set_field name \<longrightarrow> set_field (getenv (trim_space name)))"

lemma ValidateConfig_iff:
  "ws_ValidateConfig cfg = None \<longleftrightarrow>
     set_field (pc_api_token cfg) \<noteq> set_field (pc_api_token_file cfg) \<and> pc_mode cfg \<in> {[], ''direct'', ''backbone''} \<and>
     pc_kind cfg \<in> {[], KindHTTP, KindSOCKS5} \<and> pc_countries cfg = [] \<and> list_all isISOAlpha2 (pc_country_codes cfg) \<and>
     \<not> (set_field (pc_proxy_username cfg) \<and> set_field (pc_proxy_username_env cfg)) \<and>
     \<not> (set_field (pc_proxy_password cfg) \<and> set_field (pc_proxy_password_env cfg)) \<and>
     (set_field (pc_proxy_username cfg) \<or> set_field (pc_proxy_username_env cfg)) =
     (set_field (pc_proxy_password cfg) \<or> set_field (pc_proxy_password_env cfg))"
  by (auto simp: ws_ValidateConfig_def validateProxyCreds_def Let_def list_ex_iff list_all_iff split: if_splits)

lemma build_parts_facts:
  assumes "ws_build_parts getenv file cfg = Inr (c, client)"
  shows "wc_token client \<noteq> []" and "wx_mode c \<in> {''direct'', ''backbone''}" and "wx_kind c \<in> {KindHTTP, KindSOCKS5}"
    and "paired_override c" and "wx_id_prefix c = pc_id_prefix cfg" and "wx_id_prefix c \<noteq> []"
proof -
  obtain user pass where p: "buildClient file cfg = Inr client" "resolveProxyCreds getenv cfg = Inr (user, pass)"
      "ws_NewExpander (ws_config_of cfg user pass) True = Inr c"
    using assms by (auto simp: ws_build_parts_def split: sum.splits)
  obtain token where t: "resolveToken file cfg = Inr token" "wc_token client = token"
    using p(1) by (auto simp: buildClient_def split: sum.splits)
  then show "wc_token client \<noteq> []"
    using LoadTokenFile_ok(1) by (auto simp: resolveToken_def split: if_splits)
  show "wx_mode c \<in> {''direct'', ''backbone''}" "wx_kind c \<in> {KindHTTP, KindSOCKS5}"
      "wx_id_prefix c = pc_id_prefix cfg" "wx_id_prefix c \<noteq> []"
    using p(3) by (auto simp: ws_NewExpander_def ws_config_of_def Let_def split: if_splits)
  show "paired_override c"
    using p(2,3) by (auto simp: ws_NewExpander_def ws_config_of_def Let_def paired_override_def resolveProxyCreds_def
        split: if_splits sum.splits)
qed

text \<open>
  A block that the provider accepts becomes an expander whenever its prefix is set, its token file is
  readable and the variables it names are set: with a token, a known mode and kind, and an override of both credentials or of neither;
  and whatever is built, accepted or not, has these.
\<close>

theorem accepted_block_builds:
  "(ws_ValidateConfig cfg = None \<and> pc_id_prefix cfg \<noteq> [] \<and>
      (set_field (pc_api_token_file cfg) \<longrightarrow> is_ok (LoadTokenFile file (trim_space (pc_api_token_file cfg)))) \<and>
      env_set getenv (pc_proxy_username_env cfg) \<and> env_set getenv (pc_proxy_password_env cfg) \<longrightarrow>
    is_ok (ws_build_parts getenv file cfg)) \<and>
   (\<forall>c client. ws_build_parts getenv file cfg = Inr (c, client) \<longrightarrow>
      wc_token client \<noteq> [] \<and> wx_mode c \<in> {''direct'', ''backbone''} \<and> wx_kind c \<in> {KindHTTP, KindSOCKS5} \<and>
      paired_override c \<and> wx_id_prefix c = pc_id_prefix cfg \<and> wx_id_prefix c \<noteq> [])"
proof (intro conjI impI allI)
  assume a: "ws_ValidateConfig cfg = None \<and> pc_id_prefix cfg \<noteq> [] \<and>
    (set_field (pc_api_token_file cfg) \<longrightarrow> is_ok (LoadTokenFile file (trim_space (pc_api_token_file cfg)))) \<and>
    env_set getenv (pc_proxy_username_env cfg) \<and> env_set getenv (pc_proxy_password_env cfg)"
  then have v: "set_field (pc_api_token cfg) \<noteq> set_field (pc_api_token_file cfg)" "pc_mode cfg \<in> {[], ''direct'', ''backbone''}"
      "pc_kind cfg \<in> {[], KindHTTP, KindSOCKS5}"
      "(set_field (pc_proxy_username cfg) \<or> set_field (pc_proxy_username_env cfg)) =
       (set_field (pc_proxy_password cfg) \<or> set_field (pc_proxy_password_env cfg))"
    by (simp_all add: ValidateConfig_iff)
  obtain user where u: "resolveCred getenv (pc_proxy_username cfg) (pc_proxy_username_env cfg) = Inr user"
      "user = [] \<longleftrightarrow> \<not> set_field (pc_proxy_username cfg) \<and> \<not> set_field (pc_proxy_username_env cfg)"
    using resolveCred_ok [of "pc_proxy_username_env cfg"] a by (auto simp: env_set_def)
  obtain pass where p: "resolveCred getenv (pc_proxy_password cfg) (pc_proxy_password_env cfg) = Inr pass"
      "pass = [] \<longleftrightarrow> \<not> set_field (pc_proxy_password cfg) \<and> \<not> set_field (pc_proxy_password_env cfg)"
    using resolveCred_ok [of "pc_proxy_password_env cfg"] a by (auto simp: env_set_def)
  have "resolveProxyCreds getenv cfg = Inr (user, pass)" using u p v(4) by (auto simp: resolveProxyCreds_def)
  moreover have "is_ok (resolveToken file cfg)"
    using a v(1) by (auto simp: resolveToken_def trim_space_eq)
  then have "is_ok (buildClient file cfg)" by (auto simp: buildClient_def split: sum.splits)
  moreover have "is_ok (ws_NewExpander (ws_config_of cfg user pass) True)"
    using a v(2,3) by (auto simp: ws_NewExpander_def ws_config_of_def Let_def)
  ultimately show "is_ok (ws_build_parts getenv file cfg)"
    by (auto simp: ws_build_parts_def split: sum.splits)
next
  fix c client assume "ws_build_parts getenv file cfg = Inr (c, client)"
  note facts = build_parts_facts [OF this]
  show "wc_token client \<noteq> []" "wx_mode c \<in> {''direct'', ''backbone''}" "wx_kind c \<in> {KindHTTP, KindSOCKS5}"
    "paired_override c" "wx_id_prefix c = pc_id_prefix cfg" "wx_id_prefix c \<noteq> []"
    by (rule facts)+
qed

end
