(* ===== verification/VendorPools.thy ===== *)
theory VendorPools
  imports Runtime Mullvad Webshare
begin

text \<open>
  The two vendors in the running program: the registry that the providers' \<open>init\<close> functions fill, a start-up that
  expands their blocks, and a heal that carries new credentials from the vendor's API to the dialers.
\<close>

subsection \<open>The registry\<close>

definition default_registry :: "relay_decode \<Rightarrow> mv_world \<Rightarrow> (upstream_pool_config \<Rightarrow> ws_world) \<Rightarrow> goerr + registry" where
  "default_registry decode mw ww =
     (case Register (Some (mv_provider decode mw)) fmempty of
        Inl e \<Rightarrow> Inl e
      | Inr reg \<Rightarrow> Register (Some (ws_provider ww)) reg)"

lemma default_registry_ok:
  "default_registry decode mw ww =
     Inr (fmupd ''webshare'' (ws_provider ww) (fmupd ''mullvad'' (mv_provider decode mw) fmempty))"
  by (simp add: default_registry_def Register_def mv_provider_def ws_provider_def)

lemma default_lookup:
  assumes "default_registry decode mw ww = Inr reg"
  shows "provider_Lookup reg ''mullvad'' = Some (mv_provider decode mw)"
    and "provider_Lookup reg ''webshare'' = Some (ws_provider ww)"
    and "provider_Lookup reg name \<noteq> None \<longleftrightarrow> name \<in> {''mullvad'', ''webshare''}"
  using assms by (auto simp: default_registry_ok provider_Lookup_def split: if_splits)

text \<open>What the first snapshot of a block amounts to.\<close>

definition mullvad_block :: "relay_decode \<Rightarrow> mv_world \<Rightarrow> upstream_pool_config \<Rightarrow> upstream_config list \<Rightarrow> bool" where
  "mullvad_block decode mw p us \<longleftrightarrow>
     pc_provider p = ''mullvad'' \<and> pc_id_prefix p \<noteq> [] \<and>
     (\<exists>relays. fst (Fetch decode (fst (mw p)) (mv_cache_of p) (snd (mw p))) = Inr relays \<and>
        us = mv_transform (mv_config_of p) relays)"

definition webshare_block :: "(upstream_pool_config \<Rightarrow> ws_world) \<Rightarrow> upstream_pool_config \<Rightarrow> upstream_config list \<Rightarrow> bool" where
  "webshare_block ww p us \<longleftrightarrow>
     pc_provider p = ''webshare'' \<and>
     (\<exists>c client. ws_build_parts (ww_getenv (ww p)) (ww_file (ww p)) p = Inr (c, client) \<and>
        fst (ws_Snapshot (ww_env (ww p)) (ww_cache (ww p)) c (client, ww_disk (ww p))) = Inr (Some us))"

lemma expand_mullvad:
  assumes "default_registry decode mw ww = Inr reg" and "mullvad_block decode mw p us"
  shows "expandPool reg p = Inr \<lparr>bk_id_prefix = pc_id_prefix p, bk_provider = ''mullvad'', bk_healer = False,
           bk_has_api = False, bk_initial = Some us\<rparr>"
  using assms default_lookup(1) [OF assms(1)]
  by (auto simp: mullvad_block_def expandPool_def mv_provider_def mv_BuildExpander_def NewExpander_def
      mv_config_of_def mv_Snapshot_def split: prod.splits sum.splits)

lemma expand_webshare:
  assumes "default_registry decode mw ww = Inr reg" and "webshare_block ww p us"
  shows "expandPool reg p = Inr \<lparr>bk_id_prefix = pc_id_prefix p, bk_provider = ''webshare'', bk_healer = True,
           bk_has_api = True, bk_initial = Some us\<rparr>"
proof -
  obtain c client where b: "ws_build_parts (ww_getenv (ww p)) (ww_file (ww p)) p = Inr (c, client)"
      "fst (ws_Snapshot (ww_env (ww p)) (ww_cache (ww p)) c (client, ww_disk (ww p))) = Inr (Some us)"
      "pc_provider p = ''webshare''"
    using assms(2) by (auto simp: webshare_block_def)
  then have "buildClient (ww_file (ww p)) p = Inr client"
    by (auto simp: ws_build_parts_def split: sum.splits)
  with b show ?thesis
    using default_lookup(2) [OF assms(1)]
    by (simp add: expandPool_def ws_provider_def ws_BuildExpander_def ws_BuildAPI_def)
qed

text \<open>Every upstream of a block has a proper id and kind; its address is the vendor's business.\<close>

lemma mullvad_block_kind:
  "mullvad_block decode mw p us \<Longrightarrow> u \<in> set us \<Longrightarrow> uc_id u \<noteq> [] \<and> uc_kind u = KindSOCKS5"
  by (auto simp: mullvad_block_def mv_transform_mem)

lemma webshare_block_kind:
  assumes "webshare_block ww p us" and "u \<in> set us"
  shows "uc_id u \<noteq> [] \<and> uc_kind u \<in> {KindHTTP, KindSOCKS5}"
proof -
  obtain c client where c: "ws_build_parts (ww_getenv (ww p)) (ww_file (ww p)) p = Inr (c, client)"
      "fst (ws_Snapshot (ww_env (ww p)) (ww_cache (ww p)) c (client, ww_disk (ww p))) = Inr (Some us)"
    using assms(1) by (auto simp: webshare_block_def)
  note built = build_parts_facts [OF c(1)]
  obtain ps cu cp where "us = ws_transform c ps cu cp"
    using c(2) by (auto simp: ws_Snapshot_def split: sum.splits prod.splits)
  then show ?thesis
    using assms(2) ws_transform_set [OF built(4)] built(3) by (auto simp: expanded_proxy_def)
qed

subsection \<open>Start-up with both vendors\<close>

lemma list_all2_left: "list_all2 P xs ys \<Longrightarrow> x \<in> set xs \<Longrightarrow> \<exists>y \<in> set ys. P x y"
  by (induction rule: list_all2_induct) auto

lemma list_all2_right: "list_all2 P xs ys \<Longrightarrow> y \<in> set ys \<Longrightarrow> \<exists>x \<in> set xs. P x y"
  by (induction rule: list_all2_induct) auto

text \<open>A block that answered: its list, and whether it can heal.\<close>

definition block_live ::
    "relay_decode \<Rightarrow> mv_world \<Rightarrow> (upstream_pool_config \<Rightarrow> ws_world) \<Rightarrow> upstream_pool_config \<Rightarrow> upstream_config list \<Rightarrow> bool" where
  "block_live decode mw ww p us \<longleftrightarrow> mullvad_block decode mw p us \<or> webshare_block ww p us"

definition live_block :: "upstream_pool_config \<Rightarrow> upstream_config list \<Rightarrow> pool_block" where
  "live_block p us =
     \<lparr>bk_id_prefix = pc_id_prefix p, bk_provider = pc_provider p, bk_healer = (pc_provider p = ''webshare''),
      bk_has_api = (pc_provider p = ''webshare''), bk_initial = Some us\<rparr>"

lemma expand_live:
  assumes "default_registry decode mw ww = Inr reg" and "block_live decode mw ww p us"
  shows "expandPool reg p = Inr (live_block p us)"
  using assms expand_mullvad expand_webshare
  by (auto simp: block_live_def live_block_def mullvad_block_def webshare_block_def)

lemma expand_pools_live:
  assumes "default_registry decode mw ww = Inr reg" and "list_all2 (block_live decode mw ww) pools uss"
  shows "expandUpstreamPools reg pools = Inr (concat uss, map2 live_block pools uss)"
proof -
  have "map_result (\<lambda>b. case expandPool reg b of Inl e \<Rightarrow> Inl (errorf_w ''upstream_pool'' e) | Inr pb \<Rightarrow> Inr pb) pools =
      Inr (map2 live_block pools uss)"
    using assms(2)
    by (induction rule: list_all2_induct) (simp_all add: expand_live [OF assms(1)])
  moreover have "concat (map (slice_list \<circ> bk_initial) (map2 live_block pools uss)) = concat uss"
    using assms(2)
    by (induction rule: list_all2_induct) (simp_all add: live_block_def slice_list_def)
  ultimately show ?thesis by (simp add: expandUpstreamPools_def)
qed

text \<open>The blocks that can heal, by prefix.\<close>

definition heal_prefixes :: "upstream_pool_config list \<Rightarrow> string list" where
  "heal_prefixes pools = [pc_id_prefix p. p \<leftarrow> pools, pc_provider p = ''webshare'']"

lemma live_drivers:
  assumes "length pools = length uss"
  shows "buildAuthHealDrivers (map (\<lambda>b. (bk_id_prefix b, bk_healer b)) (map2 live_block pools uss)) =
           map newAuthHealDriver (heal_prefixes pools)"
    and "map bk_id_prefix (map2 live_block pools uss) = map pc_id_prefix pools"
  using assms
  by (induction pools uss rule: list_induct2)
    (simp_all add: heal_prefixes_def buildAuthHealDrivers_def live_block_def)

lemma run_build_vendors:
  assumes "default_registry decode mw ww = Inr reg" and "Validate (Some (provider_validator reg)) re cfg = []"
    and "list_all2 (block_live decode mw ww) (cf_upstream_pools cfg) uss"
    and "\<forall>u \<in> set (concat uss). upstream_addr_ok (uc_addr u)"
    and "cf_upstreams cfg @ concat uss \<noteq> []" and "distinct (map uc_id (cf_upstreams cfg @ concat uss))"
    and "\<forall>r \<in> set (cf_rules cfg). set (rc_prefer r) \<subseteq> set (map uc_id (cf_upstreams cfg @ concat uss))"
    and "validateNoPoolPrefixCollision (map uc_id (cf_upstreams cfg))
      (map newAuthHealDriver (heal_prefixes (cf_upstream_pools cfg))) (map pc_id_prefix (cf_upstream_pools cfg)) = None"
    and "\<forall>u \<in> set (cf_upstreams cfg @ concat uss). b u = None"
    and "fc_timeout_ms (cf_failure cfg) * ms \<le> max_int64" and "is_ok (buildControlTokens (cf_control cfg) fs)"
  shows "\<exists>c rt drivers rules. run_build reg b re dec disk fs cfg = Inr (c, rt, drivers) \<and>
           mset (PoolIDs (rt_sb rt)) = mset (map uc_id (cf_upstreams cfg @ concat uss)) \<and>
           map hd_id_prefix drivers = heal_prefixes (cf_upstream_pools cfg) \<and>
           NewRuleSet re (cf_rules cfg) = Inr rules \<and> sb_rules (rt_sb rt) = rules \<and> hl_rules (rt_http rt) = rules"
proof -
  have len: "length (cf_upstream_pools cfg) = length uss" using assms(3) by (rule list_all2_lengthD)
  have "wf_upstream u" if u: "u \<in> set (concat uss)" for u
  proof -
    obtain us where us: "us \<in> set uss" "u \<in> set us" using u by auto
    obtain p where "block_live decode mw ww p us" using list_all2_right [OF assms(3) us(1)] by blast
    then have "uc_id u \<noteq> [] \<and> uc_kind u \<in> {KindHTTP, KindSOCKS5}"
      using us(2) mullvad_block_kind [of decode mw p us u] webshare_block_kind [of ww p us u] by (auto simp: block_live_def)
    then show ?thesis using assms(4) u by (auto simp: wf_upstream_def)
  qed
  then have wf: "\<forall>u \<in> set (concat uss). wf_upstream u" by blast
  have prefers: "assertRulePreferIDs (cf_rules cfg) (cf_upstreams cfg @ concat uss) = None"
    using assms(7) by (simp add: assertRulePreferIDs_None)
  note ds = live_drivers [OF len]
  obtain c rt rules where r: "run_build reg b re dec disk fs cfg =
      Inr (c, rt, connectAuthHealDriversToComposer (map newAuthHealDriver (heal_prefixes (cf_upstream_pools cfg)))
        (Some ShutdownCtx))"
      "mset (PoolIDs (rt_sb rt)) = mset (map uc_id (cf_upstreams cfg @ concat uss))"
      "NewRuleSet re (cf_rules cfg) = Inr rules" "sb_rules (rt_sb rt) = rules" "hl_rules (rt_http rt) = rules"
    using run_build_ok [OF assms(2) expand_pools_live [OF assms(1,3)] assms(10,11,5,6,9) wf prefers, of dec disk,
      unfolded ds, OF assms(8)]
    by blast
  have "map hd_id_prefix (connectAuthHealDriversToComposer (map newAuthHealDriver (heal_prefixes (cf_upstream_pools cfg)))
      (Some ShutdownCtx)) = heal_prefixes (cf_upstream_pools cfg)"
    by (simp add: connectAuthHealDriversToComposer_def newAuthHealDriver_def setComposer_def setParentContext_def comp_def)
  with r show ?thesis by blast
qed


subsection \<open>A heal reaches the dialers\<close>

lemma build_pool_entries:
  assumes "build_pool b t cap us = Inr p" and "u \<in> set us"
  shows "\<exists>e \<in> set (pl_entries p). upstream_New b u t = Inr (pe_up e)"
proof -
  obtain entries where e: "map_result (build_upstream b t) us = Inr entries" "NewPool entries cap = Inr p"
    using assms(1) by (auto simp: build_pool_def split: sum.splits)
  have "list_all2 (\<lambda>x y. build_upstream b t x = Inr y) us entries" using e(1) by (simp add: map_result_Inr_iff)
  then obtain y where y: "y \<in> set entries" "build_upstream b t u = Inr y"
    using list_all2_left [OF _ assms(2)] by blast
  obtain up where up: "y = (Some up, PriorityValue u)" "upstream_New b u t = Inr up"
    using y(2) by (auto simp: build_upstream_def split: sum.splits)
  have "\<lparr>pe_up = up, pe_priority = PriorityValue u\<rparr> \<in> set (pl_entries p)"
    using y(1) up(1) NewPool_spec(3) [OF e(2)] by force
  with up(2) show ?thesis by force
qed

lemma block_current_view:
  assumes "block_current c p = Some (Some us)"
  shows "set us \<subseteq> set (composer_view c)"
proof -
  obtain i where i: "block_index p (pc_blocks c) = Some i" "snd (pc_blocks c ! i) = Some us"
    using assms by (auto simp: block_current_def)
  then have "pc_blocks c ! i \<in> set (pc_blocks c)" using block_index_Some by auto
  with i(2) show ?thesis by (auto simp: composer_view_def merged_def slice_list_def intro!: bexI)
qed

text \<open>What a dialer built from an upstream configuration authenticates with.\<close>

lemma upstream_New_auth:
  assumes "upstream_New b u t = Inr up" and "uc_username u = user" and "uc_password u = pass" and "user \<noteq> []"
  shows "uc_kind u = KindHTTP \<Longrightarrow> up_auth_value up = basicAuthHeader user pass"
    and "uc_kind u = KindSOCKS5 \<Longrightarrow> up_socks_auth up = Some (user, pass)"
  using assms
  by (auto simp: upstream_New_def newHTTP_def newSOCKS5_def KindHTTP_def KindSOCKS5_def KindDirect_def
      split: if_splits option.splits)

lemma composer_Update_block:
  assumes "composer_Update b p next (c, rt) = (Inr applied, c', rt')"
  shows "block_current c' p = Some next"
proof -
  have "update_outcome b p next (c, rt) (Inr applied, c', rt')"
    using composer_Update_outcome [of b p "next" "(c, rt)"] assms by simp
  then show ?thesis
    by (cases applied) (auto elim!: update_sameE update_appliedE simp: block_current_update)
qed

lemma pool_authenticates:
  assumes "rt_inv b C (c, rt)" and "block_current c p = Some (Some us)" and "u \<in> set us"
    and "uc_username u = user" and "uc_password u = pass" and "user \<noteq> []" and "uc_kind u \<in> {KindHTTP, KindSOCKS5}"
  shows "\<exists>e \<in> set (sb_pool_entries (rt_sb rt)). pe_id e = uc_id u \<and>
           (if uc_kind u = KindHTTP then up_auth_value (pe_up e) = basicAuthHeader user pass
            else up_socks_auth (pe_up e) = Some (user, pass))"
proof -
  have "pc_blocks c \<noteq> []" using assms(2) by (auto simp: block_current_def)
  then have "build_pool b (pc_dialTimeout c) (pc_retryCap c) (composer_view c) = Inr (sb_pool (rt_sb rt))"
    using assms(1) by (simp add: rt_inv_def composer_synced_def)
  moreover have "u \<in> set (composer_view c)" using block_current_view [OF assms(2)] assms(3) by blast
  ultimately obtain e where e: "e \<in> set (pl_entries (sb_pool (rt_sb rt)))"
      "upstream_New b u (pc_dialTimeout c) = Inr (pe_up e)"
    using build_pool_entries by blast
  have "sb_pool_entries (rt_sb rt) = pl_entries (sb_pool (rt_sb rt))"
    using assms(1) sb_inv_entries [of C "rt_sb rt"] by (simp add: rt_inv_def)
  moreover have "pe_id e = uc_id u" using upstream_New_id [OF e(2)] by simp
  ultimately show ?thesis
    using e(1) upstream_New_auth [OF e(2) assms(4,5,6)] assms(7) by auto
qed


end
