(* ===== verification/VendorScenario.thy ===== *)
theory VendorScenario
  imports Scenario VendorPools
begin

text \<open>
  The properties of the vendor pools at concrete inputs: one Webshare block with one proxy whose password was rotated,
  and one Mullvad relay.
\<close>

subsection \<open>A vendor that answers\<close>

definition small_body :: body where
  "small_body = \<lparr>bd_chunks = [''x''], bd_end = None, bd_closed = False\<rparr>"

definition demo_proxy :: proxy where
  "demo_proxy = \<lparr>px_id = ''1'', px_username = ''u'', px_password = ''old'', px_address = ''192.0.2.1'', px_port = 8080,
     px_valid = True, px_last_verification = 0, px_country_code = ''US'', px_city_name = [], px_created_at = 0\<rparr>"

definition demo_status :: proxy_list_status where
  "demo_status = \<lparr>st_state = ''completed'', st_countries = fmempty, st_unallocated_countries = fmempty,
     st_username = ''u'', st_password = ''new'', st_is_proxy_used = True\<rparr>"

text \<open>The vendor, by what its status probe answers.\<close>

definition vendor_env :: "goerr + proxy_list_status \<Rightarrow> ws_env" where
  "vendor_env st = \<lparr>we_new_request = (\<lambda>_. None), we_do = (\<lambda>_ _. Inr (200, small_body)), we_other = (\<lambda>_. None),
     we_file = (\<lambda>_ _. Inl (ErrLeaf ErrNotExist None)), we_page = (\<lambda>_. Inr ([], [demo_proxy])),
     we_status = (\<lambda>_. st), we_profile = (\<lambda>_. Inr (1, [])), we_parse_url = (\<lambda>_. Inl (errorf ''bad''))\<rparr>"

abbreviation demo_ws_env :: ws_env where
  "demo_ws_env \<equiv> vendor_env (Inr demo_status)"

abbreviation probe_down :: ws_env where
  "probe_down \<equiv> vendor_env (Inl (errorf ''down''))"

definition demo_client :: ws_client where
  "demo_client = ws_NewClient\<lparr>wc_token := ''tok''\<rparr>"

definition no_cache_env :: ws_cache_env where
  "no_cache_env = \<lparr>cx_decode = (\<lambda>_. Inr [demo_proxy]), cx_encode = (\<lambda>_. Inr ''[]''), cx_read = None,
     cx_write = \<lparr>kw_tmp = ''/c.tmp'', kw_mkdir = None, kw_create = None, kw_write = None, kw_close = None, kw_rename = None\<rparr>\<rparr>"

definition demo_options :: list_options where
  "demo_options = \<lparr>lo_mode = [], lo_plan_id = [], lo_country_codes = [''us''], lo_search = [], lo_page_size = 0\<rparr>"

lemma read_small: "read_capped maxBodyBytes small_body = Inr ''x''"
  by (simp add: read_capped_def small_body_def maxBodyBytes_def)

lemma demo_do:
  assumes "wc_token c \<noteq> []"
  shows "ws_do (vendor_env st) method path c =
           (Inr ''x'', c\<lparr>wc_sent := wc_sent c @ [request_for method path (wc_token c) False c]\<rparr>)"
    and "ws_doV3 (vendor_env st) method path c =
           (Inr ''x'', c\<lparr>wc_sent := wc_sent c @ [request_for method path (wc_token c) True c]\<rparr>)"
  using assms
  by (simp_all add: ws_do_def ws_doV3_def requestWithRetry_def snapshotToken_def send_def Let_def vendor_env_def
      response_result_def read_small status_result_def request_for_def base_for_def)

lemma demo_list:
  assumes "wc_token c \<noteq> []"
  shows "listProxiesOnline (vendor_env st) opts c =
           (Inr [demo_proxy], c\<lparr>wc_sent := wc_sent c @ [request_for ''GET'' (list_path opts) (wc_token c) False c]\<rparr>)"
proof -
  have pg: "we_page (vendor_env st) ''x'' = Inr ([], [demo_proxy])" by (simp add: vendor_env_def)
  show ?thesis
    by (simp only: listing_step list_pages.simps demo_do(1) [OF assms] prod.case sum.case pg if_True refl append_Nil)
qed

lemma demo_ListProxies:
  assumes "wc_token c \<noteq> []" and "wc_cache c = None"
  shows "ListProxies (vendor_env st) kx opts (c, m) =
           (Inr [demo_proxy], c\<lparr>wc_sent := wc_sent c @ [request_for ''GET'' (list_path opts) (wc_token c) False c]\<rparr>, m)"
  using assms by (simp add: ListProxies_def demo_list)

lemma demo_fetch_status:
  assumes "wc_token c \<noteq> []" and "trim_space plan \<noteq> []"
  shows "\<exists>c'. FetchProxyListStatus (vendor_env (Inr status)) plan c = (Inr status, c')"
proof -
  have "we_status (vendor_env (Inr status)) ''x'' = Inr status" by (simp add: vendor_env_def)
  with assms show ?thesis by (simp add: FetchProxyListStatus_def Let_def demo_do(2))
qed

lemma demo_refresh:
  assumes "wc_token c \<noteq> []"
  shows "\<exists>r. RefreshProxyList (vendor_env st) plan c = (None, c\<lparr>wc_sent := wc_sent c @ [r]\<rparr>)"
  using assms by (auto simp: RefreshProxyList_def Let_def demo_do(1))

lemma demo_client_fields [simp]: "wc_token demo_client = ''tok''" "wc_token_file demo_client = []" "wc_cache demo_client = None"
    "wc_sent demo_client = []" "wc_base demo_client = ws_BaseURL"
  by (simp_all add: demo_client_def ws_NewClient_def)

subsection \<open>Requests and listings\<close>

lemma requestWithRetry_once_more_witness:
  "length (wc_sent (snd (requestWithRetry demo_ws_env ''GET'' ''/profile/'' False False demo_client))) \<le> 2"
  using requestWithRetry_once_more [OF prod.collapse [symmetric], of demo_ws_env "''GET''" "''/profile/''" False False demo_client]
  by auto

lemma listProxiesOnline_walk_witness:
  "\<exists>pages. complete_walk demo_ws_env 500 pages \<and> [demo_proxy] = concat (map snd pages)"
  using listProxiesOnline_walk [OF demo_list [of demo_client]] by simp


definition down_env :: ws_env where
  "down_env = demo_ws_env\<lparr>we_do := (\<lambda>_ _. Inl (ErrLeaf DeadlineExceeded (Some True)))\<rparr>"

lemma first_page_policy_witness:
  "fst (ListProxies down_env no_cache_env demo_options (demo_client\<lparr>wc_cache := Some ''/c''\<rparr>, fmupd ''/c'' ''[]'' fmempty)) =
     Inr [demo_proxy]"
proof -
  let ?c = "demo_client\<lparr>wc_cache := Some ''/c''\<rparr>" and ?m = "fmupd ''/c'' ''[]'' fmempty"
  have p: "plain_client down_env demo_options ?c" by (simp add: plain_client_def down_env_def vendor_env_def)
  have k: "ws_tryCacheFallback no_cache_env (wc_cache ?c) ?m = Some [demo_proxy]"
    by (simp add: ws_tryCacheFallback_def no_cache_env_def ws_cache_Read_def cache_Read_def)
  have a: "first_answer down_env demo_options ?c = Inl (ErrLeaf DeadlineExceeded (Some True))"
    by (simp add: first_answer_def down_env_def)
  have f: "foreign_error (ErrLeaf DeadlineExceeded (Some True))" by (simp add: foreign_error_def)
  from first_page_policy [OF p k refl] a f show ?thesis by blast
qed

subsection \<open>Expansions\<close>

lemma SOCKS5Address_exact_witness:
  "SOCKS5Address ''se-sto-wg-001'' = Inr ''se-sto-wg-socks5-001.relays.mullvad.net:1080'' \<and> relay_name ''se-sto-wg-001'' ''se-sto'' ''001''"
proof -
  have "list_all is_digit ''001''" by code_simp
  then have "relay_name ''se-sto-wg-001'' ''se-sto'' ''001''" by (simp add: relay_name_def)
  with SOCKS5Address_exact [of "''se-sto-wg-001''"] show ?thesis by fastforce
qed

definition demo_relay :: relay where
  "demo_relay = \<lparr>ry_hostname = ''se-sto-wg-001'', ry_country = ''Sweden'', ry_city = ''Stockholm'', ry_active = True\<rparr>"

definition demo_mv_config :: mv_config where
  "demo_mv_config = \<lparr>mx_id_prefix = ''mv'', mx_priority = 200, mx_countries = ['' sweden''], mx_include_inactive = False,
     mx_refresh = hour\<rparr>"

lemma mv_transform_exact_witness:
  "distinct (map uc_id (mv_transform demo_mv_config [demo_relay])) \<and>
   (\<exists>u \<in> set (mv_transform demo_mv_config [demo_relay]). uc_id u = ''mv-se-sto-wg-001'' \<and> wf_upstream u)"
proof -
  have c: "to_lower ''Sweden'' = to_lower (trim_space '' sweden'')" by code_simp
  have w: "relay_wanted demo_mv_config demo_relay"
    using c by (simp add: relay_wanted_def demo_mv_config_def demo_relay_def)
  have p: "plain_port (ry_hostname demo_relay)" by (simp add: plain_port_def demo_relay_def)
  have a: "SOCKS5Address (ry_hostname demo_relay) = Inr ''se-sto-wg-socks5-001.relays.mullvad.net:1080''"
    unfolding demo_relay_def relay.simps by code_simp
  let ?u = "\<lparr>uc_id = mx_id_prefix demo_mv_config @ ''-'' @ ry_hostname demo_relay, uc_kind = KindSOCKS5,
      uc_addr = ''se-sto-wg-socks5-001.relays.mullvad.net:1080'', uc_priority = Some (mx_priority demo_mv_config),
      uc_username = [], uc_password = []\<rparr>"
  note t = mv_transform_exact [of demo_mv_config "[demo_relay]"]
  have "?u \<in> set (mv_transform demo_mv_config [demo_relay])" using t w a by auto
  moreover from this have "wf_upstream ?u" using t p by auto
  moreover have "uc_id ?u = ''mv-se-sto-wg-001''" by (simp add: demo_mv_config_def demo_relay_def)
  ultimately show ?thesis using t by auto
qed

definition demo_ws_config :: ws_config where
  "demo_ws_config = \<lparr>wx_id_prefix = ''w'', wx_priority = 200, wx_mode = ''direct'', wx_kind = KindHTTP, wx_plan_id = ''7'',
     wx_country_codes = [], wx_refresh = 12 * hour, wx_proxy_username = [], wx_proxy_password = []\<rparr>"

lemma demo_usable: "proxy_usable demo_proxy"
  by (simp add: proxy_usable_def demo_proxy_def)

lemma demo_paired: "paired_override demo_ws_config"
  by (simp add: paired_override_def demo_ws_config_def)

lemma ws_transform_exact_witness:
  "set (ws_transform demo_ws_config [demo_proxy] ''u'' ''new'') = {expanded_proxy demo_ws_config (''u'', ''new'') demo_proxy} \<and>
   wf_upstream (expanded_proxy demo_ws_config (''u'', ''new'') demo_proxy)"
proof -
  have k: "wx_kind demo_ws_config \<in> {KindHTTP, KindSOCKS5}" by (simp add: demo_ws_config_def)
  have h: "plain_host (px_address demo_proxy)" "list_ex (\<lambda>c. \<not> is_space c) (px_address demo_proxy)"
    by (simp_all add: demo_proxy_def plain_host_def is_space_def)
  from ws_transform_exact [OF demo_paired k, of "[demo_proxy]" "''u''" "''new''"] h demo_usable show ?thesis by auto
qed

lemma RunRefresh_backoff_witness:
  "\<exists>states calls. RunRefresh True minute ''a'' [Inr ''b'', Inl (errorf ''down''), Inl (errorf ''down'')] = Inr (states, calls) \<and>
     rs_interval (last states) = 2 * minute \<and> map snd calls = [''b'']"
proof -
  let ?os = "[Inr ''b'', Inl (errorf ''down''), Inl (errorf ''down'')]"
  have n: "trailing_failures ?os = 2" by (simp add: trailing_failures_def)
  have cap: "backoffCap minute = 8 * minute" by code_simp
  have m: "0 < minute" and os: "?os \<noteq> []" by (simp_all add: minute_def)
  obtain states calls where b: "RunRefresh True minute ''a'' ?os = Inr (states, calls)"
      "1 \<le> trailing_failures ?os \<and> trailing_failures ?os \<le> 31 \<and> minute * 2 ^ (trailing_failures ?os - 1) \<le> max_int64 \<longrightarrow>
       rs_interval (last states) = min (minute * 2 ^ (trailing_failures ?os - 1)) (8 * minute)"
      "map snd calls = [x. Inr x \<leftarrow> ?os]"
    using RunRefresh_backoff [OF m os, of "''a''"] unfolding Let_def cap by blast
  from b(2,3) have "rs_interval (last states) = 2 * minute" "map snd calls = [''b'']"
    by (simp_all add: n minute_def max_int64_def)
  with b(1) show ?thesis by (intro exI conjI)
qed

subsection \<open>Start-up and heal\<close>

definition demo_pool :: upstream_pool_config where
  "demo_pool = \<lparr>pc_provider = ''webshare'', pc_id_prefix = ''w'', pc_priority = None, pc_countries = [], pc_country_codes = [],
     pc_include_inactive = False, pc_refresh = None, pc_cache_path = [], pc_api_token = ''tok'', pc_api_token_file = [],
     pc_plan_id = ''7'', pc_mode = [], pc_kind = [], pc_proxy_username = [], pc_proxy_password = [],
     pc_proxy_username_env = [], pc_proxy_password_env = []\<rparr>"

definition demo_world :: ws_world where
  "demo_world = \<lparr>ww_env = probe_down, ww_cache = no_cache_env, ww_disk = fmempty, ww_getenv = (\<lambda>_. []),
     ww_file = (\<lambda>_. Inl (ErrLeaf ErrNotExist None))\<rparr>"

abbreviation no_relays :: relay_decode where
  "no_relays \<equiv> \<lambda>_. Inl (errorf ''no json'')"

definition demo_mv_world :: mv_world where
  "demo_mv_world = (\<lambda>_. (\<lparr>fx_answer = Inl (errorf ''down''), fx_read = None,
     fx_write = \<lparr>kw_tmp = [], kw_mkdir = None, kw_create = None, kw_write = None, kw_close = None, kw_rename = None\<rparr>\<rparr>, fmempty))"

definition vendor_config :: config where
  "vendor_config = demo_config\<lparr>cf_upstream_pools := [demo_pool]\<rparr>"

lemma vendor_config_fields [simp]:
  "cf_upstreams vendor_config = [default_upstream (direct_upstream ''a'')]" "cf_upstream_pools vendor_config = [demo_pool]"
  "cf_rules vendor_config = []" "cc_persist_path (cf_cache vendor_config) = []" "cf_control vendor_config = cf_control demo_config"
  "cf_failure vendor_config = cf_failure demo_config"
  by (simp_all add: vendor_config_def)

lemma demo_parts: "ws_build_parts (\<lambda>_. []) file demo_pool = Inr (demo_ws_config, demo_client)"
proof -
  have t: "trim_space ''tok'' = ''tok''" "trim_space ''7'' = ''7''" "trim_space [] = []" by code_simp+
  show ?thesis
    by (simp add: ws_build_parts_def buildClient_def resolveToken_def resolveProxyCreds_def resolveCred_def t demo_pool_def
        ws_NewExpander_def ws_config_of_def demo_ws_config_def demo_client_def Let_def pool_PriorityValue_def
        RefreshDuration_def ws_NewClient_def)
qed

lemma demo_snapshot:
  "\<exists>c. ws_Snapshot probe_down no_cache_env demo_ws_config (demo_client, fmempty) =
     (Inr (Some (ws_transform demo_ws_config [demo_proxy] [] [])), c, fmempty)"
proof -
  have p: "wx_plan_id demo_ws_config = ''7''" "trim_space ''7'' \<noteq> []" by (simp add: demo_ws_config_def) code_simp
  let ?c = "demo_client\<lparr>wc_sent := wc_sent demo_client @ [request_for ''GET'' (list_path (snapshot_options demo_ws_config))
      (wc_token demo_client) False demo_client]\<rparr>"
  obtain c where "fetchCanonicalCreds probe_down demo_ws_config ?c = (([], []), c)"
    using p by (simp add: fetchCanonicalCreds_def FetchProxyListStatus_def Let_def demo_do(2)) (simp add: vendor_env_def)
  then show ?thesis
    using demo_ListProxies [of demo_client _ no_cache_env "snapshot_options demo_ws_config" fmempty]
    by (simp add: ws_Snapshot_def)
qed

lemma demo_expansion:
  "ws_transform demo_ws_config [demo_proxy] cu cp = [expanded_proxy demo_ws_config (cu, cp) demo_proxy]"
  using ws_upstream_Some [OF demo_paired] demo_usable by (simp add: ws_transform_def List.map_filter_simps slice_sort_def)

lemma demo_block_live:
  "list_all2 (block_live no_relays demo_mv_world (\<lambda>_. demo_world)) (cf_upstream_pools vendor_config)
     [[expanded_proxy demo_ws_config ([], []) demo_proxy]]"
proof -
  have "pc_provider demo_pool = ''webshare''" by (simp add: demo_pool_def)
  moreover obtain c where "ws_Snapshot probe_down no_cache_env demo_ws_config (demo_client, fmempty) =
     (Inr (Some [expanded_proxy demo_ws_config ([], []) demo_proxy]), c, fmempty)"
    using demo_snapshot demo_expansion by auto
  ultimately show ?thesis
    using demo_parts by (auto simp: block_live_def webshare_block_def demo_world_def)
qed

abbreviation demo_registry :: registry where
  "demo_registry \<equiv> fmupd ''webshare'' (ws_provider (\<lambda>_. demo_world)) (fmupd ''mullvad'' (mv_provider no_relays demo_mv_world) fmempty)"

lemma demo_registry: "default_registry no_relays demo_mv_world (\<lambda>_. demo_world) = Inr demo_registry"
  by (rule default_registry_ok)

lemma vendor_config_valid: "Validate (Some (provider_validator demo_registry)) (\<lambda>_. None) vendor_config = []"
proof -
  have wf: "wf_config None (\<lambda>_. None) demo_config" using demo_config_valid by (simp add: Validate_Nil_iff)
  have "ws_ValidateConfig demo_pool = None" "idPrefixRe ''w''"
    unfolding demo_pool_def by code_simp+
  then have "wf_pool (Some (provider_validator demo_registry)) demo_pool"
    by (simp add: wf_pool_def provider_validator_def provider_Lookup_def ws_provider_def)
      (simp add: demo_pool_def abs_or_empty_def)
  then show ?thesis
    using wf by (simp add: Validate_Nil_iff wf_config_def wf_listeners_def vendor_config_def)
qed

lemma demo_expanded_id: "uc_id (expanded_proxy demo_ws_config canonical demo_proxy) = ''w-1''"
  by (simp add: expanded_proxy_def demo_ws_config_def demo_proxy_def)

lemma demo_prefixes: "validateNoPoolPrefixCollision (map uc_id (cf_upstreams vendor_config))
    (map newAuthHealDriver (heal_prefixes (cf_upstream_pools vendor_config)))
    (map pc_id_prefix (cf_upstream_pools vendor_config)) = None"
proof -
  have "heal_prefixes [demo_pool] = [''w'']" "pc_id_prefix demo_pool = ''w''" by (simp_all add: heal_prefixes_def demo_pool_def)
  moreover have "validateNoPoolPrefixCollision [''a''] [newAuthHealDriver ''w''] [''w''] = None"
    by (simp add: no_collision_iff static_collision_None pool_collision_None newAuthHealDriver_def)
  ultimately show ?thesis by (simp add: default_upstream_def direct_upstream_def)
qed

lemma demo_wf: "wf_upstream (expanded_proxy demo_ws_config canonical demo_proxy)"
    and demo_addr: "upstream_addr_ok (uc_addr (expanded_proxy demo_ws_config canonical demo_proxy))"
proof -
  have "plain_host (px_address demo_proxy)" "list_ex (\<lambda>c. \<not> is_space c) (px_address demo_proxy)"
    by (simp_all add: demo_proxy_def plain_host_def is_space_def)
  then show wf: "wf_upstream (expanded_proxy demo_ws_config canonical demo_proxy)"
    using expanded_proxy_wf(1) [OF _ demo_usable, of demo_ws_config canonical] by (simp add: demo_ws_config_def)
  from wf show "upstream_addr_ok (uc_addr (expanded_proxy demo_ws_config canonical demo_proxy))"
    by (simp add: wf_upstream_def expanded_proxy_def demo_ws_config_def KindHTTP_def KindDirect_def KindSOCKS5_def)
qed

abbreviation vendor_start :: "startup_error + composer \<times> runtime \<times> heal_driver list" where
  "vendor_start \<equiv> run_build demo_registry no_build_error (\<lambda>_. None) (\<lambda>_. Inl (ErrLeaf ErrNotExist None)) fmempty
     (\<lambda>_. Inl (ErrLeaf ErrNotExist None)) vendor_config"

lemma vendor_start_facts:
  "heal_prefixes [demo_pool] = [''w'']" "uc_id (default_upstream (direct_upstream ''a'')) = ''a''"
  by (simp_all add: heal_prefixes_def demo_pool_def default_upstream_def direct_upstream_def split: option.splits)


lemma vendor_started:
  obtains rt drivers where "vendor_start = Inr
      (newPoolComposer (cf_upstreams vendor_config)
         [live_block demo_pool [expanded_proxy demo_ws_config ([], []) demo_proxy]] 5 8000000000, rt, drivers)"
proof -
  obtain c rt drivers where r: "vendor_start = Inr (c, rt, drivers)"
    using run_build_vendors [OF demo_registry vendor_config_valid demo_block_live _ _ _ _ demo_prefixes, of no_build_error
        "\<lambda>_. Inl (ErrLeaf ErrNotExist None)" "\<lambda>_. Inl (ErrLeaf ErrNotExist None)" fmempty]
      demo_addr demo_expanded_id demo_timeout demo_tokens vendor_start_facts
    by auto
  from run_build_started [OF r] show thesis
  proof (cases rule: started.cases)
    case (1 expanded blocks)
    have "dial_timeout vendor_config = 8000000000" by (simp add: dial_timeout_def ms_def wrap64_def)
    then show thesis
      using that r 1(1-4) expand_pools_live [OF demo_registry demo_block_live] by simp
  qed
qed

text \<open>The heal of a program that started with the old password.\<close>

lemma demo_update:
  assumes "vendor_start = Inr (c0, rt0, drivers)"
    and "c0 = newPoolComposer (cf_upstreams vendor_config)
         [live_block demo_pool [expanded_proxy demo_ws_config ([], []) demo_proxy]] 5 8000000000"
  obtains c' rt' where "composer_Update no_build_error ''w''
      (Some [expanded_proxy demo_ws_config (''u'', ''new'') demo_proxy]) (c0, rt0) = (Inr True, c', rt')"
proof -
  let ?new = "expanded_proxy demo_ws_config (''u'', ''new'') demo_proxy"
  let ?us = "cf_upstreams vendor_config @ [?new]"
  have w: "pc_id_prefix demo_pool = ''w''" by (simp add: demo_pool_def)
  have ne: "expanded_proxy demo_ws_config ([], []) demo_proxy \<noteq> ?new"
    by (simp add: expanded_proxy_def creds_for_def demo_ws_config_def demo_proxy_def)
  have uniq: "assertUniqueUpstreamIDs ?us = None"
    by (simp add: assertUniqueUpstreamIDs_None demo_expanded_id vendor_start_facts)
  have wf: "wf_upstream (default_upstream (direct_upstream ''a''))" by (simp add: wf_direct_upstream)
  have "is_ok (build_pool no_build_error 8000000000 5 ?us)"
    by (rule build_pool_ok) (simp_all add: demo_wf wf del: wf_default_upstream)
  then obtain pl where pl: "build_pool no_build_error 8000000000 5 ?us = Inr pl"
    by (cases "build_pool no_build_error 8000000000 5 ?us") auto
  obtain sb where sb: "ReplacePool (Some pl) (rt_sb rt0) = Inr sb" using ReplacePool_total by blast
  show thesis
    using that uniq pl sb ne
    by (simp add: composer_Update_def assms(2) newPoolComposer_def live_block_def w merged_def slice_list_def)
qed


end
