(* ===== verification/Witnesses.thy ===== *)
theory Witnesses
  imports Demo
begin

text \<open>
  The properties applied at concrete inputs, with every hypothesis discharged on the scoreboard of
  \<open>Demo\<close> and small configurations.
\<close>

subsection \<open>Pick\<close>

lemma Pick_sound_witness:
  "up_id (demo_upstream ''b'') \<in> set (PoolIDs demo_sb) \<and> allowed demo_sb ''h'' [] ''b''"
proof -
  obtain s1 where "Pick 10 demo_draws ''h'' [] demo_sb = (Inr (demo_upstream ''b''), s1)"
    using demo_pick_h by (metis prod.collapse)
  from Pick_sound [OF demo_rules this] show ?thesis
    by (simp add: pin_for_def)
qed

lemma Pick_error_iff_witness:
  "fst (Pick 10 demo_draws ''x'' [''a'', ''b''] demo_sb) = Inl (ErrLeaf ErrPoolExhausted None) \<and>
   fst (Pick 10 demo_draws ''c'' [] demo_sb) = Inl (CascadeError ''c'')"
  unfolding Pick_error_iff [OF demo_rules]
  by (simp add: cascadeActive_def after_def pin_for_def allowed_def PoolIDs_def)

lemma Pick_honours_pin_witness:
  "\<exists>up s'. Pick 10 demo_draws ''p'' [''a''] demo_sb = (Inr up, s') \<and> up_id up = ''b''"
  using Pick_honours_pin [of demo_sb "''p''" 10 "\<lparr>fo_upstream_id = ''b'', fo_until = 900\<rparr>" "[''a'']" demo_draws]
  by (simp add: cascadeActive_def after_def PoolIDs_def)


lemma Pick_cooling_witness:
  "\<exists>c \<in> set (sb_pool_entries demo_sb). pe_id c = ''a'' \<and> rk_cooled (rank_of demo_sb ''h'' fmempty 10 c) \<and>
     \<not> allowed demo_sb ''h'' [''b''] ''b''"
proof -
  obtain s1 where "Pick 10 demo_draws ''h'' [''b''] demo_sb = (Inr (demo_upstream ''a''), s1)"
    using demo_pick_h_again by (metis prod.collapse)
  from Pick_cooling [OF demo_rules this] show ?thesis
    by (auto simp: pin_for_def allowed_def rank_of_def time_defs rules_Match_def matched_ranks_def)
qed

subsection \<open>DialFor\<close>


lemma DialFor_cascade_witness:
  "sb_cascade (snd (snd (DialFor demo_env 10 30 ''h:80'' demo_sb))) = fmdrop ''h'' (sb_cascade demo_sb)"
proof -
  obtain s' where "DialFor demo_env 10 30 ''h:80'' demo_sb = (Connected ''conn'' ''b'', [''b''], s')"
    using demo_dial_h by (metis prod.collapse)
  from DialFor_cascade [OF demo_alone this] this show ?thesis
    by (simp add: cascade_after_def demo_hosts)
qed


lemma DialFor_connected_witness:
  "\<exists>e. entry_at (sb_entries (snd (snd (DialFor demo_env 10 30 ''h:80'' demo_sb)))) ''h'' ''b'' = Some e \<and>
     en_cooldown_until e = zero_time \<and> en_last_seen e = 20"
proof -
  obtain s' where d: "DialFor demo_env 10 30 ''h:80'' demo_sb = (Connected ''conn'' ''b'', [''b''], s')"
    using demo_dial_h by (metis prod.collapse)
  from DialFor_connected [OF d] d show ?thesis by (simp add: demo_hosts demo_env_def)
qed

subsection \<open>Records\<close>

lemma demo_accepts: "accepts demo_sb 200 (''h'', ''a'', KindTimeout)"
  by (simp add: accepts_def acceptForDebounce_def)


lemma RecordFailure_burst_witness:
  "fold (\<lambda>(t', ov'). RecordFailure t' ''h'' ''a'' KindTimeout ov') [(201, None), (300, Some 9)]
     (RecordFailure 200 ''h'' ''a'' KindTimeout None demo_sb) =
   RecordFailure 200 ''h'' ''a'' KindTimeout None demo_sb"
  by (rule RecordFailure_burst [OF _ _ demo_accepts]) (simp_all add: max_int64_def)

lemma RecordSuccess_effect_witness:
  "\<exists>e'. entry_at (sb_entries (RecordSuccess 200 ''h'' ''a'' demo_sb)) ''h'' ''a'' = Some e' \<and>
     en_cooldown_until e' = zero_time \<and> en_success e' = 1"
  using RecordSuccess_effect [OF demo_inv refl _ refl, of "''h''" "''a''" 200]
  by (auto simp: found_entry_def)


lemma detector_policy_agree_witness:
  "policy_of (FromConfig ScoringDefaults DefaultStatusRules True) KindForbidden =
     \<lparr>po_penalty = f64_of_int 6, po_cooldown = 30 * minute\<rparr>"
proof -
  have "Detect (\<lambda>_. None) (Some (NewStatusDetector DefaultStatusRules)) 0 403 fmempty =
      Some \<lparr>dt_kind = KindForbidden, dt_cooldown_override = None\<rparr>"
    by (simp add: Detect_def NewStatusDetector_lookup statusKinds_def DefaultStatusRules_def)
  from detector_policy_agree [OF this, of ScoringDefaults True] show ?thesis
    by (auto simp: DefaultStatusRules_def append_eq_Cons_conv Cons_eq_append_conv)
qed

subsection \<open>Persistence\<close>

definition demo_order :: range_order where
  "demo_order loop keys = sorted_list_of_fset keys"

lemma demo_order_ok: "range_ok demo_order"
  by (simp add: range_ok_def demo_order_def sorted_list_of_fset.rep_eq)

definition demo_save :: save_env where
  "demo_save = \<lparr>se_tmp = ''tmp'', se_create = None, se_magic = None, se_version = None, se_encode = None,
     se_sync = None, se_close = None, se_rename = None, se_syncdir = None\<rparr>"

lemma demo_save_ok:
  "fst (SaveSnapshot enc ord demo_save ''f'' now s m) = None"
  by (simp add: SaveSnapshot_def demo_save_def Let_def)

lemma snapshot_roundtrip_witness:
  "LoadSnapshot (\<lambda>_. Inr (buildSnapshot demo_order 90 demo_sb)) ''f''
     (last (snd (SaveSnapshot (\<lambda>_. [7]) demo_order demo_save ''f'' 90 demo_sb fmempty))) demo_sb =
   Inr (demo_sb\<lparr>sb_entries := demo_entries, sb_cascade := live_cascade 90 (sb_cascade demo_sb)\<rparr>)"
proof -
  obtain states where sv: "SaveSnapshot (\<lambda>_. [7]) demo_order demo_save ''f'' 90 demo_sb fmempty = (None, states)"
    using demo_save_ok by (metis prod.collapse)
  from snapshot_roundtrip [of "\<lambda>_. Inr (buildSnapshot demo_order 90 demo_sb)" "\<lambda>_. [7]", OF refl demo_order_ok _ sv]
  show ?thesis using sv demo_no_empty by (simp add: demo_save_def)
qed

lemma SaveSnapshot_atomic_witness:
  "list_all (\<lambda>m'. fmlookup m' ''f'' \<in> {Some [1], Some [84, 83, 66, 49, 0, 0, 0, 1, 7]}) (snd (SaveSnapshot (\<lambda>_. [7]) demo_order (demo_save\<lparr>se_sync := Some (errorf ''disk'')\<rparr>) ''f'' 90
       demo_sb (fmap_of_list [(''f'', [1])])))"
proof -
  let ?env = "demo_save\<lparr>se_sync := Some (errorf ''disk'')\<rparr>" and ?m = "fmap_of_list [(''f'', [1])]"
  obtain err states where sv: "SaveSnapshot (\<lambda>_. [7]) demo_order ?env ''f'' 90 demo_sb ?m = (err, states)"
    by (cases "SaveSnapshot (\<lambda>_. [7]) demo_order ?env ''f'' 90 demo_sb ?m")
  from SaveSnapshot_atomic [OF sv] sv show ?thesis
    by (simp add: list_all_iff demo_save_def fmlookup_of_list snapshot_bytes_def version_bytes persistMagic_bytes)
qed

lemma Prune_transparent_witness:
  "fst (Pick 200 demo_draws ''h'' [] (snd (Prune 150 demo_sb))) = fst (Pick 200 demo_draws ''h'' [] demo_sb)"
proof (rule Prune_transparent [OF demo_rules])
  show "no_cooling_prunable 150 demo_sb"
    by (auto simp: no_cooling_prunable_def split: if_splits)
qed simp


subsection \<open>Reachability, pools, configuration\<close>

lemma reachable_scoreboard_witness:
  "\<exists>s0 s. sb_init 10 s0 \<and> (sb_step 10)\<^sup>*\<^sup>* s0 s \<and> sorted (map pe_priority (sb_pool_entries s))"
proof -
  obtain s0 where n: "sb_New (Some demo_pool) demo_cfg [] False True = Inr s0"
    by (simp add: sb_New_def)
  then have i: "sb_init 10 s0"
    using demo_pool_wf demo_cfg_inv representable_10
    by (auto simp: sb_init_def intro!: exI [of _ demo_pool] exI [of _ demo_cfg] exI [of _ "[]"])
  have st: "(sb_step 10)\<^sup>*\<^sup>* s0 (RecordSuccess 5 ''h'' ''a'' s0)"
    by (rule r_into_rtranclp) (rule step_success)
  from reachable_scoreboard [OF i st] i st show ?thesis by blast
qed

lemma ReplacePool_pins_witness:
  "\<exists>s'. ReplacePool (Some (demo_pool\<lparr>pl_entries := [\<lparr>pe_up = demo_upstream ''a'', pe_priority = 1\<rparr>]\<rparr>)) demo_sb = Inr s' \<and>
     fmlookup (sb_forces s') ''p'' = None"
proof -
  let ?p = "demo_pool\<lparr>pl_entries := [\<lparr>pe_up = demo_upstream ''a'', pe_priority = 1\<rparr>]\<rparr>"
  obtain s' where r: "ReplacePool (Some ?p) demo_sb = Inr s'" by (simp add: ReplacePool_def Let_def)
  from ReplacePool_pins [OF this] r show ?thesis by (simp add: IDs_def)
qed

end
