(* ===== verification/Spec2Isabelle.thy ===== *)
theory Spec2Isabelle
  imports CommandLine OperatorScenario ShutdownScenario VendorScenario Witnesses
begin

text \<open>
  Tunnelsmith is a forward proxy (HTTP and SOCKS5) that spreads outbound traffic over a set of upstream
  proxies and learns, per destination host, which of them work. This development models its own logic, part
  by part, as executable functions over explicit state, and proves what each part and their
  composition promise.

  The program and its model, bottom up. Paths are under \<open>src/\<close>.

  \<^item> \<open>Prelude\<close>, \<open>Float64\<close>, \<open>GoStd\<close>, \<open>GoText\<close>, \<open>Glob\<close>: what the program uses of Go. Errors are sums with the
    chain that \<open>errors.Is\<close> walks; \<open>float64\<close> is a rational with IEEE rounding, infinities and NaN; \<open>int64\<close>
    and \<open>time.Duration\<close> are integers with the wrap-around written out (\<open>wrap64\<close>); \<open>time.Time\<close> is an integer of
    nanoseconds whose zero is the zero time; strings are byte lists; maps are finite maps, walked in key order;
    \<open>net.SplitHostPort\<close>, \<open>net/http.Header\<close>, \<open>bufio.Scanner\<close> lines and \<open>path.Match\<close> are written out.
  \<^item> \<open>Config\<close>: \<open>internal/config/config.go\<close>. Defaults and \<open>Validate\<close>, which accepts exactly the declarative
    \<open>wf_config\<close>.
  \<^item> \<open>Failure\<close>: \<open>internal/failure\<close>. Error classification, Retry-After, the status detector, body inspection
    with the replay reader.
  \<^item> \<open>Upstream\<close>, \<open>Rules\<close>: \<open>internal/upstream\<close>. The three egress kinds, the CONNECT handshake as a trace of
    connection events, the static pool, the host rules.
  \<^item> \<open>Scoreboard\<close>, \<open>SbInvariant\<close>, \<open>Picking\<close>, \<open>DialLoop\<close>, \<open>Records\<close>, \<open>Persist\<close>, \<open>Steps\<close>:
    \<open>internal/scoreboard\<close>. The record \<open>scoreboard\<close> is the Go struct, every critical section is a
    function on it. \<open>Pick\<close> is specified by what it may and what it must return; \<open>DialFor\<close> runs under interference
    (an environment gives what other goroutines do between its critical sections); records and decay are
    specified on each pair; snapshots are bytes on a file system in which a save is a sequence of operations that
    may fail or be cut anywhere; \<open>Steps\<close> is the transition system of all critical sections with its
    invariant \<open>sb_inv\<close>.
  \<^item> \<open>HealDriver\<close>: \<open>cmd/tunnelsmith/healdriver.go\<close>. The driver that counts credential failures in a sliding
    window, as a transition system with a log.
  \<^item> \<open>HttpListener\<close>, \<open>Forward\<close>: \<open>internal/listener/http.go\<close>. Reloadable knobs, the cache of transports (an
    upstream id mapped to the upstream its transport dials through), header stripping, the bounded request
    body, the retry loop of the plain-HTTP path and the CONNECT path, under interference.
  \<^item> \<open>Tokens\<close>, \<open>Control\<close>: \<open>internal/control\<close>. Bearer tokens, outcome reports, the health check and the refresh
    of vendor pools. The interface \<open>Backend\<close> is the locale \<open>report_backend\<close>, which the scoreboard interprets.
  \<^item> \<open>Providers\<close>: \<open>internal/upstream/provider/registry.go\<close> and \<open>internal/upstream/providers\<close>.
  \<^item> \<open>VendorCache\<close>, \<open>Mullvad\<close>: \<open>internal/upstream/mullvad\<close>. The cache file, the bounded read of an answer, the relay
    list and its expansion. The interface of a client with a cache is the locale \<open>cached_client\<close>, which both
    vendors interpret.
  \<^item> \<open>WebshareApi\<close>, \<open>Webshare\<close>: \<open>internal/upstream/webshare\<close>. The client is its token and the log of the requests it sent;
    a request, its retry after a token rotation, the paginated listing with 500 pages as its fuel (running out is the
    code's own error), the cache policy; the expander with its credentials, heal and refresh loop; the provider.
  \<^item> \<open>Composer\<close>, \<open>Reloader\<close>, \<open>Runtime\<close>: \<open>cmd/tunnelsmith/main.go\<close>. \<open>run_build\<close> is the build section of \<open>run\<close>;
    \<open>composer_Update\<close> the hot-swap of the pool; \<open>runHeal\<close> and \<open>refresh_callback\<close> its two callers; \<open>reload\<close> the
    reload on SIGHUP. \<open>Runtime\<close> composes them with the scoreboard's steps and the listener's transports, and
    \<open>VendorPools\<close> with the two vendors.
  \<^item> \<open>Client\<close>, \<open>Reporting\<close>: \<open>client/client.go\<close>. \<open>New\<close> with its checks of the URLs, \<open>Report\<close> and the exchange it
    makes with the control endpoint, the report queue with its drops, \<open>RoundTrip\<close> with the response's upstream
    and the automatic report; \<open>sdk_run\<close> is the step relation of the reporter's slots. \<open>Reporting\<close> joins the client to
    the control handlers and to the scoreboard.
  \<^item> \<open>OperatorUI\<close>, \<open>UIProps\<close>: \<open>internal/ui/handlers.go\<close>. The routes, the JSON view of the scoreboard, the actions that
    pin, unpin and forget, on the scoreboard's own operations. The interface \<open>Backend\<close> is the locale \<open>ui_laws\<close>.
  \<^item> \<open>Socks\<close>: \<open>internal/listener/socks.go\<close>. Serve, the handler of a connection and Shutdown as three step relations over one
    state (connections, wait group, flags), interleaved freely.
  \<^item> \<open>Metrics\<close>: \<open>internal/metrics/metrics.go\<close>. The registry as finite maps from label values to values, each observer a
    function on it; the locale \<open>counting_sink\<close> is what its callers rely on.
  \<^item> \<open>Servers\<close>: the life of the servers on \<open>net/http\<close>. \<open>net_serve_step\<close> and \<open>net_shutdown_step\<close> are the \<open>Serve\<close> and \<open>Shutdown\<close>
    of \<open>internal/ui/server.go\<close>, of \<open>internal/metrics/metrics.go\<close> and of \<open>internal/control/server.go\<close>, and the first part of
    those of \<open>internal/listener/http.go\<close>, which adds the tunnels (\<open>tunnel_step\<close>) and their draining (\<open>drain_step\<close>).
  \<^item> \<open>CommandLine\<close>, \<open>RunLife\<close>, \<open>RunExit\<close>: the two ends of \<open>cmd/tunnelsmith/main.go\<close>. \<open>run_front\<close> is \<open>run\<close> up to the loaded
    configuration; \<open>group_step\<close> and \<open>main_step\<close> are the error group and the main goroutine from the start of the servers to
    the exit, over the states of \<open>Servers\<close> and \<open>Socks\<close>; \<open>RunExit\<close> characterises when the process ends.
  \<^item> \<open>Systems\<close>: the locale \<open>invariant_system\<close>, interpreted by the scoreboard, the heal drivers, the running
    program, the servers and the end of \<open>run\<close>. \<open>Demo\<close>, \<open>Samples\<close>, \<open>Witnesses\<close>, \<open>Scenario\<close>, \<open>VendorScenario\<close>, \<open>OperatorScenario\<close>, \<open>ShutdownScenario\<close>: concrete states, and every property with a
    hypothesis applied to them.

  What the groups of properties show. Picking: the chosen upstream is untried, allowed and best; errors are
  characterised exactly. Dialling and forwarding: distinct upstreams within the cap, the cascade bookkeeping
  of each end, no connection or tunnel leaked, the served response untouched. Learning: the exact effect of
  successes, failures and decay, and bounded scores in every reachable state. Persistence: round trip,
  atomicity, pruning. Healing: one heal at a time, after a burst and after the cooldown. Control: who is let
  in and what a report does. Vendors: which relays and proxies become upstreams, with which credentials; at most one
  retry per request; which failures the cache may answer; the bounds of listing and backoff. Client: a report reaches
  the key the traffic is kept under, and every accepted report is sent, queued or counted as dropped. Operator UI: a
  pin decides the next pick, a forget leaves the host as if never seen, the view is the scoreboard's state, and an answer
  tells whether the state changed. SOCKS: when Shutdown has returned nil, at most one connection is still in flight, and
  Shutdown is never stuck. HTTP: what its
  Shutdown has ended when it returns. Exit: run returns only after every server, and the exact condition under which it can. Metrics: the counters are the numbers of calls, and their series are bounded by the pool. Composition: start-up
  succeeds on accepted configurations whose pools answer, a heal reaches the dialers, a hot-swap and a
  reload are all or nothing, and pool, gauges, transports, pins and composer agree in every state reached by any
  interleaving of them.

  What is a parameter. Code outside the repository is an argument of the definitions that use it: the TOML
  decoder, the regular-expression engine, the gob codec, \<open>http.ParseTime\<close>, \<open>net.ParseIP\<close>, \<open>encoding/json\<close>,
  \<open>httpguts\<close>, the SOCKS5 client of \<open>x/net\<close>, the vendor APIs, the file system, the network, the clock and
  the random source. Nothing is assumed of them but what a theorem states.

  Modelling decisions. A mutex-protected section is one atomic function, and goroutines interleave between such
  sections. \<open>sort.Slice\<close> is Go's insertion sort, which is what it runs on short slices; on longer ones it is not
  stable, and the theorems about \<open>Pick\<close> then say more than Go promises only about the order of equal
  keys. Text is treated byte by byte, so case folding is ASCII. Logs are left out. Loops that are bounded
  by a cap recurse on it: \<open>dial_loop\<close>, \<open>forward_loop\<close> and \<open>pool_dial_loop\<close> take the number of turns left, which
  starts at the cap, so no fuel can run out early.

  \<open>net/http\<close>'s server and \<open>golang.org/x/sync/errgroup\<close> are modelled by their documentation: \<open>http.Server.Shutdown\<close> closes
  the listeners and the idle connections and waits for the others but not for hijacked ones, \<open>Serve\<close> then returns
  \<open>ErrServerClosed\<close>; the first error of a group cancels its context and is what \<open>Wait\<close> returns.

  Not modelled, because it is I/O or third-party code: the accept loops of \<open>net/http\<close>, the SOCKS5 protocol library around
  \<open>DialFor\<close>, the byte pump of a tunnel, the timed draining of a discarded response body, \<open>promhttp\<close> and the histogram
  buckets of Prometheus, the static files of the UI, the tuning of the client's \<open>http.Transport\<close>, the tickers, log lines,
  and the programs under \<open>examples/\<close>.
\<close>

end
